(* ===== verification/Cdi_Prelude.thy ===== *)
theory Cdi_Prelude
  imports Complex_Main "HOL-Library.Word"
begin

unbundle bit_operations_syntax

text \<open>
  Shared vocabulary of the development: the fixed-width integer types of the C sources, big-endian
  byte composition, the control-flow combinators the device models share, and the generic lemmas on
  words and iteration that the component proofs rest on.

  C arrays that the code indexes by a computed offset (RAM banks, register files, aperture memory)
  are functions from the index; small fixed buffers whose occupancy is an invariant are lists.
\<close>

section \<open>Machine integers\<close>

type_synonym u8 = "8 word"
type_synonym u16 = "16 word"
type_synonym u32 = "32 word"
type_synonym u64 = "64 word"

named_theorems be_simps \<open>composition and decomposition of big-endian values\<close>
named_theorems reg_simps \<open>register-file reads after writes\<close>

text \<open>
  A decision procedure for bit-level identities at a fixed width: two words are equal when their bits
  agree, the finitely many positions are enumerated, and the bit of every operator is computed.
\<close>

lemma bit_out: "\<not> n < LENGTH('a) \<Longrightarrow> \<not> bit (w :: 'a::len word) n"
  by (auto dest: bit_imp_le_length)

lemma all_less_8: "(\<forall>n<8. P (n :: nat)) \<longleftrightarrow>
     P 0 \<and> P 1 \<and> P 2 \<and> P 3 \<and> P 4 \<and> P 5 \<and> P 6 \<and> P 7"
  by (simp add: numeral_eq_Suc All_less_Suc2)

lemma all_less_16: "(\<forall>n<16. P (n :: nat)) \<longleftrightarrow>
     P 0 \<and> P 1 \<and> P 2 \<and> P 3 \<and> P 4 \<and> P 5 \<and> P 6 \<and> P 7 \<and> P 8
     \<and> P 9 \<and> P 10 \<and> P 11 \<and> P 12 \<and> P 13 \<and> P 14 \<and> P 15"
  by (simp add: numeral_eq_Suc All_less_Suc2)

lemma all_less_32: "(\<forall>n<32. P (n :: nat)) \<longleftrightarrow>
     P 0 \<and> P 1 \<and> P 2 \<and> P 3 \<and> P 4 \<and> P 5 \<and> P 6 \<and> P 7 \<and> P 8
     \<and> P 9 \<and> P 10 \<and> P 11 \<and> P 12 \<and> P 13 \<and> P 14 \<and> P 15 \<and> P
     16 \<and> P 17 \<and> P 18 \<and> P 19 \<and> P 20 \<and> P 21 \<and> P 22 \<and> P 23
     \<and> P 24 \<and> P 25 \<and> P 26 \<and> P 27 \<and> P 28 \<and> P 29 \<and> P 30 \<and> P
     31"
  by (simp add: numeral_eq_Suc All_less_Suc2)

lemma u8_eq_bits: "(x :: u8) = y \<longleftrightarrow> (\<forall>n<8. bit x n = bit y n)"
  by (auto simp: bit_eq_iff dest: bit_imp_le_length)

lemma u16_eq_bits: "(x :: u16) = y \<longleftrightarrow> (\<forall>n<16. bit x n = bit y n)"
  by (auto simp: bit_eq_iff dest: bit_imp_le_length)

lemma u32_eq_bits: "(x :: u32) = y \<longleftrightarrow> (\<forall>n<32. bit x n = bit y n)"
  by (auto simp: bit_eq_iff dest: bit_imp_le_length)

lemma u64_eq_bits: "(x :: u64) = y \<longleftrightarrow> (\<forall>n<64. bit x n = bit y n)"
  by (auto simp: bit_eq_iff dest: bit_imp_le_length)

lemmas bitwise8 = u8_eq_bits all_less_8 bit_simps bit_out
lemmas bitwise16 = u16_eq_bits all_less_16 bit_simps bit_out
lemmas bitwise32 = u32_eq_bits all_less_32 bit_simps bit_out

text \<open>Big-endian composition: \<open>be16\<close>/\<open>be32\<close> are the shift-and-or idiom used throughout the C code.\<close>

definition be16 :: "u8 \<Rightarrow> u8 \<Rightarrow> u16" where
  "be16 h l = push_bit 8 (ucast h) OR ucast l"

definition be32 :: "u8 \<Rightarrow> u8 \<Rightarrow> u8 \<Rightarrow> u8 \<Rightarrow> u32" where
  "be32 a b c d =
     push_bit 24 (ucast a) OR push_bit 16 (ucast b) OR push_bit 8 (ucast c) OR ucast d"

lemma be16_hi [be_simps, simp]: "(ucast (drop_bit 8 (be16 h l)) :: u8) = h"
  by (simp add: bitwise8 be16_def)

lemma be16_lo [be_simps, simp]: "(ucast (be16 h l) :: u8) = l"
  by (simp add: bitwise8 be16_def)

lemma be16_split [be_simps, simp]: "be16 (ucast (drop_bit 8 v)) (ucast v) = v"
  by (simp add: bitwise16 be16_def)

lemma be16_eq_iff [be_simps]: "be16 h l = be16 h' l' \<longleftrightarrow> h = h' \<and> l = l'"
  by (metis be16_hi be16_lo)

lemma be32_split [be_simps, simp]:
  "be32 (ucast (drop_bit 24 v)) (ucast (drop_bit 16 v)) (ucast (drop_bit 8 v)) (ucast v) = v"
  by (simp add: bitwise32 be32_def)

lemma be32_be16 [be_simps]: "be32 a b c d = push_bit 16 (ucast (be16 a b)) OR ucast (be16 c d)"
  by (simp add: bitwise32 be32_def be16_def)

text \<open>The two 16-bit halves of a long, in the order the bus transfers them.\<close>

lemma long_halves [be_simps, simp]:
  "push_bit 16 (ucast (ucast (drop_bit 16 (v :: u32)) :: u16)) OR ucast (ucast v :: u16) = v"
  by (simp add: bitwise32)

lemma and_exp_eq_0_iff: "(w :: 'a::len word) AND 2 ^ n = 0 \<longleftrightarrow> \<not> bit w n"
proof -
  have *: "w AND 2 ^ n = (if bit w n then 2 ^ n else 0)"
    by (rule bit_word_eqI) (auto simp: bit_simps)
  have "bit w n \<Longrightarrow> (2 :: 'a word) ^ n \<noteq> 0"
    by (auto dest: bit_imp_le_length)
  with * show ?thesis by simp
qed

lemma and_push_one_eq_0_iff: "(w :: 'a::len word) AND push_bit n 1 = 0 \<longleftrightarrow> \<not> bit w n"
  by (simp add: push_bit_eq_mult and_exp_eq_0_iff)

lemma unat_add_no_wrap:
  "unat (a :: 'a::len word) + unat b < 2 ^ LENGTH('a) \<Longrightarrow> unat (a + b) = unat a + unat b"
  by (simp add: unat_word_ariths)

lemma ucast_add_down:
  "LENGTH('b) \<le> LENGTH('a) \<Longrightarrow>
     (ucast ((a :: 'a::len word) + b) :: 'b::len word) = ucast a + ucast b"
  by (rule word_uint_eqI)
    (simp add: uint_word_ariths unsigned_ucast_eq take_bit_eq_mod mod_simps mod_mod_cancel le_imp_power_dvd)

lemma u32_less: "unat (w :: u32) < 4294967296"
  using unsigned_less [of w, where 'a = nat] by simp

lemma u16_less: "unat (w :: u16) < 65536"
  using unsigned_less [of w, where 'a = nat] by simp

lemma add_eq_0_no_wrap: "unat (u :: u32) + unat v < 2 ^ 32 \<Longrightarrow> u + v = 0 \<longleftrightarrow> u = 0 \<and> v = 0"
  by (auto simp: word_unat_eq_iff unat_add_no_wrap)

lemma u8_less: "unat (w :: u8) < 256"
  using unsigned_less [of w, where 'a = nat] by simp

lemma unat_Suc_u8: "unat (w :: u8) < 255 \<Longrightarrow> unat (w + 1) = Suc (unat w)"
  by (simp add: unat_word_ariths)

lemma u64_less: "unat (w :: u64) < 18446744073709551616"
  using unsigned_less [of w, where 'a = nat] by simp

section \<open>Iteration\<close>

text \<open>\<open>funpow\<close> unfolded at the front: the shape of a C loop that performs its body first.\<close>

lemma funpow_Suc_front: "(f ^^ Suc n) x = (f ^^ n) (f x)"
  by (simp only: funpow_Suc_right comp_apply)

lemma funpow_add_apply: "(f ^^ (m + n)) x = (f ^^ m) ((f ^^ n) x)"
  by (simp add: funpow_add)

lemma funpow_invariant:
  assumes "P x" and "\<And>y. P y \<Longrightarrow> P (f y)"
  shows "P ((f ^^ n) x)"
  using assms(1) by (induction n) (auto intro: assms(2))

end
