(* ===== verification/Cdi_Irq.thy ===== *)
theory Cdi_Irq
  imports Cdi_Prelude
begin

unbundle bit_operations_syntax

text \<open>
  Interrupt request state of the runner (\<^verbatim>\<open>runner/src/runtime.c\<close>): the external and on-chip pending
  masks and the per-level external vector. Devices assert levels here; the CPU side reads the highest
  pending level. The abstract view of the state is the set of pending levels.
\<close>

section \<open>State and operations\<close>

record irq =
  irq_pending :: u32
  irq_onchip_pending :: u32
  irq_external_vector :: "u8 \<Rightarrow> u8"

definition irq_reset :: irq where
  "irq_reset = \<lparr>irq_pending = 0, irq_onchip_pending = 0, irq_external_vector = (\<lambda>_. 0)\<rparr>"

definition level_bit :: "u8 \<Rightarrow> u32" where
  "level_bit level = push_bit (unat level) 1"

definition cdi_irq_raise :: "u8 \<Rightarrow> irq \<Rightarrow> irq" where
  "cdi_irq_raise level i =
     (if level = 0 \<or> level > 7 then i
      else i\<lparr>irq_external_vector := (irq_external_vector i)(level := 0),
             irq_pending := irq_pending i OR level_bit level\<rparr>)"

definition cdi_irq_raise_vector :: "u8 \<Rightarrow> u8 \<Rightarrow> irq \<Rightarrow> irq" where
  "cdi_irq_raise_vector level vector i =
     (if level = 0 \<or> level > 7 then i
      else i\<lparr>irq_external_vector := (irq_external_vector i)(level := vector),
             irq_pending := irq_pending i OR level_bit level\<rparr>)"

definition cdi_irq_clear :: "u8 \<Rightarrow> irq \<Rightarrow> irq" where
  "cdi_irq_clear level i =
     (if level = 0 \<or> level > 7 then i
      else i\<lparr>irq_pending := irq_pending i AND NOT (level_bit level),
             irq_external_vector := (irq_external_vector i)(level := 0)\<rparr>)"

definition cdi_irq_raise_onchip_level :: "u8 \<Rightarrow> irq \<Rightarrow> irq" where
  "cdi_irq_raise_onchip_level level i =
     (if level = 0 \<or> level > 7 then i
      else i\<lparr>irq_onchip_pending := irq_onchip_pending i OR level_bit level\<rparr>)"

text \<open>The on-chip inputs take their level from the LIR register, which the caller supplies.\<close>

definition cdi_irq_raise_onchip :: "u8 \<Rightarrow> u8 \<Rightarrow> irq \<Rightarrow> irq" where
  "cdi_irq_raise_onchip lir input i =
     (let level = (if input = 1 then drop_bit 4 lir AND 7
                   else if input = 2 then lir AND 7 else 0)
      in cdi_irq_raise_onchip_level level i)"

definition recomp_pending_irq_mask :: "irq \<Rightarrow> u32" where
  "recomp_pending_irq_mask i = irq_pending i OR irq_onchip_pending i"

text \<open>The loop \<open>for (lvl = 7; lvl >= 1; lvl--)\<close> of the level scan.\<close>

fun irq_level_from :: "u32 \<Rightarrow> nat \<Rightarrow> nat" where
  "irq_level_from m 0 = 0"
| "irq_level_from m (Suc lvl) =
     (if m AND push_bit (Suc lvl) 1 \<noteq> 0 then Suc lvl else irq_level_from m lvl)"

definition recomp_pending_irq_level :: "irq \<Rightarrow> nat" where
  "recomp_pending_irq_level i = irq_level_from (irq_pending i OR irq_onchip_pending i) 7"

section \<open>Abstract view\<close>

definition pending_levels :: "irq \<Rightarrow> nat set" where
  "pending_levels i = {l. 1 \<le> l \<and> l \<le> 7 \<and> bit (recomp_pending_irq_mask i) l}"

lemma bit_level_bit: "bit (level_bit level) n \<longleftrightarrow> n = unat level \<and> n < 32"
  by (auto simp: level_bit_def bit_simps bit_1_iff)

lemma level_small: "\<not> level > (7 :: u8) \<Longrightarrow> unat level \<le> 7"
  by (simp add: word_le_nat_alt not_less)

lemma irq_level_from_bounds: "irq_level_from m n \<le> n"
  by (induction n) auto

lemma irq_level_from_bit: "irq_level_from m n \<noteq> 0 \<Longrightarrow> bit m (irq_level_from m n)"
  by (induction n) (auto simp: and_exp_eq_0_iff simp del: power_Suc split: if_splits)

lemma irq_level_from_max:
  "l \<le> n \<Longrightarrow> 1 \<le> l \<Longrightarrow> bit m l \<Longrightarrow> l \<le> irq_level_from m n"
proof (induction n)
  case (Suc n)
  then show ?case by (cases "l = Suc n") (auto simp: and_exp_eq_0_iff simp del: power_Suc)
qed simp

text \<open>The scan returns the greatest pending level, and 0 exactly when none is pending.\<close>

lemma pending_level_spec:
  "recomp_pending_irq_level i = (if pending_levels i = {} then 0 else Max (pending_levels i))"
proof (cases "pending_levels i = {}")
  case True
  then have "irq_level_from (irq_pending i OR irq_onchip_pending i) 7 = 0"
    using irq_level_from_bit [of "irq_pending i OR irq_onchip_pending i" 7]
      irq_level_from_bounds [of "irq_pending i OR irq_onchip_pending i" 7]
    by (auto simp: pending_levels_def recomp_pending_irq_mask_def Suc_le_eq)
  with True show ?thesis by (simp add: recomp_pending_irq_level_def)
next
  case False
  let ?m = "irq_pending i OR irq_onchip_pending i"
  have fin: "finite (pending_levels i)"
    by (rule finite_subset [of _ "{..7}"]) (auto simp: pending_levels_def)
  have ub: "\<And>l. l \<in> pending_levels i \<Longrightarrow> l \<le> irq_level_from ?m 7"
    by (rule irq_level_from_max) (auto simp: pending_levels_def recomp_pending_irq_mask_def)
  with False have "irq_level_from ?m 7 \<noteq> 0"
    by (fastforce simp: pending_levels_def)
  then have "irq_level_from ?m 7 \<in> pending_levels i"
    using irq_level_from_bit [of ?m 7] irq_level_from_bounds [of ?m 7]
    by (auto simp: pending_levels_def recomp_pending_irq_mask_def)
  with fin ub False show ?thesis
    by (auto simp: recomp_pending_irq_level_def intro!: Max_eqI [symmetric])
qed

lemma pending_raise:
  "pending_levels (cdi_irq_raise level i) =
     (if level = 0 \<or> level > 7 then pending_levels i else insert (unat level) (pending_levels i))"
  using level_small [of level]
  by (auto simp: pending_levels_def cdi_irq_raise_def recomp_pending_irq_mask_def bit_simps
      bit_level_bit Suc_le_eq unat_gt_0)

lemma pending_raise_vector:
  "pending_levels (cdi_irq_raise_vector level v i) =
     (if level = 0 \<or> level > 7 then pending_levels i else insert (unat level) (pending_levels i))"
  using level_small [of level]
  by (auto simp: pending_levels_def cdi_irq_raise_vector_def recomp_pending_irq_mask_def bit_simps
      bit_level_bit Suc_le_eq unat_gt_0)

lemma pending_raise_onchip_level:
  "pending_levels (cdi_irq_raise_onchip_level level i) =
     (if level = 0 \<or> level > 7 then pending_levels i else insert (unat level) (pending_levels i))"
  using level_small [of level]
  by (auto simp: pending_levels_def cdi_irq_raise_onchip_level_def recomp_pending_irq_mask_def
      bit_simps bit_level_bit Suc_le_eq unat_gt_0)

text \<open>Clearing an external level leaves an on-chip request of the same level pending.\<close>

lemma pending_clear:
  "pending_levels (cdi_irq_clear level i) =
     (if level = 0 \<or> level > 7 then pending_levels i
      else if bit (irq_onchip_pending i) (unat level) then pending_levels i
      else pending_levels i - {unat level})"
  using level_small [of level]
  by (auto simp: pending_levels_def cdi_irq_clear_def recomp_pending_irq_mask_def bit_simps
      bit_level_bit Suc_le_eq unat_gt_0)

end
