(* ===== verification/Quiet_Device.thy ===== *)
theory Quiet_Device
  imports Cdi_Prelude
begin

text \<open>
  The contract behind the board's idle job (\<^verbatim>\<open>runner/include/cdi_board_jobs.h\<close>): every device offers
  the number of clock quanta that lie strictly before its next observable event, and a batched update
  for a quiet prefix. The laws relate one faithful quantum to the batched update; the lemmas show that
  a whole admitted prefix is indistinguishable from stepping the device quantum by quantum.
\<close>

locale quiet_device =
  fixes inv :: "'s \<Rightarrow> bool"
    and step :: "'s \<Rightarrow> 's"
    and limit :: "'s \<Rightarrow> nat"
    and advance :: "nat \<Rightarrow> 's \<Rightarrow> 's"
  assumes inv_step: "inv s \<Longrightarrow> 0 < limit s \<Longrightarrow> inv (step s)"
    and limit_step: "inv s \<Longrightarrow> 0 < limit s \<Longrightarrow> limit s \<le> Suc (limit (step s))"
    and advance_0: "inv s \<Longrightarrow> advance 0 s = s"
    and advance_Suc: "inv s \<Longrightarrow> Suc n \<le> limit s \<Longrightarrow> advance (Suc n) s = advance n (step s)"
begin

lemma batch_eq_steps: "inv s \<Longrightarrow> n \<le> limit s \<Longrightarrow> advance n s = (step ^^ n) s"
proof (induction n arbitrary: s)
  case 0
  then show ?case by (simp add: advance_0)
next
  case (Suc n)
  then have "0 < limit s" by simp
  with Suc.prems have "inv (step s)" and "n \<le> limit (step s)"
    using inv_step [of s] limit_step [of s] by simp_all
  then have "advance n (step s) = (step ^^ n) (step s)" by (rule Suc.IH)
  with Suc.prems show ?case by (simp only: advance_Suc funpow_Suc_front)
qed

lemma steps_inv: "inv s \<Longrightarrow> n \<le> limit s \<Longrightarrow> inv ((step ^^ n) s) \<and> limit s \<le> n + limit ((step ^^ n) s)"
proof (induction n arbitrary: s)
  case (Suc n)
  then have pos: "0 < limit s" by simp
  with Suc.prems have "inv (step s)" "n \<le> limit (step s)" and le: "limit s \<le> Suc (limit (step s))"
    using inv_step [of s] limit_step [of s] by simp_all
  with Suc.IH [of "step s"] show ?case by (simp add: funpow_Suc_front del: funpow.simps)
qed simp

lemma batch_split:
  assumes "inv s" and "m + n \<le> limit s"
  shows "advance (m + n) s = advance n (advance m s)"
proof -
  from assms have m: "advance m s = (step ^^ m) s" by (simp add: batch_eq_steps)
  from assms steps_inv [of s m] have "inv ((step ^^ m) s)" "n \<le> limit ((step ^^ m) s)"
    by auto
  then have "advance n ((step ^^ m) s) = (step ^^ n) ((step ^^ m) s)" by (rule batch_eq_steps)
  with assms m show ?thesis by (simp add: batch_eq_steps add.commute [of m n] funpow_add_apply)
qed

end

end
