(* ===== verification/Scc_Periph.thy ===== *)
theory Scc_Periph
  imports Cdi_Irq Quiet_Device
begin

unbundle bit_operations_syntax

text \<open>
  SCC68070 on-chip peripherals (\<^verbatim>\<open>runner/src/periph.c\<close>): the register block at \<open>$80001001\<close>, the
  16-bit timers with their prescaler, the UART command port, write-one-to-clear status registers, and
  the batched quiet update of the timers. The byte array is indexed by bus address, as \<open>reg_ptr\<close> does.
\<close>

section \<open>Registers\<close>

abbreviation (input) "PERIPHERAL_BASE \<equiv> 0x80001001 :: u32"
abbreviation (input) "PERIPHERAL_LAST \<equiv> 0x80008080 :: u32"
abbreviation (input) "REG_LIR \<equiv> 0x80001001 :: u32"
abbreviation (input) "REG_USR \<equiv> 0x80002013 :: u32"
abbreviation (input) "REG_UCR \<equiv> 0x80002017 :: u32"
abbreviation (input) "REG_UTHR \<equiv> 0x80002019 :: u32"
abbreviation (input) "REG_URHR \<equiv> 0x8000201B :: u32"
abbreviation (input) "REG_TSR \<equiv> 0x80002020 :: u32"
abbreviation (input) "REG_TCR \<equiv> 0x80002021 :: u32"
abbreviation (input) "REG_RRH \<equiv> 0x80002022 :: u32"
abbreviation (input) "REG_T0H \<equiv> 0x80002024 :: u32"
abbreviation (input) "REG_T1H \<equiv> 0x80002026 :: u32"
abbreviation (input) "REG_T2H \<equiv> 0x80002028 :: u32"
abbreviation (input) "REG_PICR1 \<equiv> 0x80002045 :: u32"
abbreviation (input) "REG_DMA1_CSR \<equiv> 0x80004000 :: u32"
abbreviation (input) "REG_DMA1_CER \<equiv> 0x80004001 :: u32"
abbreviation (input) "REG_DMA1_CCR \<equiv> 0x80004007 :: u32"
abbreviation (input) "REG_DMA1_MTC \<equiv> 0x8000400A :: u32"
abbreviation (input) "REG_DMA1_MAR \<equiv> 0x8000400C :: u32"
abbreviation (input) "REG_DMA2_CSR \<equiv> 0x80004040 :: u32"
abbreviation (input) "REG_MSR \<equiv> 0x80008000 :: u32"
abbreviation (input) "UART_RX_READY \<equiv> 0x01 :: u8"
abbreviation (input) "UART_TX_READY \<equiv> 0x04 :: u8"
abbreviation (input) "UART_TX_EMPTY \<equiv> 0x08 :: u8"

record SccPeripherals =
  bytes :: "u32 \<Rightarrow> u8"
  timer_prescale_cycles :: u32

definition mapped :: "u32 \<Rightarrow> bool" where
  "mapped address \<longleftrightarrow> address \<ge> PERIPHERAL_BASE \<and> address \<le> PERIPHERAL_LAST"

definition set_byte :: "u32 \<Rightarrow> u8 \<Rightarrow> SccPeripherals \<Rightarrow> SccPeripherals" where
  "set_byte a v p = p\<lparr>bytes := (bytes p)(a := v)\<rparr>"

definition load_counter :: "SccPeripherals \<Rightarrow> u32 \<Rightarrow> u16" where
  "load_counter p high_address = be16 (bytes p high_address) (bytes p (high_address + 1))"

definition store_counter :: "u32 \<Rightarrow> u16 \<Rightarrow> SccPeripherals \<Rightarrow> SccPeripherals" where
  "store_counter high_address v p =
     set_byte (high_address + 1) (ucast v) (set_byte high_address (ucast (drop_bit 8 v)) p)"

definition load_long :: "SccPeripherals \<Rightarrow> u32 \<Rightarrow> u32" where
  "load_long p a = be32 (bytes p a) (bytes p (a + 1)) (bytes p (a + 2)) (bytes p (a + 3))"

definition store_long :: "u32 \<Rightarrow> u32 \<Rightarrow> SccPeripherals \<Rightarrow> SccPeripherals" where
  "store_long a v p =
     set_byte (a + 3) (ucast v) (set_byte (a + 2) (ucast (drop_bit 8 v))
       (set_byte (a + 1) (ucast (drop_bit 16 v)) (set_byte a (ucast (drop_bit 24 v)) p)))"

definition periph_reset :: SccPeripherals where
  "periph_reset = set_byte REG_USR UART_TX_READY \<lparr>bytes = (\<lambda>_. 0), timer_prescale_cycles = 0\<rparr>"

definition periph_lir :: "SccPeripherals \<Rightarrow> u8" where
  "periph_lir p = bytes p REG_LIR"

section \<open>Timers\<close>

definition request_timer_interrupt :: "SccPeripherals \<Rightarrow> irq \<Rightarrow> irq" where
  "request_timer_interrupt p i =
     (let priority = bytes p REG_PICR1 AND 7
      in if priority \<noteq> 0 then cdi_irq_raise_onchip_level priority i else i)"

definition or_status :: "u8 \<Rightarrow> SccPeripherals \<Rightarrow> SccPeripherals" where
  "or_status m p = set_byte REG_TSR (bytes p REG_TSR OR m) p"

definition and_status :: "u8 \<Rightarrow> SccPeripherals \<Rightarrow> SccPeripherals" where
  "and_status m p = set_byte REG_TSR (bytes p REG_TSR AND m) p"

definition clock_timer0 :: "SccPeripherals \<times> irq \<Rightarrow> SccPeripherals \<times> irq" where
  "clock_timer0 = (\<lambda>(p, i).
     let timer0 = load_counter p REG_T0H in
     if timer0 = 0xFFFF then
       let p1 = or_status 0x80 p
       in (store_counter REG_T0H (load_counter p REG_RRH) p1, request_timer_interrupt p1 i)
     else (store_counter REG_T0H (timer0 + 1) p, i))"

text \<open>Timers 1 and 2 run the same code on different control, status and counter fields.\<close>

definition clock_timer1 :: "u16 \<Rightarrow> SccPeripherals \<times> irq \<Rightarrow> SccPeripherals \<times> irq" where
  "clock_timer1 timer0 = (\<lambda>(p, i).
     let control = bytes p REG_TCR in
     if control AND 0x30 \<noteq> 0 then
       let timer1 = load_counter p REG_T1H;
           (p1, i1) =
             (if timer1 = 0xFFFF then
                let q = or_status 0x10 p in (q, request_timer_interrupt q i)
              else if control AND 0x30 = 0x30 then (and_status (NOT 0x11) p, i)
              else (p, i));
           next1 = timer1 + 1;
           p2 = (if next1 = timer0 then or_status 0x40 p1 else p1)
       in (store_counter REG_T1H next1 p2, i1)
     else (p, i))"

definition clock_timer2 :: "u16 \<Rightarrow> SccPeripherals \<times> irq \<Rightarrow> SccPeripherals \<times> irq" where
  "clock_timer2 timer0 = (\<lambda>(p, i).
     let control = bytes p REG_TCR in
     if control AND 0x03 \<noteq> 0 then
       let timer2 = load_counter p REG_T2H;
           (p1, i1) =
             (if timer2 = 0xFFFF then
                let q = or_status 0x02 p in (q, request_timer_interrupt q i)
              else if control AND 0x03 = 0x03 then (and_status (NOT 0x03) p, i)
              else (p, i));
           next2 = timer2 + 1;
           p2 = (if next2 = timer0 then or_status 0x08 p1 else p1)
       in (store_counter REG_T2H next2 p2, i1)
     else (p, i))"

definition clock_timer_once :: "SccPeripherals \<times> irq \<Rightarrow> SccPeripherals \<times> irq" where
  "clock_timer_once s =
     (let s0 = clock_timer0 s;
          timer0 = load_counter (fst s0) REG_T0H
      in clock_timer2 timer0 (clock_timer1 timer0 s0))"

definition periph_increment_timer :: "u32 \<Rightarrow> SccPeripherals \<times> irq \<Rightarrow> SccPeripherals \<times> irq" where
  "periph_increment_timer cycles = (\<lambda>(p, i).
     let accumulated = (ucast (timer_prescale_cycles p) :: u64) + ucast cycles;
         ticks = (ucast (accumulated div 96) :: u32)
     in (clock_timer_once ^^ unat ticks) (p\<lparr>timer_prescale_cycles := ucast (accumulated mod 96)\<rparr>, i))"

definition periph_quiet_quanta :: "u32 \<Rightarrow> SccPeripherals \<Rightarrow> u32" where
  "periph_quiet_quanta maximum p =
     (let control = bytes p REG_TCR;
          left = (\<lambda>r. 65536 - (ucast (load_counter p r) :: u32));
          ticks0 = left REG_T0H;
          ticks1 = (if control AND 0x30 \<noteq> 0 \<and> left REG_T1H < ticks0 then left REG_T1H else ticks0);
          ticks = (if control AND 0x03 \<noteq> 0 \<and> left REG_T2H < ticks1 then left REG_T2H else ticks1);
          cycles = ticks * 96 - timer_prescale_cycles p;
          quiet = (cycles - 1) div 25
      in if quiet < maximum then quiet else maximum)"

definition advance_timer1 :: "u32 \<Rightarrow> u16 \<Rightarrow> SccPeripherals \<Rightarrow> SccPeripherals" where
  "advance_timer1 ticks timer0 p =
     (let control = bytes p REG_TCR in
      if control AND 0x30 \<noteq> 0 then
        let timer1 = load_counter p REG_T1H + ucast ticks;
            p1 = (if control AND 0x30 = 0x30 then and_status (NOT 0x11) p else p);
            p2 = (if timer1 = timer0 then or_status 0x40 p1 else p1)
        in store_counter REG_T1H timer1 p2
      else p)"

definition advance_timer2 :: "u32 \<Rightarrow> u16 \<Rightarrow> SccPeripherals \<Rightarrow> SccPeripherals" where
  "advance_timer2 ticks timer0 p =
     (let control = bytes p REG_TCR in
      if control AND 0x03 \<noteq> 0 then
        let timer2 = load_counter p REG_T2H + ucast ticks;
            p1 = (if control AND 0x03 = 0x03 then and_status (NOT 0x03) p else p);
            p2 = (if timer2 = timer0 then or_status 0x08 p1 else p1)
        in store_counter REG_T2H timer2 p2
      else p)"

definition periph_advance_quiet :: "u32 \<Rightarrow> SccPeripherals \<Rightarrow> SccPeripherals" where
  "periph_advance_quiet cycles p =
     (let accumulated = timer_prescale_cycles p + cycles;
          ticks = accumulated div 96;
          p0 = p\<lparr>timer_prescale_cycles := accumulated mod 96\<rparr>
      in if ticks = 0 then p0
         else
           let timer0 = load_counter p0 REG_T0H + ucast ticks;
               p1 = store_counter REG_T0H timer0 p0
           in advance_timer2 ticks timer0 (advance_timer1 ticks timer0 p1))"

section \<open>Register access\<close>

definition read_register :: "u32 \<Rightarrow> SccPeripherals \<Rightarrow> u8 \<times> SccPeripherals" where
  "read_register address p =
     (if \<not> mapped address then (0, p)
      else
        let p1 = (if address = REG_URHR
                  then set_byte REG_USR (bytes p REG_USR AND NOT UART_RX_READY) (set_byte REG_URHR 0 p)
                  else p)
        in (bytes p1 address, p1))"

definition write_uart_command :: "u8 \<Rightarrow> SccPeripherals \<Rightarrow> SccPeripherals" where
  "write_uart_command command p =
     (let op = command AND 0x70;
          p1 = (if op = 0x20 then
                  set_byte REG_USR (bytes p REG_USR AND NOT UART_RX_READY) (set_byte REG_URHR 0 p)
                else if op = 0x30 then
                  set_byte REG_USR (bytes p REG_USR OR (UART_TX_READY OR UART_TX_EMPTY))
                    (set_byte REG_UTHR 0 p)
                else if op = 0x40 then set_byte REG_USR (bytes p REG_USR AND 0x0F) p
                else p)
      in set_byte REG_UCR command p1)"

definition write_register :: "u32 \<Rightarrow> u8 \<Rightarrow> SccPeripherals \<Rightarrow> SccPeripherals" where
  "write_register address v p =
     (if \<not> mapped address then p
      else if address = REG_LIR then set_byte address (v AND 0x77) p
      else if address = REG_UCR then write_uart_command v p
      else if address = REG_UTHR then
        let p1 = set_byte address v p in set_byte REG_USR (bytes p1 REG_USR OR UART_TX_EMPTY) p1
      else if address = REG_TSR then set_byte address (bytes p address AND NOT v) p
      else if address = REG_DMA1_CSR \<or> address = REG_DMA2_CSR
      then set_byte address (bytes p address AND NOT v) p
      else if address = REG_MSR then p
      else set_byte address v p)"

text \<open>The byte loops of \<open>periph_read\<close> and \<open>periph_write\<close>, most significant byte first.\<close>

fun periph_read_from :: "u32 \<Rightarrow> nat \<Rightarrow> u32 \<Rightarrow> SccPeripherals \<Rightarrow> u32 \<times> SccPeripherals" where
  "periph_read_from address 0 result p = (result, p)"
| "periph_read_from address (Suc n) result p =
     (let (v, p1) = read_register address p
      in periph_read_from (address + 1) n (push_bit 8 result OR ucast v) p1)"

definition periph_read :: "u32 \<Rightarrow> nat \<Rightarrow> SccPeripherals \<Rightarrow> u32 \<times> SccPeripherals" where
  "periph_read address sz p = periph_read_from address sz 0 p"

fun periph_write_from :: "u32 \<Rightarrow> u32 \<Rightarrow> nat \<Rightarrow> SccPeripherals \<Rightarrow> SccPeripherals" where
  "periph_write_from address v 0 p = p"
| "periph_write_from address v (Suc n) p =
     periph_write_from (address + 1) v n (write_register address (ucast (drop_bit (8 * n) v)) p)"

definition periph_write :: "u32 \<Rightarrow> u32 \<Rightarrow> nat \<Rightarrow> SccPeripherals \<Rightarrow> SccPeripherals" where
  "periph_write address v sz p = periph_write_from address v sz p"

section \<open>Register laws\<close>

lemma periph_eq_iff:
  "(p :: SccPeripherals) = q \<longleftrightarrow> bytes p = bytes q \<and> timer_prescale_cycles p = timer_prescale_cycles q"
  by (cases p; cases q) simp

lemma set_byte_sel [reg_simps]:
  "bytes (set_byte a v p) = (bytes p)(a := v)"
  "timer_prescale_cycles (set_byte a v p) = timer_prescale_cycles p"
  by (simp_all add: set_byte_def)

lemma load_store_counter: "load_counter (store_counter r v p) r = v"
  by (simp add: load_counter_def store_counter_def reg_simps)

lemma load_store_long: "load_long (store_long a v p) a = v"
proof -
  have "a + 1 \<noteq> a" "a + 2 \<noteq> a" "a + 3 \<noteq> a" "a + 2 \<noteq> a + 1" "a + 3 \<noteq> a + 1" "a + 3 \<noteq> a + 2"
    by simp_all
  then show ?thesis by (simp add: load_long_def store_long_def reg_simps)
qed

definition plain_register :: "u32 \<Rightarrow> bool" where
  "plain_register a \<longleftrightarrow> mapped a \<and> a \<notin> {REG_LIR, REG_UCR, REG_UTHR, REG_URHR, REG_TSR, REG_DMA1_CSR, REG_DMA2_CSR, REG_MSR}"

lemma write_plain: "plain_register a \<Longrightarrow> write_register a v p = set_byte a v p"
  by (auto simp: plain_register_def write_register_def)

lemma read_plain: "plain_register a \<Longrightarrow> read_register a p = (bytes p a, p)"
  by (auto simp: plain_register_def read_register_def)





end
