(* ===== verification/Scc_Timer_Laws.thy ===== *)
theory Scc_Timer_Laws
  imports Scc_Periph
begin

unbundle bit_operations_syntax

text \<open>
  Laws of the SCC68070 timers: clocking is additive in the cycle count, and the batched quiet update used
  by the board's idle job equals the quantum-by-quantum one. \<open>quiet_ticks\<close> is the effect of ticks in which no
  counter overflows, \<open>ticks_left\<close> the distance to the first overflow; the interpretation \<open>periph_quiet\<close>
  discharges the contract of \<open>quiet_device\<close> for \<^verbatim>\<open>periph.c\<close>.
\<close>

section \<open>Quiet ticks\<close>

definition status1 :: "u8 \<Rightarrow> bool \<Rightarrow> u8 \<Rightarrow> u8" where
  "status1 c e st = (st AND (if c AND 0x30 = 0x30 then NOT 0x11 else -1)) OR
                    (if c AND 0x30 \<noteq> 0 \<and> e then 0x40 else 0)"

definition status2 :: "u8 \<Rightarrow> bool \<Rightarrow> u8 \<Rightarrow> u8" where
  "status2 c e st = (st AND (if c AND 0x03 = 0x03 then NOT 0x03 else -1)) OR
                    (if c AND 0x03 \<noteq> 0 \<and> e then 0x08 else 0)"

lemma mask_update_twice:
  assumes "s1 AND m2 = s1" and "s2 AND m1 = s2"
  shows "((((((st :: u8) AND m1 OR s1) AND m2 OR s2) AND m1) OR s1) AND m2) OR s2
       = ((st AND m1 OR s1) AND m2) OR s2"
  by (rule bit_word_eqI) (use assms in \<open>auto simp: bit_eq_iff bit_simps\<close>)

lemma status_twice:
  "status2 c e2 (status1 c e1 (status2 c e2 (status1 c e1 st))) = status2 c e2 (status1 c e1 st)"
  unfolding status1_def status2_def by (rule mask_update_twice) auto

definition count_on :: "bool \<Rightarrow> u16 \<Rightarrow> u16 \<Rightarrow> u16" where
  "count_on enabled k t = (if enabled then t + k else t)"

lemma count_on_add: "count_on e a (count_on e b t) = count_on e (b + a) t"
  by (simp add: count_on_def)

lemma be16_bytes: "ucast (drop_bit 8 (load_counter p a)) = bytes p a" "ucast (load_counter p a) = bytes p (a+1)"
  by (simp_all add: load_counter_def)

lemma advance_timer1_bytes:
  "bytes (advance_timer1 k t0 p) =
     (let t1 = count_on (bytes p REG_TCR AND 0x30 \<noteq> 0) (ucast k) (load_counter p REG_T1H) in
      (bytes p)(REG_TSR := status1 (bytes p REG_TCR) (t1 = t0) (bytes p REG_TSR),
                REG_T1H := ucast (drop_bit 8 t1), REG_T1H + 1 := ucast t1))"
  by (auto simp: advance_timer1_def status1_def count_on_def Let_def or_status_def and_status_def store_counter_def reg_simps be16_bytes load_counter_def)

lemma advance_timer2_bytes:
  "bytes (advance_timer2 k t0 p) =
     (let t2 = count_on (bytes p REG_TCR AND 0x03 \<noteq> 0) (ucast k) (load_counter p REG_T2H) in
      (bytes p)(REG_TSR := status2 (bytes p REG_TCR) (t2 = t0) (bytes p REG_TSR),
                REG_T2H := ucast (drop_bit 8 t2), REG_T2H + 1 := ucast t2))"
  by (auto simp: advance_timer2_def status2_def count_on_def Let_def or_status_def and_status_def store_counter_def reg_simps be16_bytes load_counter_def)

lemma clock_timer1_quiet:
  "(bytes p REG_TCR AND 0x30 \<noteq> 0 \<Longrightarrow> load_counter p REG_T1H \<noteq> 0xFFFF) \<Longrightarrow>
     clock_timer1 t0 (p, i) = (advance_timer1 1 t0 p, i)"
  by (simp add: clock_timer1_def advance_timer1_def Let_def)

lemma clock_timer2_quiet:
  "(bytes p REG_TCR AND 0x03 \<noteq> 0 \<Longrightarrow> load_counter p REG_T2H \<noteq> 0xFFFF) \<Longrightarrow>
     clock_timer2 t0 (p, i) = (advance_timer2 1 t0 p, i)"
  by (simp add: clock_timer2_def advance_timer2_def Let_def)


definition quiet_ticks :: "u32 \<Rightarrow> SccPeripherals \<Rightarrow> SccPeripherals" where
  "quiet_ticks k p =
     (let timer0 = load_counter p REG_T0H + ucast k
      in advance_timer2 k timer0 (advance_timer1 k timer0 (store_counter REG_T0H timer0 p)))"

lemma advance_timer_prescale [reg_simps]:
  "timer_prescale_cycles (advance_timer1 k t0 p) = timer_prescale_cycles p"
  "timer_prescale_cycles (advance_timer2 k t0 p) = timer_prescale_cycles p"
  "timer_prescale_cycles (store_counter r v p) = timer_prescale_cycles p"
  by (simp_all add: advance_timer1_def advance_timer2_def or_status_def and_status_def
      store_counter_def reg_simps Let_def)

text \<open>Enabled counters move in lock step with timer 0, so equality with it is decided by the start state.\<close>

lemma quiet_ticks_bytes:
  "bytes (quiet_ticks k p) =
     (let c = bytes p REG_TCR; k' = ucast k;
          t0 = load_counter p REG_T0H; t1 = load_counter p REG_T1H; t2 = load_counter p REG_T2H;
          n1 = count_on (c AND 0x30 \<noteq> 0) k' t1; n2 = count_on (c AND 0x03 \<noteq> 0) k' t2
      in (bytes p)(REG_TSR := status2 c (t2 = t0) (status1 c (t1 = t0) (bytes p REG_TSR)),
           REG_T0H := ucast (drop_bit 8 (t0 + k')), REG_T0H + 1 := ucast (t0 + k'),
           REG_T1H := ucast (drop_bit 8 n1), REG_T1H + 1 := ucast n1,
           REG_T2H := ucast (drop_bit 8 n2), REG_T2H + 1 := ucast n2))"
proof -
  have e1: "status1 c (count_on (c AND 0x30 \<noteq> 0) k t1 = t0 + k) s = status1 c (t1 = t0) s"
    for c k t1 t0 s by (simp add: status1_def count_on_def)
  have e2: "status2 c (count_on (c AND 0x03 \<noteq> 0) k t1 = t0 + k) s = status2 c (t1 = t0) s"
    for c k t1 t0 s by (simp add: status2_def count_on_def)
  show ?thesis
    by (simp add: quiet_ticks_def Let_def advance_timer1_bytes advance_timer2_bytes store_counter_def
        reg_simps load_counter_def e1 e2 fun_eq_iff)
qed

lemma quiet_ticks_reads:
  "bytes (quiet_ticks k p) REG_TCR = bytes p REG_TCR"
  "bytes (quiet_ticks k p) REG_TSR =
     status2 (bytes p REG_TCR) (load_counter p REG_T2H = load_counter p REG_T0H)
      (status1 (bytes p REG_TCR) (load_counter p REG_T1H = load_counter p REG_T0H) (bytes p REG_TSR))"
  "load_counter (quiet_ticks k p) REG_T0H = load_counter p REG_T0H + ucast k"
  "load_counter (quiet_ticks k p) REG_T1H =
     count_on (bytes p REG_TCR AND 0x30 \<noteq> 0) (ucast k) (load_counter p REG_T1H)"
  "load_counter (quiet_ticks k p) REG_T2H =
     count_on (bytes p REG_TCR AND 0x03 \<noteq> 0) (ucast k) (load_counter p REG_T2H)"
  "timer_prescale_cycles (quiet_ticks k p) = timer_prescale_cycles p"
  by (simp_all add: quiet_ticks_bytes Let_def load_counter_def [of "quiet_ticks k p"])
    (simp_all add: quiet_ticks_def Let_def reg_simps)

lemma quiet_ticks_add: "quiet_ticks b (quiet_ticks a p) = quiet_ticks (a + b) p"
proof -
  let ?q = "quiet_ticks a p"
  have sel1: "status1 (bytes p REG_TCR) (count_on (bytes p REG_TCR AND 0x30 \<noteq> 0) k t1 = t0 + k) s
      = status1 (bytes p REG_TCR) (t1 = t0) s" for k t1 t0 s
    by (simp add: status1_def count_on_def)
  have sel2: "status2 (bytes p REG_TCR) (count_on (bytes p REG_TCR AND 0x03 \<noteq> 0) k t1 = t0 + k) s
      = status2 (bytes p REG_TCR) (t1 = t0) s" for k t1 t0 s
    by (simp add: status2_def count_on_def)
  have uc: "(ucast (a + b) :: u16) = ucast a + ucast b" by (rule ucast_add_down) simp
  have "bytes (quiet_ticks b ?q) = bytes (quiet_ticks (a + b) p)"
    by (simp add: quiet_ticks_bytes [of b ?q] Let_def quiet_ticks_reads sel1 sel2 status_twice count_on_add)
      (simp add: quiet_ticks_bytes Let_def uc add.assoc fun_eq_iff)
  then show ?thesis by (simp add: periph_eq_iff quiet_ticks_reads)
qed

lemma quiet_ticks_prescale: "quiet_ticks k (p\<lparr>timer_prescale_cycles := x\<rparr>) = (quiet_ticks k p)\<lparr>timer_prescale_cycles := x\<rparr>"
  by (simp add: periph_eq_iff quiet_ticks_bytes quiet_ticks_reads Let_def load_counter_def)

lemma advance_quiet_alt:
  "periph_advance_quiet cycles p =
     (let acc = timer_prescale_cycles p + cycles;
          q = (if acc div 96 = 0 then p else quiet_ticks (acc div 96) p)
      in q\<lparr>timer_prescale_cycles := acc mod 96\<rparr>)"
  by (simp add: periph_advance_quiet_def quiet_ticks_prescale [symmetric] Let_def)
    (simp add: quiet_ticks_def Let_def)

lemma unat_numeral_96: "unat (96 :: u32) = 96" by simp

lemma split_div_mod:
  assumes "unat (x :: u32) + unat a + unat b < 2 ^ 32"
  shows "(x + a) div 96 + ((x + a) mod 96 + b) div 96 = (x + (a + b)) div 96"
    and "((x + a) mod 96 + b) mod 96 = (x + (a + b)) mod 96"
proof -
  have s: "unat (x + a) = unat x + unat a" "unat (x + (a + b)) = unat x + unat a + unat b"
    using assms by (simp_all add: unat_word_ariths)
  let ?y = "unat x + unat a"
  have m: "unat ((x + a) mod 96) = ?y mod 96" by (simp add: unat_mod s)
  have le: "?y mod 96 + unat b < 2 ^ 32"
    using assms by (metis add.commute add_le_cancel_left le_less_trans mod_less_eq_dividend)
  have m2: "unat ((x + a) mod 96 + b) = ?y mod 96 + unat b"
    using le unat_add_no_wrap [of "(x + a) mod 96" b] by (simp add: m)
  have dv: "?y div 96 + (?y mod 96 + unat b) div 96 = (?y + unat b) div 96"
  proof -
    have "?y + unat b = (?y mod 96 + unat b) + 96 * (?y div 96)" by simp
    then show ?thesis by (metis add.commute div_mult_self2 zero_neq_numeral)
  qed
  have "?y div 96 + (?y mod 96 + unat b) div 96 < 2 ^ LENGTH(32)" using assms unfolding dv by simp
  then have "unat ((x + a) div 96 + ((x + a) mod 96 + b) div 96) = ?y div 96 + (?y mod 96 + unat b) div 96"
    by (subst unat_add_no_wrap) (simp_all only: unat_div m2 s unat_numeral_96)
  then show "(x + a) div 96 + ((x + a) mod 96 + b) div 96 = (x + (a + b)) div 96"
    by (simp only: word_unat_eq_iff unat_div s(2) dv unat_numeral_96)
  show "((x + a) mod 96 + b) mod 96 = (x + (a + b)) mod 96"
    by (simp add: word_unat_eq_iff unat_mod m2 s mod_simps)
qed

lemma div_96_bound: "unat ((w :: u32) div 96) \<le> 44739242"
  using u32_less [of w] by (simp add: unat_div)

lemma advance_quiet_add:
  assumes "unat (timer_prescale_cycles p) + unat a + unat b < 2 ^ 32"
  shows "periph_advance_quiet b (periph_advance_quiet a p) = periph_advance_quiet (a + b) p"
proof -
  let ?x = "timer_prescale_cycles p"
  define u v w m where "u = (?x + a) div 96" and "v = ((?x + a) mod 96 + b) div 96"
    and "w = (?x + (a + b)) div 96" and "m = (?x + (a + b)) mod 96"
  note dm = split_div_mod [OF assms, folded u_def v_def w_def m_def]
  have "unat u + unat v < 2 ^ 32"
    using div_96_bound [of "?x + a"] div_96_bound [of "(?x + a) mod 96 + b"] by (simp add: u_def v_def)
  then have zz: "w = 0 \<longleftrightarrow> u = 0 \<and> v = 0" using add_eq_0_no_wrap [of u v] dm(1) by simp
  have "periph_advance_quiet a p =
      (if u = 0 then p else quiet_ticks u p)\<lparr>timer_prescale_cycles := (?x + a) mod 96\<rparr>"
    by (simp add: advance_quiet_alt Let_def u_def)
  then have "periph_advance_quiet b (periph_advance_quiet a p) =
      (let q = (if u = 0 then p else quiet_ticks u p)
       in if v = 0 then q else quiet_ticks v q)\<lparr>timer_prescale_cycles := m\<rparr>"
    by (simp add: advance_quiet_alt [of b] Let_def dm(2) v_def [symmetric] quiet_ticks_prescale)
  also have "\<dots> = (if w = 0 then p else quiet_ticks w p)\<lparr>timer_prescale_cycles := m\<rparr>"
    using zz dm(1) by (auto simp: Let_def quiet_ticks_add)
  also have "\<dots> = periph_advance_quiet (a + b) p"
    by (simp add: advance_quiet_alt Let_def w_def m_def)
  finally show ?thesis .
qed

definition ticks_left :: "SccPeripherals \<Rightarrow> nat" where
  "ticks_left p =
     (let c = bytes p REG_TCR; left = (\<lambda>r. 65536 - unat (load_counter p r));
          t = (if c AND 0x30 \<noteq> 0 then min (left REG_T0H) (left REG_T1H) else left REG_T0H)
      in if c AND 0x03 \<noteq> 0 then min t (left REG_T2H) else t)"

definition periph_inv :: "SccPeripherals \<Rightarrow> bool" where
  "periph_inv p \<longleftrightarrow> timer_prescale_cycles p < 96"

definition quiet_cycles :: "SccPeripherals \<Rightarrow> nat" where
  "quiet_cycles p = ticks_left p * 96 - unat (timer_prescale_cycles p)"

lemma ticks_left_bounds: "1 \<le> ticks_left p" "ticks_left p \<le> 65536"
proof -
  have "1 \<le> 65536 - unat (w :: u16)" for w using u16_less [of w] by (simp add: Suc_le_eq)
  then show "1 \<le> ticks_left p" by (simp add: ticks_left_def Let_def)
  show "ticks_left p \<le> 65536"
    by (auto simp: ticks_left_def Let_def min_def intro: order_trans [OF _ diff_le_self])
qed

lemma unat_left: "unat (65536 - ucast (w :: u16) :: u32) = 65536 - unat w"
proof -
  have u: "unat (ucast w :: u32) = unat w"
    using u16_less [of w] by (simp add: unsigned_ucast_eq take_bit_nat_eq_self)
  show ?thesis using u16_less [of w] by (subst unat_sub) (simp_all add: word_le_nat_alt u)
qed

lemma quiet_quanta_unat:
  assumes "periph_inv p"
  shows "unat (periph_quiet_quanta m p) = min ((quiet_cycles p - 1) div 25) (unat m)"
proof -
  let ?l = "\<lambda>r. 65536 - (ucast (load_counter p r) :: u32)"
  define ticks1 where "ticks1 = (if bytes p REG_TCR AND 0x30 \<noteq> 0 \<and> ?l REG_T1H < ?l REG_T0H then ?l REG_T1H else ?l REG_T0H)"
  define ticks where "ticks = (if bytes p REG_TCR AND 0x03 \<noteq> 0 \<and> ?l REG_T2H < ticks1 then ?l REG_T2H else ticks1)"
  have t: "unat ticks = ticks_left p"
    by (auto simp: ticks_def ticks1_def ticks_left_def Let_def unat_left word_less_nat_alt min_def)
  have pre: "unat (timer_prescale_cycles p) < 96"
    using assms by (simp add: periph_inv_def word_less_nat_alt)
  have "unat (ticks * 96) = ticks_left p * 96"
    using ticks_left_bounds [of p] by (simp add: unat_word_ariths t)
  then have "unat (ticks * 96 - timer_prescale_cycles p) = quiet_cycles p"
    using pre ticks_left_bounds [of p]
    by (subst unat_sub) (simp_all add: word_le_nat_alt quiet_cycles_def)
  moreover have "0 < quiet_cycles p" "quiet_cycles p < 2 ^ 32"
    using pre ticks_left_bounds [of p] by (simp_all add: quiet_cycles_def)
  ultimately have q: "unat ((ticks * 96 - timer_prescale_cycles p - 1) div 25) = (quiet_cycles p - 1) div 25"
    by (simp add: unat_div unat_sub word_le_nat_alt)
  have "periph_quiet_quanta m p =
      (if (ticks * 96 - timer_prescale_cycles p - 1) div 25 < m
       then (ticks * 96 - timer_prescale_cycles p - 1) div 25 else m)"
    by (simp add: periph_quiet_quanta_def ticks_def ticks1_def Let_def)
  then show ?thesis using q by (simp add: word_less_nat_alt min_def)
qed

lemma ticks_left_quiet:
  assumes "2 \<le> ticks_left p"
  shows "load_counter p REG_T0H \<noteq> 0xFFFF"
    and "bytes p REG_TCR AND 0x30 \<noteq> 0 \<Longrightarrow> load_counter p REG_T1H \<noteq> 0xFFFF"
    and "bytes p REG_TCR AND 0x03 \<noteq> 0 \<Longrightarrow> load_counter p REG_T2H \<noteq> 0xFFFF"
  using assms by (auto simp: ticks_left_def Let_def split: if_splits)

lemma clock_timer_once_quiet:
  assumes "2 \<le> ticks_left p"
  shows "clock_timer_once (p, i) = (quiet_ticks 1 p, i)"
proof -
  let ?t = "load_counter p REG_T0H + 1"
  let ?p0 = "store_counter REG_T0H ?t p"
  note q = ticks_left_quiet [OF assms]
  have c0: "clock_timer0 (p, i) = (?p0, i)" using q(1) by (simp add: clock_timer0_def Let_def)
  have same: "bytes ?p0 REG_TCR = bytes p REG_TCR" "load_counter ?p0 REG_T1H = load_counter p REG_T1H"
    "load_counter ?p0 REG_T2H = load_counter p REG_T2H"
    by (simp_all add: store_counter_def load_counter_def reg_simps)
  let ?p1 = "advance_timer1 1 ?t ?p0"
  have same1: "bytes ?p1 REG_TCR = bytes p REG_TCR" "load_counter ?p1 REG_T2H = load_counter p REG_T2H"
    by (simp_all add: advance_timer1_bytes Let_def load_counter_def [of ?p1] same same(3) [unfolded load_counter_def])
      (simp_all add: load_counter_def store_counter_def reg_simps)
  have "clock_timer1 ?t (?p0, i) = (?p1, i)"
    by (rule clock_timer1_quiet) (use q(2) same in simp)
  moreover have "clock_timer2 ?t (?p1, i) = (advance_timer2 1 ?t ?p1, i)"
    by (rule clock_timer2_quiet) (use q(3) same1 in simp)
  ultimately show ?thesis
    by (simp add: clock_timer_once_def Let_def c0 load_store_counter quiet_ticks_def)
qed

lemma unat_Suc_left: "2 \<le> 65536 - unat (t :: u16) \<Longrightarrow> 65536 - unat (t + 1) = 65536 - unat t - 1"
  by (simp add: unat_word_ariths)

lemma ticks_left_step:
  assumes "2 \<le> ticks_left p"
  shows "ticks_left (quiet_ticks 1 p) = ticks_left p - 1"
proof -
  define L where "L = (\<lambda>r. 65536 - unat (load_counter p r))"
  define e1 e2 where "e1 \<longleftrightarrow> bytes p REG_TCR AND 0x30 \<noteq> 0" and "e2 \<longleftrightarrow> bytes p REG_TCR AND 0x03 \<noteq> 0"
  have t: "ticks_left p = (let t = (if e1 then min (L REG_T0H) (L REG_T1H) else L REG_T0H)
      in if e2 then min t (L REG_T2H) else t)"
    by (simp add: ticks_left_def Let_def L_def e1_def e2_def)
  have ge: "2 \<le> L REG_T0H" "e1 \<Longrightarrow> 2 \<le> L REG_T1H" "e2 \<Longrightarrow> 2 \<le> L REG_T2H"
    using assms unfolding t by (auto simp: Let_def split: if_splits)
  have dec: "65536 - unat (load_counter p r + 1) = L r - 1" if "2 \<le> L r" for r
    using that unfolding L_def by (rule unat_Suc_left)
  have step: "ticks_left (quiet_ticks 1 p) =
      (let t = (if e1 then min (L REG_T0H - 1) (L REG_T1H - 1) else L REG_T0H - 1)
       in if e2 then min t (L REG_T2H - 1) else t)"
    by (simp add: ticks_left_def Let_def quiet_ticks_reads count_on_def dec ge flip: e1_def e2_def)
  show ?thesis unfolding t step using ge by (auto simp: Let_def min_diff)
qed

lemma increment_timer_alt:
  assumes "unat (timer_prescale_cycles p) + unat c < 2 ^ 32"
  shows "periph_increment_timer c (p, i) =
    (let acc = timer_prescale_cycles p + c
     in (clock_timer_once ^^ unat (acc div 96)) (p\<lparr>timer_prescale_cycles := acc mod 96\<rparr>, i))"
proof -
  let ?x = "timer_prescale_cycles p"
  let ?A = "(ucast ?x :: u64) + ucast c"
  have A: "unat ?A = unat ?x + unat c"
    using assms by (subst unat_add_no_wrap) (simp_all add: unsigned_ucast_eq take_bit_nat_eq_self)
  have s: "unat (?x + c) = unat ?x + unat c" using assms by (simp add: unat_add_no_wrap)
  have "(ucast (?A div 96) :: u32) = (?x + c) div 96"
    using assms by (simp add: word_unat_eq_iff unat_div A s unsigned_ucast_eq take_bit_nat_eq_self)
  moreover have "(ucast (?A mod 96) :: u32) = (?x + c) mod 96"
    by (simp add: word_unat_eq_iff unat_mod A s unsigned_ucast_eq take_bit_nat_eq_self)
  ultimately show ?thesis by (simp add: periph_increment_timer_def Let_def)
qed

lemma increment_timer_quiet:
  assumes "periph_inv p" and "26 \<le> quiet_cycles p"
  shows "periph_increment_timer 25 (p, i) = (periph_advance_quiet 25 p, i)"
    and "quiet_cycles (periph_advance_quiet 25 p) = quiet_cycles p - 25"
    and "periph_inv (periph_advance_quiet 25 p)"
proof -
  let ?x = "timer_prescale_cycles p"
  let ?acc = "?x + 25"
  let ?p = "p\<lparr>timer_prescale_cycles := ?acc mod 96\<rparr>"
  have x: "unat ?x < 96" using assms by (simp add: periph_inv_def word_less_nat_alt)
  have acc: "unat ?acc = unat ?x + 25" using x by (simp add: unat_word_ariths)
  have tl: "ticks_left ?p = ticks_left p" by (simp add: ticks_left_def load_counter_def Let_def)
  have tlx: "ticks_left (q\<lparr>timer_prescale_cycles := w\<rparr>) = ticks_left q" for q w
    by (simp add: ticks_left_def load_counter_def Let_def)
  have inc: "periph_increment_timer 25 (p, i) = (clock_timer_once ^^ unat (?acc div 96)) (?p, i)"
    using x by (subst increment_timer_alt) (simp_all add: Let_def)
  consider (low) "unat ?x < 71" | (tick) "71 \<le> unat ?x" by linarith
  then have "periph_increment_timer 25 (p, i) = (periph_advance_quiet 25 p, i) \<and>
    quiet_cycles (periph_advance_quiet 25 p) = quiet_cycles p - 25"
  proof cases
    case low
    then have d: "?acc div 96 = 0" and m: "unat (?acc mod 96) = unat ?x + 25"
      by (simp_all add: word_unat_eq_iff unat_div unat_mod acc)
    have "periph_advance_quiet 25 p = ?p" by (simp add: advance_quiet_alt Let_def d)
    with d m show ?thesis by (simp add: inc quiet_cycles_def tl)
  next
    case tick
    then have d: "?acc div 96 = 1" and m: "unat (?acc mod 96) = unat ?x - 71"
      using x by (simp_all add: word_unat_eq_iff unat_div unat_mod acc le_div_geq le_mod_geq)
    have two: "2 \<le> ticks_left p" using assms(2) tick by (simp add: quiet_cycles_def)
    have adv: "periph_advance_quiet 25 p = quiet_ticks 1 ?p"
      by (simp add: advance_quiet_alt Let_def d quiet_ticks_prescale)
    have "quiet_cycles (quiet_ticks 1 ?p) = quiet_cycles p - 25"
      using two tick x by (simp add: quiet_cycles_def ticks_left_step tl quiet_ticks_reads m)
    with two show ?thesis by (simp add: inc d adv clock_timer_once_quiet tl)
  qed
  then show "periph_increment_timer 25 (p, i) = (periph_advance_quiet 25 p, i)"
    and "quiet_cycles (periph_advance_quiet 25 p) = quiet_cycles p - 25" by simp_all
  show "periph_inv (periph_advance_quiet 25 p)"
    by (simp add: periph_inv_def advance_quiet_alt Let_def word_less_nat_alt unat_mod)
qed

lemma quiet_limit_pos:
  assumes "periph_inv p" and "0 < unat (periph_quiet_quanta m p)"
  shows "26 \<le> quiet_cycles p"
  using assms by (auto simp: quiet_quanta_unat min_def split: if_splits)

lemma quiet_cycles_bound: "quiet_cycles p \<le> 6291456"
  using ticks_left_bounds [of p] by (simp add: quiet_cycles_def)

interpretation periph_quiet: quiet_device
  "\<lambda>(p, _ :: irq). periph_inv p" "periph_increment_timer 25" "\<lambda>(p, _). unat (periph_quiet_quanta m p)"
  "\<lambda>n (p, i). (periph_advance_quiet (of_nat (25 * n)) p, i)"
  for m
proof (unfold_locales, goal_cases)
  case (1 s)
  then show ?case by (auto simp: increment_timer_quiet quiet_limit_pos split: prod.splits)
next
  case (2 s)
  obtain p i where s: "s = (p, i)" by (cases s)
  from 2 s have p: "periph_inv p" "26 \<le> quiet_cycles p" by (auto simp: quiet_limit_pos)
  have "(quiet_cycles p - 1) div 25 = Suc ((quiet_cycles p - 25 - 1) div 25)"
    using p(2) by (subst le_div_geq) simp_all
  with p show ?case by (simp add: s increment_timer_quiet quiet_quanta_unat min_def)
next
  case (3 s)
  then show ?case
    by (auto simp: periph_inv_def periph_advance_quiet_def Let_def word_less_nat_alt word_unat_eq_iff
        unat_div unat_mod periph_eq_iff split: prod.splits)
next
  case (4 s n)
  obtain p i where s: "s = (p, i)" by (cases s)
  from 4 s have p: "periph_inv p" "26 \<le> quiet_cycles p" by (auto intro: quiet_limit_pos [of p m])
  have n: "25 * Suc n \<le> 6291456"
    using 4 s p quiet_cycles_bound [of p] by (auto simp: quiet_quanta_unat less_eq_div_iff_mult_less_eq)
  have "unat (timer_prescale_cycles p) < 96" using p by (simp add: periph_inv_def word_less_nat_alt)
  moreover have "unat (of_nat (25 * n) :: u32) = 25 * n"
    using n by (subst unat_of_nat) simp
  ultimately have "periph_advance_quiet (of_nat (25 * n)) (periph_advance_quiet 25 p) =
      periph_advance_quiet (25 + of_nat (25 * n)) p"
    using n by (intro advance_quiet_add) simp
  with p show ?case by (simp add: s increment_timer_quiet algebra_simps)
qed

section \<open>Additivity\<close>

abbreviation "with_prescale x \<equiv> apfst (\<lambda>q :: SccPeripherals. q\<lparr>timer_prescale_cycles := x\<rparr>)"

lemma prescale_commutes [reg_simps]:
  "bytes (p\<lparr>timer_prescale_cycles := x\<rparr>) = bytes p"
  "load_counter (p\<lparr>timer_prescale_cycles := x\<rparr>) r = load_counter p r"
  "store_counter r v (p\<lparr>timer_prescale_cycles := x\<rparr>) = (store_counter r v p)\<lparr>timer_prescale_cycles := x\<rparr>"
  "or_status b (p\<lparr>timer_prescale_cycles := x\<rparr>) = (or_status b p)\<lparr>timer_prescale_cycles := x\<rparr>"
  "and_status b (p\<lparr>timer_prescale_cycles := x\<rparr>) = (and_status b p)\<lparr>timer_prescale_cycles := x\<rparr>"
  "request_timer_interrupt (p\<lparr>timer_prescale_cycles := x\<rparr>) i = request_timer_interrupt p i"
  by (simp_all add: load_counter_def store_counter_def or_status_def and_status_def set_byte_def
      request_timer_interrupt_def)

lemma status_prescale [reg_simps]:
  "timer_prescale_cycles (or_status b p) = timer_prescale_cycles p"
  "timer_prescale_cycles (and_status b p) = timer_prescale_cycles p"
  by (simp_all add: or_status_def and_status_def reg_simps)

lemma clock_timer_prescale:
  "clock_timer0 (with_prescale x s) = with_prescale x (clock_timer0 s)"
  "clock_timer1 t (with_prescale x s) = with_prescale x (clock_timer1 t s)"
  "clock_timer2 t (with_prescale x s) = with_prescale x (clock_timer2 t s)"
  by (cases s; simp add: clock_timer0_def clock_timer1_def clock_timer2_def Let_def reg_simps)+

lemma clock_once_prescale: "clock_timer_once (with_prescale x s) = with_prescale x (clock_timer_once s)"
  by (simp add: clock_timer_once_def Let_def clock_timer_prescale reg_simps)

lemma clock_ticks_prescale:
  "(clock_timer_once ^^ n) (with_prescale x s) = with_prescale x ((clock_timer_once ^^ n) s)"
  by (induction n) (simp_all add: clock_once_prescale)

lemma clock_timer_keeps_prescale:
  "timer_prescale_cycles (fst (clock_timer0 s)) = timer_prescale_cycles (fst s)"
  "timer_prescale_cycles (fst (clock_timer1 t s)) = timer_prescale_cycles (fst s)"
  "timer_prescale_cycles (fst (clock_timer2 t s)) = timer_prescale_cycles (fst s)"
  by (cases s; simp add: clock_timer0_def clock_timer1_def clock_timer2_def Let_def reg_simps)+

lemma clock_ticks_keep_prescale:
  "timer_prescale_cycles (fst ((clock_timer_once ^^ n) s)) = timer_prescale_cycles (fst s)"
  by (induction n) (simp_all add: clock_timer_once_def Let_def clock_timer_keeps_prescale)

lemma with_prescale_twice: "with_prescale x (with_prescale y s) = with_prescale x s"
  by (cases s) simp

text \<open>
C6: Clocking the timers by \<open>a\<close> and then by \<open>b\<close> CPU cycles is the same as clocking them once by \<open>a + b\<close>:
counters, status bits, prescaler remainder and raised interrupts do not depend on how the CPU's cycle
budget is chopped into calls.
\<close>
theorem periph_increment_timer_additive:
  assumes "unat (timer_prescale_cycles p) + unat a + unat b < 2 ^ 32"
  shows "periph_increment_timer b (periph_increment_timer a (p, i)) = periph_increment_timer (a + b) (p, i)"
proof -
  let ?x = "timer_prescale_cycles p"
  note dm = split_div_mod [OF assms]
  have nw: "unat a + unat b < 2 ^ 32" "unat ?x + unat a < 2 ^ 32" "unat ?x + unat (a + b) < 2 ^ 32"
    using assms by (simp_all add: unat_add_no_wrap)
  have alt: "periph_increment_timer c s =
      (let acc = timer_prescale_cycles (fst s) + c
       in with_prescale (acc mod 96) ((clock_timer_once ^^ unat (acc div 96)) s))"
    if "unat (timer_prescale_cycles (fst s)) + unat c < 2 ^ 32" for c s
    using that by (cases s) (simp add: Let_def clock_ticks_prescale [symmetric] increment_timer_alt)
  let ?s1 = "periph_increment_timer a (p, i)"
  have s1: "?s1 = with_prescale ((?x + a) mod 96) ((clock_timer_once ^^ unat ((?x + a) div 96)) (p, i))"
    using nw by (simp add: alt Let_def)
  have pre1: "timer_prescale_cycles (fst ?s1) = (?x + a) mod 96" by (simp add: s1)
  have lt: "unat ((?x + a) mod 96) + unat b < 2 ^ 32"
    using assms nw by (simp add: unat_mod unat_add_no_wrap)
  have sum: "unat ((?x + a) div 96) + unat (((?x + a) mod 96 + b) div 96) = unat ((?x + (a + b)) div 96)"
    using div_96_bound [of "?x + a"] div_96_bound [of "(?x + a) mod 96 + b"]
    by (subst dm(1) [symmetric], subst unat_add_no_wrap) simp_all
  have "periph_increment_timer b ?s1 = with_prescale ((?x + (a + b)) mod 96)
      ((clock_timer_once ^^ unat ((?x + (a + b)) div 96)) (p, i))"
    using lt by (simp add: alt pre1 Let_def dm(2) s1 clock_ticks_prescale sum [symmetric]
        add.commute [of "unat ((?x + a) div 96)"] funpow_add_apply with_prescale_twice)
  then show ?thesis using nw by (simp add: alt Let_def)
qed

theorem periph_increment_timer_additive_witness:
  "unat (timer_prescale_cycles periph_reset) + unat (90 :: u32) + unat (200 :: u32) < 2 ^ 32 \<and>
   periph_increment_timer 200 (periph_increment_timer 90 (periph_reset, irq_reset)) =
     periph_increment_timer 290 (periph_reset, irq_reset)"
  using periph_increment_timer_additive [of periph_reset 90 200 irq_reset]
  by (simp add: periph_reset_def set_byte_def)

text \<open>
C5: For every number \<open>n\<close> of 25-cycle quanta that \<open>periph_quiet_quanta\<close> admits, the batched update
\<open>periph_advance_quiet\<close> leaves exactly the state that \<open>n\<close> faithful calls of \<open>periph_increment_timer\<close> leave,
and none of those calls raises an interrupt.
\<close>
theorem periph_quiet_batch:
  assumes "timer_prescale_cycles p < 96" and "n \<le> unat (periph_quiet_quanta maximum p)"
  shows "(periph_increment_timer 25 ^^ n) (p, i) = (periph_advance_quiet (of_nat (25 * n)) p, i)"
  using periph_quiet.batch_eq_steps [of "(p, i)" n maximum] assms by (simp add: periph_inv_def)

theorem periph_quiet_batch_witness:
  "timer_prescale_cycles periph_reset < 96 \<and> 3 \<le> unat (periph_quiet_quanta 1000 periph_reset) \<and>
   (periph_increment_timer 25 ^^ 3) (periph_reset, irq_reset) = (periph_advance_quiet 75 periph_reset, irq_reset)"
  using periph_quiet_batch [of periph_reset 3 1000 irq_reset]
  by (simp add: periph_reset_def set_byte_def periph_quiet_quanta_def load_counter_def Let_def be16_def)

end
