(* ===== verification/Binary64.thy ===== *)
theory Binary64
  imports Complex_Main "HOL-Library.Log_Nat"
begin

text \<open>
  The C type \<^verbatim>\<open>double\<close> as the runner uses it for nanosecond phases: a value is a rational number, and
  every operation rounds the exact result to 53 significant bits, ties to even. Exponent overflow,
  subnormals and NaN are outside the model: the quantities are phases between zero and one second, in
  nanoseconds.
\<close>

section \<open>Rounding\<close>

definition flog2 :: "rat \<Rightarrow> int" where
  "flog2 x =
     (let (a, b) = quotient_of x;
          k = int (floorlog 2 (nat a)) - int (floorlog 2 (nat b))
      in if 2 powi k \<le> x then k else k - 1)"

definition round_half_even :: "rat \<Rightarrow> int" where
  "round_half_even q =
     (let f = \<lfloor>q\<rfloor>; d = q - of_int f
      in if d < 1 / 2 then f
         else if 1 / 2 < d then f + 1
         else if even f then f else f + 1)"

definition round_pos :: "rat \<Rightarrow> rat" where
  "round_pos x =
     (let e = flog2 x - 52 in of_int (round_half_even (x * 2 powi (- e))) * 2 powi e)"

definition round64 :: "rat \<Rightarrow> rat" where
  "round64 x = (if x = 0 then 0 else if 0 < x then round_pos x else - round_pos (- x))"

definition dadd :: "rat \<Rightarrow> rat \<Rightarrow> rat" where
  "dadd x y = round64 (x + y)"

definition dsub :: "rat \<Rightarrow> rat \<Rightarrow> rat" where
  "dsub x y = round64 (x - y)"

definition dmul :: "rat \<Rightarrow> rat \<Rightarrow> rat" where
  "dmul x y = round64 (x * y)"

definition ddiv :: "rat \<Rightarrow> rat \<Rightarrow> rat" where
  "ddiv x y = round64 (x / y)"

definition is_double :: "rat \<Rightarrow> bool" where
  "is_double x \<longleftrightarrow> round64 x = x"

section \<open>Exact results\<close>

lemma flog2_bounds:
  assumes "0 < x"
  shows "2 powi flog2 x \<le> x" and "x < 2 powi (flog2 x + 1)"
proof -
  obtain a b where q: "quotient_of x = (a, b)" by fastforce
  then have b: "0 < b" and x: "x = of_int a / of_int b"
    by (auto dest: quotient_of_denom_pos quotient_of_div)
  with assms have a: "0 < a" by (simp add: zero_less_divide_iff)
  define m n where "m = floorlog 2 (nat a)" and "n = floorlog 2 (nat b)"
  have m: "0 < m" and n: "0 < n" using a b by (simp_all add: m_def n_def floorlog_eq_zero_iff zero_less_iff_neq_zero)
  have "(2 :: nat) ^ (m - 1) \<le> nat a \<and> nat a < 2 ^ m" "(2 :: nat) ^ (n - 1) \<le> nat b \<and> nat b < 2 ^ n"
    using a b floorlog_bounds [of "nat a" 2] floorlog_bounds [of "nat b" 2]
    by (simp_all only: m_def n_def) 
  then have "(2 :: int) ^ (m - 1) \<le> a" "a < 2 ^ m" "(2 :: int) ^ (n - 1) \<le> b" "b < 2 ^ n"
    using a b by (simp_all add: nat_less_iff le_nat_iff nat_power_eq)
  then have "of_int (2 ^ (m - 1)) \<le> (of_int a :: rat)" "of_int a < (of_int (2 ^ m) :: rat)"
    "of_int (2 ^ (n - 1)) \<le> (of_int b :: rat)" "of_int b < (of_int (2 ^ n) :: rat)"
    by (simp_all only: of_int_le_iff of_int_less_iff)
  then have ab: "(2 :: rat) ^ (m - 1) \<le> of_int a" "of_int a < (2 :: rat) ^ m"
    "(2 :: rat) ^ (n - 1) \<le> of_int b" "of_int b < (2 :: rat) ^ n"
    by simp_all
  have pw: "(2 :: rat) powi (int m - int n) = 2 ^ m / 2 ^ n"
    "(2 :: rat) powi (int m - int n + 1) = 2 ^ m / 2 ^ (n - 1)"
    "(2 :: rat) powi (int m - int n - 1) = 2 ^ (m - 1) / 2 ^ n"
    using m n by (simp_all add: power_int_diff power_int_add power_diff)
  have hi: "x < 2 powi (int m - int n + 1)"
    unfolding x pw using ab a b by (intro frac_less) simp_all
  have lo: "2 powi (int m - int n - 1) \<le> x"
    unfolding x pw using ab a b by (intro frac_le) simp_all
  show "2 powi flog2 x \<le> x" "x < 2 powi (flog2 x + 1)"
    using lo hi by (auto simp: flog2_def q m_def [symmetric] n_def [symmetric] Let_def)
qed

lemma round_half_even_of_int [simp]: "round_half_even (of_int n) = n"
  by (simp add: round_half_even_def)

lemma round_pos_exact:
  assumes "0 < n" and "n < 2 ^ 53"
  shows "round_pos (of_int n * 2 powi e) = of_int n * 2 powi e"
proof -
  define x :: rat where "x = of_int n * 2 powi e"
  have pos: "0 < x" using assms by (simp add: x_def)
  have "(of_int n :: rat) < of_int (2 ^ 53)" using assms by (simp only: of_int_less_iff)
  then have "(of_int n :: rat) < 2 powi 53" by simp
  then have "x < 2 powi (53 + e)" by (simp add: x_def power_int_add)
  with flog2_bounds(1) [OF pos] have "(2 :: rat) powi flog2 x < 2 powi (53 + e)" by simp
  then have lt: "flog2 x < 53 + e"
    using power_int_increasing [of "53 + e" "flog2 x" "2 :: rat"] by linarith
  define d where "d = nat (e - (flog2 x - 52))"
  have d: "e = flog2 x - 52 + int d" using lt by (simp add: d_def)
  have "x * 2 powi (- (flog2 x - 52)) = of_int n * (2 powi e * 2 powi (- (flog2 x - 52)))"
    by (simp add: x_def)
  also have "\<dots> = of_int n * 2 powi (e + - (flog2 x - 52))"
    by (subst power_int_add) simp_all
  also have "e + - (flog2 x - 52) = int d" using d by simp
  finally have "x * 2 powi (- (flog2 x - 52)) = of_int (n * 2 ^ d)" by simp
  moreover have "of_int (n * 2 ^ d) * 2 powi (flog2 x - 52) = x"
  proof -
    have "e = int d + (flog2 x - 52)" using d by simp
    with x_def have "x = of_int n * 2 powi (int d + (flog2 x - 52))" by (simp only:)
    also have "\<dots> = of_int n * (2 powi (int d) * 2 powi (flog2 x - 52))"
      by (subst power_int_add) simp_all
    finally show ?thesis by simp
  qed
  ultimately have "round_pos x = x"
    unfolding round_pos_def Let_def by (simp only: round_half_even_of_int)
  then show ?thesis by (simp only: x_def)
qed

lemma round64_exact:
  assumes "\<bar>n\<bar> < 2 ^ 53"
  shows "round64 (of_int n * 2 powi e) = of_int n * 2 powi e"
proof -
  consider "n = 0" | "0 < n" | "n < 0" by linarith
  then show ?thesis
  proof cases
    case 3
    then have "round_pos (of_int (- n) * 2 powi e) = of_int (- n) * 2 powi e"
      using assms by (intro round_pos_exact) simp_all
    moreover have "of_int n * 2 powi e < (0 :: rat)" using 3 by (simp add: mult_neg_pos)
    ultimately show ?thesis by (simp add: round64_def)
  qed (use assms in \<open>simp_all add: round64_def round_pos_exact\<close>)
qed

lemma round64_int: "\<bar>n\<bar> < 2 ^ 53 \<Longrightarrow> round64 (of_int n) = of_int n"
  using round64_exact [of n 0] by simp

lemma round_half_even_range: "of_int a \<le> q \<Longrightarrow> q < of_int b \<Longrightarrow> a \<le> round_half_even q \<and> round_half_even q \<le> b"
  by (auto simp: round_half_even_def Let_def le_floor_iff floor_less_iff add1_zle_eq intro: order_trans [OF _ less_imp_le])

lemma round_pos_normal:
  assumes "0 < x"
  shows "\<exists>m e. round_pos x = of_int m * 2 powi e \<and> 2 ^ 52 \<le> m \<and> m < 2 ^ 53"
proof -
  let ?e = "flog2 x - 52"
  let ?m = "round_half_even (x * 2 powi (- ?e))"
  have split: "2 powi a * 2 powi (- ?e) = (2 :: rat) powi (a - ?e)" for a
    by (simp add: power_int_add [symmetric] algebra_simps)
  have "2 powi flog2 x * 2 powi (- ?e) \<le> x * 2 powi (- ?e)"
    "x * 2 powi (- ?e) < 2 powi (flog2 x + 1) * 2 powi (- ?e)"
    using flog2_bounds [OF assms] by (simp_all add: mult_right_mono)
  then have "of_int (2 ^ 52) \<le> x * 2 powi (- ?e)" "x * 2 powi (- ?e) < of_int (2 ^ 53)"
    unfolding split by simp_all
  then have m: "2 ^ 52 \<le> ?m" "?m \<le> 2 ^ 53" using round_half_even_range by blast+
  have rp: "round_pos x = of_int ?m * 2 powi ?e" by (simp add: round_pos_def Let_def)
  show ?thesis
  proof (cases "?m = 2 ^ 53")
    case True
    have "(2 :: rat) powi (?e + 1) = 2 * 2 powi ?e" by (subst power_int_add_1) simp_all
    then have "round_pos x = of_int (2 ^ 52) * 2 powi (?e + 1)" unfolding rp True by simp
    moreover have "(2 :: int) ^ 52 \<le> 2 ^ 52 \<and> (2 :: int) ^ 52 < 2 ^ 53" by simp
    ultimately show ?thesis by blast
  next
    case False
    with m have "2 ^ 52 \<le> ?m \<and> ?m < 2 ^ 53" by linarith
    with rp show ?thesis by blast
  qed
qed

lemma round_half_even_near: "\<bar>of_int (round_half_even q) - q\<bar> \<le> 1 / 2"
  using of_int_floor_le [of q] floor_correct [of q] by (auto simp: round_half_even_def Let_def abs_le_iff)

lemma round_pos_error:
  assumes "0 < x"
  shows "\<bar>round_pos x - x\<bar> \<le> x / 2 ^ 53"
proof -
  let ?e = "flog2 x - 52"
  let ?q = "x * 2 powi (- ?e)"
  have p: "(2 :: rat) powi ?e * 2 powi (- ?e) = 1" by (subst power_int_add [symmetric]) simp_all
  have "round_pos x - x = (of_int (round_half_even ?q) - ?q) * 2 powi ?e"
    using p by (simp add: round_pos_def Let_def algebra_simps)
  then have "\<bar>round_pos x - x\<bar> \<le> 1 / 2 * 2 powi ?e"
    using round_half_even_near [of ?q] by (simp add: abs_mult)
  also have "\<dots> = 2 powi flog2 x / 2 ^ 53" by (simp add: power_int_diff)
  also have "\<dots> \<le> x / 2 ^ 53" using flog2_bounds(1) [OF assms] by (simp add: divide_right_mono)
  finally show ?thesis .
qed

lemma round_pos_pos: "0 < x \<Longrightarrow> 0 < round_pos x"
proof -
  assume "0 < x"
  then obtain m e where "round_pos x = of_int m * 2 powi e" "2 ^ 52 \<le> m"
    using round_pos_normal by blast
  then show ?thesis by (simp add: zero_less_mult_iff)
qed

lemma round64_crude:
  assumes "0 \<le> x"
  shows "0 \<le> round64 x" and "round64 x \<le> x + x"
proof -
  have "round_pos x \<le> x + x" if x: "0 < x"
  proof -
    have "x / 2 ^ 53 \<le> x" using x by simp
    with round_pos_error [OF x] show ?thesis by linarith
  qed
  then show "0 \<le> round64 x" "round64 x \<le> x + x"
    using assms round_pos_pos [of x] by (auto simp: round64_def order_le_less)
qed

lemma round64_idem: "round64 (round64 x) = round64 x"
proof -
  have "round_pos (round_pos y) = round_pos y" if y: "0 < y" for y
  proof -
    obtain m e where m: "round_pos y = of_int m * 2 powi e" "2 ^ 52 \<le> m" "m < 2 ^ 53"
      using round_pos_normal [OF y] by blast
    then show ?thesis using round_pos_exact [of m e] by simp
  qed
  then show ?thesis using round_pos_pos [of x] round_pos_pos [of "- x"] by (auto simp: round64_def)
qed

lemma is_double_ops [simp]:
  "is_double (dadd x y)" "is_double (dsub x y)" "is_double (dmul x y)" "is_double (ddiv x y)"
  by (simp_all add: is_double_def dadd_def dsub_def dmul_def ddiv_def round64_idem)

lemma is_double_normal:
  assumes "is_double x" and "0 < x"
  shows "\<exists>m e. x = of_int m * 2 powi e \<and> 2 ^ 52 \<le> m \<and> m < 2 ^ 53"
  using round_pos_normal [OF assms(2)] assms by (simp add: is_double_def round64_def)

text \<open>
  Subtracting a constant \<open>k * 2^j\<close> from a larger double below \<open>2^(53+j)\<close> is exact: the loops that carry
  whole periods out of a phase lose nothing.
\<close>

lemma dsub_exact:
  assumes x: "is_double x" "x < 2 ^ (53 + j)" and c: "c = of_int k * 2 ^ j" "0 < c" "c \<le> x"
  shows "dsub x c = x - c"
proof -
  obtain m e where m: "x = of_int m * 2 powi e" "2 ^ 52 \<le> m" "m < 2 ^ 53"
    using is_double_normal x c by (meson less_le_trans)
  have "(2 :: rat) powi (52 + e) = of_int (2 ^ 52) * 2 powi e" by (simp add: power_int_add)
  also have "\<dots> \<le> x" unfolding m(1) using m(2) by (intro mult_right_mono) (simp_all only: of_int_le_iff, simp)
  also have "\<dots> < 2 powi (53 + int j)" using x(2) by (simp add: power_int_add power_add)
  finally have "52 + e < 53 + int j"
    using power_int_increasing [of "53 + int j" "52 + e" "2 :: rat"] by linarith
  then obtain d where d: "int j = e + int d" using zle_iff_zadd [of e "int j"] by auto
  have "(2 :: rat) ^ j = 2 ^ d * 2 powi e"
    using power_int_add [of "2 :: rat" e "int d"] by (simp flip: power_int_of_nat [of _ j] add: d)
  then have diff: "x - c = of_int (m - k * 2 ^ d) * 2 powi e"
    unfolding m(1) c(1) by (simp add: algebra_simps)
  have "0 \<le> x - c" using c by simp
  then have "0 \<le> (of_int (m - k * 2 ^ d) :: rat)"
    unfolding diff by (rule mult_right_le_imp_le [of 0 "2 powi e", simplified]) simp
  then have "0 \<le> m - k * 2 ^ d" by (simp only: of_int_0_le_iff)
  moreover have "0 < k" using c by (simp add: zero_less_mult_iff)
  then have "0 < k * 2 ^ d" by simp
  ultimately have "\<bar>m - k * 2 ^ d\<bar> < 2 ^ 53" using m(3) by linarith
  then show ?thesis unfolding dsub_def diff by (rule round64_exact)
qed

end
