(* ===== verification/Phantom_Clock.thy ===== *)
theory Phantom_Clock
  imports Cdi_Prelude Binary64 Quiet_Device
begin

unbundle bit_operations_syntax

text \<open>
  The DS1216 phantom clock over 32 KiB of battery-backed SRAM (\<^verbatim>\<open>runner/src/cdi_nvram.c\<close>): civil time, the
  BCD transfer registers, the 64-bit comparison sequence that opens a serial transfer, the nanosecond
  phase that drives the hundredths, and its batched quiet form. \<^verbatim>\<open>unsigned\<close> intermediates whose range is
  a few hundred are \<open>nat\<close>; stored fields keep their width.
\<close>

section \<open>Civil time\<close>

record CdiRtcTime =
  year :: int
  month :: u8
  date :: u8
  weekday :: u8
  hour :: u8
  minute :: u8
  second :: u8
  hundredth :: u8

definition bcd_encode :: "nat \<Rightarrow> u8" where
  "bcd_encode v = of_nat (v div 10 * 16) OR of_nat (v mod 10)"

definition bcd_decode :: "u8 \<Rightarrow> nat" where
  "bcd_decode v = unat (drop_bit 4 v) * 10 + unat (v AND 0x0F)"

definition leap_year :: "int \<Rightarrow> bool" where
  "leap_year y \<longleftrightarrow> (y mod 4 = 0 \<and> y mod 100 \<noteq> 0) \<or> y mod 400 = 0"

definition month_lengths :: "nat list" where
  "month_lengths = [31, 28, 31, 30, 31, 30, 31, 31, 30, 31, 30, 31]"

definition days_in_month :: "int \<Rightarrow> nat \<Rightarrow> nat" where
  "days_in_month y m =
     (if m = 2 then month_lengths ! 1 + of_bool (leap_year y)
      else if m \<ge> 1 \<and> m \<le> 12 then month_lengths ! (m - 1)
      else 31)"

definition bounded :: "nat \<Rightarrow> nat \<Rightarrow> nat \<Rightarrow> nat \<Rightarrow> nat" where
  "bounded v low high fallback = (if v \<ge> low \<and> v \<le> high then v else fallback)"

text \<open>The early returns of \<open>advance_one_second\<close>, one carry at a time.\<close>

definition carry_month :: "CdiRtcTime \<Rightarrow> CdiRtcTime" where
  "carry_month c =
     (let c1 = c\<lparr>month := month c + 1\<rparr>
      in if month c1 \<le> 12 then c1 else c1\<lparr>month := 1, year := year c1 + 1\<rparr>)"

definition carry_day :: "CdiRtcTime \<Rightarrow> CdiRtcTime" where
  "carry_day c =
     (let c1 = c\<lparr>weekday := (if weekday c = 7 then 1 else weekday c + 1), date := date c + 1\<rparr>
      in if unat (date c1) \<le> days_in_month (year c1) (unat (month c1)) then c1
         else carry_month (c1\<lparr>date := 1\<rparr>))"

definition advance_one_second :: "CdiRtcTime \<Rightarrow> CdiRtcTime" where
  "advance_one_second c =
     (let c1 = c\<lparr>second := second c + 1\<rparr> in
      if second c1 < 60 then c1
      else let c2 = c1\<lparr>second := 0, minute := minute c1 + 1\<rparr> in
        if minute c2 < 60 then c2
        else let c3 = c2\<lparr>minute := 0, hour := hour c2 + 1\<rparr> in
          if hour c3 < 24 then c3 else carry_day (c3\<lparr>hour := 0\<rparr>))"

definition valid_time :: "CdiRtcTime \<Rightarrow> bool" where
  "valid_time t \<longleftrightarrow>
     \<not> (year t < 1970 \<or> year t > 2069) \<and>
     \<not> (month t < 1 \<or> month t > 12 \<or> date t < 1 \<or>
        unat (date t) > days_in_month (year t) (unat (month t)) \<or>
        weekday t < 1 \<or> weekday t > 7 \<or> hour t > 23 \<or> minute t > 59 \<or> second t > 59 \<or>
        hundredth t > 99)"

section \<open>The device\<close>

record PhantomClock =
  nv_ram :: "u16 \<Rightarrow> u8"
  transfer :: "u8 list"
  now :: CdiRtcTime
  key_window :: u64
  key_value :: u64
  sub_hundredth_ns :: rat
  transfer_bit :: u8
  transferring :: bool
  startup_seeded :: bool

abbreviation (input) "RTC_HUNDREDTHS \<equiv> 0 :: nat"
abbreviation (input) "RTC_SECONDS \<equiv> 1 :: nat"
abbreviation (input) "RTC_MINUTES \<equiv> 2 :: nat"
abbreviation (input) "RTC_HOURS \<equiv> 3 :: nat"
abbreviation (input) "RTC_WEEKDAY \<equiv> 4 :: nat"
abbreviation (input) "RTC_DATE \<equiv> 5 :: nat"
abbreviation (input) "RTC_MONTH \<equiv> 6 :: nat"
abbreviation (input) "RTC_YEAR \<equiv> 7 :: nat"

definition encode_hour :: "bool \<Rightarrow> nat \<Rightarrow> u8" where
  "encode_hour hour_mode display_hour =
     (if hour_mode then
        let pm = display_hour \<ge> 12;
            h = display_hour mod 12;
            h12 = (if h = 0 then 12 else h)
        in 0x80 OR (if pm then 0x20 else 0) OR bcd_encode h12
      else bcd_encode display_hour)"

definition latch_clock_registers :: "PhantomClock \<Rightarrow> PhantomClock" where
  "latch_clock_registers r =
     (let hour_mode = transfer r ! RTC_HOURS AND 0x80;
          day_control = transfer r ! RTC_WEEKDAY AND 0x30;
          t = now r
      in r\<lparr>transfer :=
         [bcd_encode (unat (hundredth t)), bcd_encode (unat (second t)), bcd_encode (unat (minute t)),
          encode_hour (hour_mode \<noteq> 0) (unat (hour t)), day_control OR weekday t,
          bcd_encode (unat (date t)), bcd_encode (unat (month t)), bcd_encode (nat (year t mod 100))]\<rparr>)"

definition decode_hour :: "u8 \<Rightarrow> nat" where
  "decode_hour h =
     (if h AND 0x80 \<noteq> 0 then
        let v = bounded (bcd_decode (h AND 0x1F)) 1 12 12;
            v0 = (if v = 12 then 0 else v)
        in if h AND 0x20 \<noteq> 0 then v0 + 12 else v0
      else bounded (bcd_decode (h AND 0x3F)) 0 23 0)"

definition decode_year :: "u8 \<Rightarrow> int" where
  "decode_year v = (let y = bcd_decode v in if y < 70 then 2000 + int y else 1900 + int y)"

definition commit_clock_registers :: "PhantomClock \<Rightarrow> PhantomClock" where
  "commit_clock_registers r =
     (let tr = transfer r;
          y' = decode_year (tr ! RTC_YEAR);
          m' = bounded (bcd_decode (tr ! RTC_MONTH AND 0x1F)) 1 12 1
      in r\<lparr>now :=
           \<lparr>year = y', month = of_nat m',
            date = of_nat (bounded (bcd_decode (tr ! RTC_DATE AND 0x3F)) 1 (days_in_month y' m') 1),
            weekday = of_nat (bounded (unat (tr ! RTC_WEEKDAY AND 7)) 1 7 1),
            hour = of_nat (decode_hour (tr ! RTC_HOURS)),
            minute = of_nat (bounded (bcd_decode (tr ! RTC_MINUTES AND 0x7F)) 0 59 0),
            second = of_nat (bounded (bcd_decode (tr ! RTC_SECONDS AND 0x7F)) 0 59 0),
            hundredth = of_nat (bounded (bcd_decode (tr ! RTC_HUNDREDTHS)) 0 99 0)\<rparr>,
           sub_hundredth_ns := 0\<rparr>)"

section \<open>Unlocking and serial transfer\<close>

definition unlock_bytes :: "u8 list" where
  "unlock_bytes = [0xC5, 0x3A, 0xA3, 0x5C, 0xC5, 0x3A, 0xA3, 0x5C]"

text \<open>The key bits in the order the doubly nested loop of \<open>make_unlock_value\<close> visits them.\<close>

definition key_bits :: "bool list" where
  "key_bits = concat (map (\<lambda>b. map (bit b) [0..<8]) unlock_bytes)"

definition shift_in :: "bool \<Rightarrow> u64 \<Rightarrow> u64" where
  "shift_in b w = push_bit 1 w OR of_bool b"

definition make_unlock_value :: u64 where
  "make_unlock_value = fold shift_in key_bits 0"

definition observe_key_bit :: "bool \<Rightarrow> PhantomClock \<Rightarrow> PhantomClock" where
  "observe_key_bit b r =
     (let r1 = r\<lparr>key_window := shift_in b (key_window r)\<rparr>
      in if key_window r1 = key_value r1
         then (latch_clock_registers r1)\<lparr>key_window := 0, transfer_bit := 0, transferring := True\<rparr>
         else r1)"

definition finish_transfer_bit :: "PhantomClock \<Rightarrow> PhantomClock" where
  "finish_transfer_bit r =
     (let r1 = r\<lparr>transfer_bit := transfer_bit r + 1\<rparr>
      in if transfer_bit r1 = 64
         then commit_clock_registers (r1\<lparr>transferring := False, transfer_bit := 0, key_window := 0\<rparr>)
         else r1)"

definition reset_time :: CdiRtcTime where
  "reset_time = \<lparr>year = 1989, month = 1, date = 1, weekday = 7, hour = 0, minute = 0, second = 0, hundredth = 0\<rparr>"

definition nvram_reset :: PhantomClock where
  "nvram_reset = latch_clock_registers
     \<lparr>nv_ram = (\<lambda>_. 0xFF), transfer = replicate 8 0, now = reset_time, key_window = 0,
      key_value = make_unlock_value, sub_hundredth_ns = 0, transfer_bit = 0, transferring = False,
      startup_seeded = False\<rparr>"

text \<open>
  Loading the battery image: what opening and reading the file can yield is the argument. The result is 1
  for an image of exactly 32 KiB, 0 when there is no file, -1 otherwise.
\<close>

datatype sram_file = No_File | Unreadable | Contents "u8 list"

definition nvram_load_sram :: "sram_file \<Rightarrow> PhantomClock \<Rightarrow> int \<times> PhantomClock" where
  "nvram_load_sram f r =
     (case f of
        No_File \<Rightarrow> (0, r)
      | Unreadable \<Rightarrow> (- 1, r)
      | Contents bs \<Rightarrow>
          if length bs \<noteq> 0x8000 then (- 1, r)
          else (1, r\<lparr>nv_ram := (\<lambda>a. if unat a < 0x8000 then bs ! unat a else nv_ram r a)\<rparr>))"

text \<open>The result codes of \<open>nvram_seed_clock_once\<close>: 0 already seeded, -1 invalid, 1 seeded.\<close>

definition nvram_seed_clock_once :: "CdiRtcTime \<Rightarrow> PhantomClock \<Rightarrow> int \<times> PhantomClock" where
  "nvram_seed_clock_once t r =
     (if startup_seeded r then (0, r)
      else if \<not> valid_time t then (- 1, r)
      else (1, latch_clock_registers (r\<lparr>now := t, sub_hundredth_ns := 0, startup_seeded := True\<rparr>)))"

section \<open>Clocking\<close>

abbreviation (input) "hundredth_ns \<equiv> 10000000 :: rat"

definition oscillator_off :: "PhantomClock \<Rightarrow> bool" where
  "oscillator_off r \<longleftrightarrow> transfer r ! RTC_WEEKDAY AND 0x20 \<noteq> 0"

definition tick_hundredth :: "CdiRtcTime \<Rightarrow> CdiRtcTime" where
  "tick_hundredth c =
     (let c1 = c\<lparr>hundredth := hundredth c + 1\<rparr>
      in if hundredth c1 = 100 then advance_one_second (c1\<lparr>hundredth := 0\<rparr>) else c1)"

partial_function (option) drain_hundredths :: "PhantomClock \<Rightarrow> PhantomClock option" where
  "drain_hundredths r =
     (if sub_hundredth_ns r \<ge> hundredth_ns
      then drain_hundredths
        (r\<lparr>sub_hundredth_ns := dsub (sub_hundredth_ns r) hundredth_ns, now := tick_hundredth (now r)\<rparr>)
      else Some r)"

definition nvram_increment_clock :: "rat \<Rightarrow> PhantomClock \<Rightarrow> PhantomClock option" where
  "nvram_increment_clock nanoseconds r =
     (if oscillator_off r then Some r
      else drain_hundredths (r\<lparr>sub_hundredth_ns := dadd (sub_hundredth_ns r) nanoseconds\<rparr>))"

text \<open>\<open>quiet_count left phase\<close> is the loop of \<open>nvram_quiet_quanta\<close> with \<open>left\<close> iterations to go.\<close>

fun quiet_count :: "nat \<Rightarrow> rat \<Rightarrow> rat \<Rightarrow> nat" where
  "quiet_count 0 q phase = 0"
| "quiet_count (Suc left) q phase =
     (let phase' = dadd phase q in if phase' \<ge> hundredth_ns then 0 else Suc (quiet_count left q phase'))"

definition nvram_quiet_quanta :: "nat \<Rightarrow> rat \<Rightarrow> PhantomClock \<Rightarrow> nat" where
  "nvram_quiet_quanta maximum quantum_ns r =
     (if oscillator_off r then maximum else quiet_count maximum quantum_ns (sub_hundredth_ns r))"

definition nvram_advance_quiet :: "nat \<Rightarrow> rat \<Rightarrow> PhantomClock \<Rightarrow> PhantomClock" where
  "nvram_advance_quiet quanta quantum_ns r =
     (if oscillator_off r then r
      else r\<lparr>sub_hundredth_ns := ((\<lambda>x. dadd x quantum_ns) ^^ quanta) (sub_hundredth_ns r)\<rparr>)"

section \<open>Bus access\<close>

definition nvram_get_byte :: "u16 \<Rightarrow> PhantomClock \<Rightarrow> u8 \<times> PhantomClock" where
  "nvram_get_byte device_address r =
     (if \<not> transferring r then (nv_ram r (device_address AND 0x7FFF), r)
      else
        let reg = unat (drop_bit 3 (transfer_bit r)); sh = unat (transfer_bit r AND 7)
        in (drop_bit sh (transfer r ! reg) AND 1, finish_transfer_bit r))"

definition nvram_set_byte :: "u16 \<Rightarrow> u8 \<Rightarrow> PhantomClock \<Rightarrow> PhantomClock" where
  "nvram_set_byte device_address v r =
     (if \<not> transferring r
      then observe_key_bit (bit v 0) (r\<lparr>nv_ram := (nv_ram r)(device_address AND 0x7FFF := v)\<rparr>)
      else
        let reg = unat (drop_bit 3 (transfer_bit r)); mask = push_bit (unat (transfer_bit r AND 7)) 1
        in finish_transfer_bit
             (r\<lparr>transfer := (transfer r)[reg := (transfer r ! reg AND NOT mask) OR (if bit v 0 then mask else 0)]\<rparr>))"

end
