(* ===== verification/Phantom_Clock_Laws.thy ===== *)
theory Phantom_Clock_Laws
  imports Phantom_Clock "HOL-Library.Sublist"
begin

unbundle bit_operations_syntax

text \<open>
  Correctness of the phantom clock: the calendar against an abstract count of hundredths
  (\<open>total_hundredths\<close>, with the weekday in step), the exactness and termination of the carry loop, the
  batched quiet update (interpretation \<open>nvram_quiet\<close>), the register encoding, the unlocking sequence and
  the serial transfers.
\<close>

section \<open>Calendar\<close>

lemma bcd_small: "v < 100 \<Longrightarrow> bcd_decode (bcd_encode v) = v"
proof -
  have "\<forall>v\<in>{..<100}. bcd_decode (bcd_encode v) = v" by code_simp
  then show "v < 100 \<Longrightarrow> bcd_decode (bcd_encode v) = v" by simp
qed

definition calendar_ok :: "CdiRtcTime \<Rightarrow> bool" where
  "calendar_ok t \<longleftrightarrow>
     1 \<le> unat (month t) \<and> unat (month t) \<le> 12 \<and>
     1 \<le> unat (date t) \<and> unat (date t) \<le> days_in_month (year t) (unat (month t)) \<and>
     1 \<le> unat (weekday t) \<and> unat (weekday t) \<le> 7 \<and>
     unat (hour t) < 24 \<and> unat (minute t) < 60 \<and> unat (second t) < 60 \<and> unat (hundredth t) < 100"

definition days_before_year :: "int \<Rightarrow> int" where
  "days_before_year y = 365 * (y - 1) + (y - 1) div 4 - (y - 1) div 100 + (y - 1) div 400"

definition day_number :: "CdiRtcTime \<Rightarrow> int" where
  "day_number t = days_before_year (year t) +
     (\<Sum>m = 1..<unat (month t). int (days_in_month (year t) m)) + int (unat (date t))"

definition total_hundredths :: "CdiRtcTime \<Rightarrow> int" where
  "total_hundredths t =
     (((day_number t * 24 + int (unat (hour t))) * 60 + int (unat (minute t))) * 60 + int (unat (second t))) * 100
       + int (unat (hundredth t))"

definition weekday_ok :: "CdiRtcTime \<Rightarrow> bool" where
  "weekday_ok t \<longleftrightarrow> int (unat (weekday t)) mod 7 = day_number t mod 7"

lemma days_in_month_le: "days_in_month y m \<le> 31"
proof -
  have "\<forall>m\<in>{1..12}. days_in_month y m \<le> 31" 
    by (simp add: days_in_month_def month_lengths_def atLeastAtMost_upt upt_rec)
  then show ?thesis by (cases "m \<in> {1..12}") (auto simp: days_in_month_def)
qed

lemma days_in_month_pos: "1 \<le> days_in_month y k"
proof -
  have "\<forall>m\<in>{1..12}. 1 \<le> days_in_month y m"
    by (simp add: days_in_month_def month_lengths_def atLeastAtMost_upt upt_rec)
  then show ?thesis by (cases "k \<in> {1..12}") (auto simp: days_in_month_def)
qed

lemma year_length:
  "(\<Sum>m = 1..<13. int (days_in_month y m)) = 365 + of_bool (leap_year y)"
  by (simp add: days_in_month_def month_lengths_def atLeastLessThan_upt upt_rec sum.set_conv_list)

lemma days_before_next_year: "days_before_year (y + 1) = days_before_year y + 365 + of_bool (leap_year y)"
proof -
  have d: "y div k = (y - 1) div k + of_bool (y mod k = 0)" if k: "1 < k" for k :: int
  proof -
    define q r where "q = (y - 1) div k" and "r = (y - 1) mod k"
    have y: "y = k * q + (r + 1)" and r: "0 \<le> r" "r < k"
      using k by (simp_all add: q_def r_def)
    show ?thesis
    proof (cases "r + 1 = k")
      case True
      then have "y = k * (q + 1)" using y by (simp add: algebra_simps)
      then have "y div k = q + 1" "y mod k = 0" using k by simp_all
      then show ?thesis by (simp add: q_def)
    next
      case False
      then have "y div k = q" "y mod k = r + 1"
        using y r by (auto intro: int_div_pos_eq int_mod_pos_eq)
      then show ?thesis using r by (simp add: q_def)
    qed
  qed
  have imp: "y mod 4 = 0" if "y mod 100 = 0" 
    using that by presburger
  have imp2: "y mod 100 = 0" if "y mod 400 = 0" 
    using mod_mod_cancel [of 100 400 y] that by simp
  show ?thesis
    by (simp add: days_before_year_def leap_year_def d [of 4] d [of 100] d [of 400] imp imp2)
qed

lemma carry_month_days:
  assumes "1 \<le> unat (month c)" "unat (month c) \<le> 12" "unat (date c) = 1"
  shows "day_number (carry_month c) = day_number c + int (days_in_month (year c) (unat (month c)))"
    and "1 \<le> unat (month (carry_month c)) \<and> unat (month (carry_month c)) \<le> 12"
proof -
  have m: "unat (month c + 1) = unat (month c) + 1" using assms by (simp add: unat_Suc_u8)
  have split: "(\<Sum>m = 1..<Suc k. f m) = (\<Sum>m = 1..<k. f m) + f k" if "1 \<le> k" for f :: "nat \<Rightarrow> int" and k
    using that by (simp add: atLeastLessThanSuc)
  show "day_number (carry_month c) = day_number c + int (days_in_month (year c) (unat (month c)))"
  proof (cases "unat (month c) = 12")
    case True
    then show ?thesis
      using assms m year_length [of "year c"] split [of 12]
      by (simp add: carry_month_def Let_def word_le_nat_alt day_number_def days_before_next_year)
  next
    case False
    then show ?thesis
      using assms m split [of "unat (month c)"]
      by (simp add: carry_month_def Let_def word_le_nat_alt day_number_def)
  qed
  show "1 \<le> unat (month (carry_month c)) \<and> unat (month (carry_month c)) \<le> 12"
    using assms m by (simp add: carry_month_def Let_def word_le_nat_alt)
qed

lemma carry_month_same [simp]:
  "date (carry_month c) = date c" "weekday (carry_month c) = weekday c" "hour (carry_month c) = hour c"
  "minute (carry_month c) = minute c" "second (carry_month c) = second c" "hundredth (carry_month c) = hundredth c"
  by (simp_all add: carry_month_def Let_def)

lemma carry_day_same [simp]:
  "hour (carry_day c) = hour c" "minute (carry_day c) = minute c" "second (carry_day c) = second c"
  "hundredth (carry_day c) = hundredth c"
  by (simp_all add: carry_day_def Let_def)

lemma carry_day_ok:
  assumes "calendar_ok c"
  shows "calendar_ok (carry_day c)" and "day_number (carry_day c) = day_number c + 1"
    and "int (unat (weekday (carry_day c))) mod 7 = (int (unat (weekday c)) + 1) mod 7"
proof -
  have le: "unat (date c) \<le> 31" using assms days_in_month_le le_trans by (fastforce simp: calendar_ok_def)
  then have d: "unat (date c + 1) = unat (date c) + 1" by (simp add: unat_Suc_u8)
  have wk: "unat (weekday c + 1) = unat (weekday c) + 1"
    using assms by (simp add: calendar_ok_def unat_Suc_u8)
  let ?w = "if weekday c = 7 then 1 else weekday c + 1"
  have wk': "uint (weekday c + 1) = uint (weekday c) + 1" using arg_cong [OF wk, of int] by simp
  have w: "1 \<le> unat ?w" "unat ?w \<le> 7"
    using assms wk by (auto simp: calendar_ok_def word_unat_eq_iff)
  have w3: "int (unat ?w) mod 7 = (int (unat (weekday c)) + 1) mod 7"
    using wk' by (cases "weekday c = 7") simp_all
  define c1 where "c1 = c\<lparr>weekday := ?w, date := 1\<rparr>"
  have c1: "unat (date c1) = 1" "month c1 = month c" "year c1 = year c" by (simp_all add: c1_def)
  have m: "1 \<le> unat (month c)" "unat (month c) \<le> 12" using assms by (simp_all add: calendar_ok_def)
  note cm = carry_month_days [of c1, unfolded c1, OF m, simplified]
  have dn: "day_number c1 = day_number c - int (unat (date c)) + 1"
    by (simp add: day_number_def c1_def)
  show "int (unat (weekday (carry_day c))) mod 7 = (int (unat (weekday c)) + 1) mod 7"
    using w3 by (simp add: carry_day_def Let_def)
  show "day_number (carry_day c) = day_number c + 1"
  proof (cases "unat (date c) = days_in_month (year c) (unat (month c))")
    case True
    then show ?thesis using cm(1) dn by (simp add: carry_day_def Let_def d flip: c1_def del: of_nat_unat)
  next
    case False
    then have "Suc (unat (date c)) \<le> days_in_month (year c) (unat (month c))"
      using assms by (simp add: calendar_ok_def)
    then show ?thesis by (simp add: carry_day_def Let_def day_number_def d del: of_nat_unat)
  qed
  show "calendar_ok (carry_day c)"
    using assms w cm(2) days_in_month_pos
    by (simp add: carry_day_def Let_def c1_def [symmetric] calendar_ok_def d c1(1))
      (simp add: c1_def)
qed

lemma advance_one_second_ok:
  assumes "calendar_ok c"
  shows "calendar_ok (advance_one_second c)"
    and "total_hundredths (advance_one_second c) = total_hundredths c + 100"
    and "weekday_ok c \<Longrightarrow> weekday_ok (advance_one_second c)"
proof -
  have s: "unat (second c + 1) = unat (second c) + 1" and m: "unat (minute c + 1) = unat (minute c) + 1"
    and h: "unat (hour c + 1) = unat (hour c) + 1"
    using assms by (simp_all add: calendar_ok_def unat_Suc_u8)
  define c0 where "c0 = c\<lparr>second := 0, minute := 0, hour := 0\<rparr>"
  have c0: "calendar_ok c0" using assms by (simp add: calendar_ok_def c0_def)
  have d0: "day_number c0 = day_number c" by (simp add: day_number_def c0_def)
  have dn: "day_number (c\<lparr>second := x\<rparr>) = day_number c" "day_number (c\<lparr>second := x, minute := y\<rparr>) = day_number c"
    "day_number (c\<lparr>second := x, minute := y, hour := z\<rparr>) = day_number c" for x y z
    by (simp_all add: day_number_def)
  consider (s) "unat (second c) < 59" | (m) "unat (second c) = 59" "unat (minute c) < 59"
    | (h) "unat (second c) = 59" "unat (minute c) = 59" "unat (hour c) < 23"
    | (d) "unat (second c) = 59" "unat (minute c) = 59" "unat (hour c) = 23"
    using assms by (fastforce simp: calendar_ok_def)
  then have "calendar_ok (advance_one_second c) \<and>
    total_hundredths (advance_one_second c) = total_hundredths c + 100 \<and>
    (weekday_ok c \<longrightarrow> weekday_ok (advance_one_second c))"
  proof cases
    case s
    then show ?thesis using assms \<open>unat (second c + 1) = _\<close>
      by (simp add: advance_one_second_def Let_def word_less_nat_alt total_hundredths_def calendar_ok_def dn weekday_ok_def)
  next
    case m
    then show ?thesis using assms s \<open>unat (minute c + 1) = _\<close>
      by (simp add: advance_one_second_def Let_def word_less_nat_alt total_hundredths_def calendar_ok_def dn weekday_ok_def)
  next
    case h
    then show ?thesis using assms s m \<open>unat (hour c + 1) = _\<close>
      by (simp add: advance_one_second_def Let_def word_less_nat_alt total_hundredths_def calendar_ok_def dn weekday_ok_def)
  next
    case d
    then have "advance_one_second c = carry_day c0"
      using s m h by (simp add: advance_one_second_def Let_def word_less_nat_alt c0_def)
    moreover have "weekday_ok (carry_day c0)" if "weekday_ok c"
    proof -
      have "(int (unat (weekday c)) + 1) mod 7 = (day_number c + 1) mod 7"
        using that unfolding weekday_ok_def by (rule mod_add_cong) simp
      moreover have "weekday c0 = weekday c" by (simp add: c0_def)
      ultimately show ?thesis
        using carry_day_ok(3) [OF c0] by (simp add: weekday_ok_def carry_day_ok(2) [OF c0] d0)
    qed
    ultimately show ?thesis
      using carry_day_ok(1,2) [OF c0] d by (simp add: total_hundredths_def d0) (simp add: c0_def)
  qed
  then show "calendar_ok (advance_one_second c)"
    and "total_hundredths (advance_one_second c) = total_hundredths c + 100"
    and "weekday_ok c \<Longrightarrow> weekday_ok (advance_one_second c)" by simp_all
qed

lemma tick_hundredth_ok:
  assumes "calendar_ok c"
  shows "calendar_ok (tick_hundredth c)"
    and "total_hundredths (tick_hundredth c) = total_hundredths c + 1"
    and "weekday_ok c \<Longrightarrow> weekday_ok (tick_hundredth c)"
proof -
  have h: "unat (hundredth c + 1) = Suc (unat (hundredth c))"
    using assms by (simp add: calendar_ok_def unat_Suc_u8)
  define c1 where "c1 = c\<lparr>hundredth := 0\<rparr>"
  have c1: "calendar_ok c1" "weekday_ok c1 = weekday_ok c" "day_number c1 = day_number c"
    using assms by (simp_all add: calendar_ok_def c1_def weekday_ok_def day_number_def)
  have "calendar_ok (tick_hundredth c) \<and> total_hundredths (tick_hundredth c) = total_hundredths c + 1 \<and>
      (weekday_ok c \<longrightarrow> weekday_ok (tick_hundredth c))"
  proof (cases "unat (hundredth c) = 99")
    case True
    then have t: "tick_hundredth c = advance_one_second c1"
      using h by (simp add: tick_hundredth_def Let_def word_unat_eq_iff c1_def)
    have "total_hundredths c1 + 100 = total_hundredths c + 1"
      using True by (simp add: total_hundredths_def c1(3) del: of_nat_unat) (simp add: c1_def)
    then show ?thesis using advance_one_second_ok [OF c1(1)] c1(2) by (simp add: t)
  next
    case False
    have "day_number (c\<lparr>hundredth := x\<rparr>) = day_number c" for x by (simp add: day_number_def)
    with False h assms show ?thesis
      by (simp add: tick_hundredth_def Let_def word_unat_eq_iff calendar_ok_def total_hundredths_def
          weekday_ok_def del: of_nat_unat)
  qed
  then show "calendar_ok (tick_hundredth c)" "total_hundredths (tick_hundredth c) = total_hundredths c + 1"
    "weekday_ok c \<Longrightarrow> weekday_ok (tick_hundredth c)" by simp_all
qed

lemma ticks_ok:
  assumes "calendar_ok c"
  shows "calendar_ok ((tick_hundredth ^^ k) c) \<and> total_hundredths ((tick_hundredth ^^ k) c) = total_hundredths c + int k \<and>
    (weekday_ok c \<longrightarrow> weekday_ok ((tick_hundredth ^^ k) c))"
  by (induction k) (use assms tick_hundredth_ok in auto)

text \<open>The drain loop ends: below \<open>2^60\<close> nanoseconds each subtraction is exact, so it carries whole hundredths.\<close>

lemma drain_hundredths_eq:
  assumes "is_double (sub_hundredth_ns r)" and "0 \<le> sub_hundredth_ns r" and "sub_hundredth_ns r < 2 ^ 60"
  shows "drain_hundredths r =
    (let k = nat \<lfloor>sub_hundredth_ns r / hundredth_ns\<rfloor>
     in Some (r\<lparr>sub_hundredth_ns := sub_hundredth_ns r - of_nat k * hundredth_ns,
                 now := (tick_hundredth ^^ k) (now r)\<rparr>))"
  using assms
proof (induction "nat \<lfloor>sub_hundredth_ns r / hundredth_ns\<rfloor>" arbitrary: r)
  case 0
  then have "sub_hundredth_ns r < hundredth_ns" by (simp add: floor_less_iff zero_le_divide_iff le_less_linear) 
  with 0 show ?case by (subst drain_hundredths.simps) (simp add: Let_def)
next
  case (Suc k)
  let ?s = "sub_hundredth_ns r"
  from Suc.hyps(2) have fl: "\<lfloor>?s / hundredth_ns\<rfloor> = int (Suc k)" by linarith
  then have "of_int (int (Suc k)) \<le> ?s / hundredth_ns" by (metis of_int_floor_le)
  then have ge: "hundredth_ns \<le> ?s" by simp
  have ex: "dsub ?s hundredth_ns = ?s - hundredth_ns"
    using Suc.prems ge by (intro dsub_exact [where j = 7 and k = 78125]) simp_all
  define r1 where "r1 = r\<lparr>sub_hundredth_ns := ?s - hundredth_ns, now := tick_hundredth (now r)\<rparr>"
  have k1: "\<lfloor>(?s - hundredth_ns) / hundredth_ns\<rfloor> = int k"
    using fl by (simp add: diff_divide_distrib floor_diff_one)
  have "is_double (?s - hundredth_ns)" unfolding ex [symmetric] by simp
  then have "drain_hundredths r1 =
      Some (r1\<lparr>sub_hundredth_ns := sub_hundredth_ns r1 - of_nat k * hundredth_ns, now := (tick_hundredth ^^ k) (now r1)\<rparr>)"
    using Suc.hyps(1) [of r1] Suc.prems ge k1 by (simp add: r1_def Let_def)
  moreover have "drain_hundredths r = drain_hundredths r1"
    using ge by (subst drain_hundredths.simps) (simp add: ex r1_def)
  ultimately show ?case
    by (simp add: Suc.hyps(2) [symmetric] r1_def Let_def funpow_Suc_front algebra_simps del: funpow.simps)
qed

section \<open>Clocking\<close>

text \<open>
C9: One clock increment returns (its carry loop ends) and is exact: the civil time in hundredths together
with the nanosecond phase grows by precisely the rounded phase increment, the calendar stays well formed
across second, minute, day, month, leap-year and year carries, the weekday stays in step with the day
number, and the phase ends below one hundredth.
\<close>
theorem nvram_increment_clock_exact:
  assumes "\<not> oscillator_off r" and "calendar_ok (now r)"
    and "0 \<le> dadd (sub_hundredth_ns r) ns" and "dadd (sub_hundredth_ns r) ns < 2 ^ 60"
  shows "\<exists>r'. nvram_increment_clock ns r = Some r' \<and>
    0 \<le> sub_hundredth_ns r' \<and> sub_hundredth_ns r' < hundredth_ns \<and>
    calendar_ok (now r') \<and> (weekday_ok (now r) \<longrightarrow> weekday_ok (now r')) \<and>
    of_int (total_hundredths (now r')) * hundredth_ns + sub_hundredth_ns r' =
      of_int (total_hundredths (now r)) * hundredth_ns + dadd (sub_hundredth_ns r) ns"
proof -
  let ?s = "dadd (sub_hundredth_ns r) ns"
  define k where "k = nat \<lfloor>?s / hundredth_ns\<rfloor>"
  have k: "int k = \<lfloor>?s / hundredth_ns\<rfloor>" using assms(3) by (simp add: k_def)
  have "of_int (int k) \<le> ?s / hundredth_ns" "?s / hundredth_ns < of_int (int k) + 1"
    unfolding k by linarith+
  then have b: "of_nat k * hundredth_ns \<le> ?s" "?s < of_nat k * hundredth_ns + hundredth_ns"
    by (simp_all add: field_simps)
  have "nvram_increment_clock ns r =
      Some (r\<lparr>sub_hundredth_ns := ?s - of_nat k * hundredth_ns, now := (tick_hundredth ^^ k) (now r)\<rparr>)"
    using assms drain_hundredths_eq [of "r\<lparr>sub_hundredth_ns := ?s\<rparr>"]
    by (simp add: nvram_increment_clock_def Let_def k_def)
  with b ticks_ok [OF assms(2), of k] show ?thesis by (simp add: algebra_simps)
qed

lemma quiet_count_le: "quiet_count n q x \<le> n"
  by (induction n arbitrary: x) (auto simp: Let_def)

lemma quiet_count_mono: "quiet_count n q x \<le> quiet_count (Suc n) q x"
  by (induction n arbitrary: x) (auto simp: Let_def)

lemma quiet_count_step:
  assumes "0 < quiet_count n q x"
  shows "dadd x q < hundredth_ns \<and> quiet_count n q x \<le> Suc (quiet_count n q (dadd x q))"
proof (cases n)
  case (Suc k)
  with assms have lt: "dadd x q < hundredth_ns" by (simp add: Let_def split: if_splits)
  then have "quiet_count n q x = Suc (quiet_count k q (dadd x q))" by (simp add: Suc Let_def)
  with lt quiet_count_mono [of k q "dadd x q"] show ?thesis by (simp add: Suc)
qed (use assms in simp)

definition clock_step :: "rat \<Rightarrow> PhantomClock option \<Rightarrow> PhantomClock option" where
  "clock_step q s = Option.bind s (nvram_increment_clock q)"

lemma oscillator_off_sub [simp]: "oscillator_off (r\<lparr>sub_hundredth_ns := x\<rparr>) = oscillator_off r"
  by (simp add: oscillator_off_def)

lemma quiet_step:
  assumes "0 < nvram_quiet_quanta m q r"
  shows "nvram_increment_clock q r = Some (nvram_advance_quiet 1 q r)"
  using assms quiet_count_step [of m q "sub_hundredth_ns r"]
  by (auto simp: nvram_quiet_quanta_def nvram_increment_clock_def nvram_advance_quiet_def
      drain_hundredths.simps [of "r\<lparr>sub_hundredth_ns := y\<rparr>" for y] split: if_splits)

interpretation nvram_quiet: quiet_device
  "\<lambda>s. s \<noteq> None" "clock_step q"
  "\<lambda>s. case s of None \<Rightarrow> 0 | Some r \<Rightarrow> nvram_quiet_quanta m q r"
  "\<lambda>n. map_option (nvram_advance_quiet n q)"
  for m q
proof (unfold_locales, goal_cases)
  case (1 s)
  then show ?case using quiet_step by (auto simp: clock_step_def)
next
  case (2 s)
  then obtain r where s: "s = Some r" by auto
  with 2 have p: "0 < nvram_quiet_quanta m q r" by simp
  then have "clock_step q s = Some (nvram_advance_quiet 1 q r)"
    using quiet_step by (simp add: clock_step_def s)
  then show ?case using p quiet_count_step [of m q "sub_hundredth_ns r"]
    by (simp add: s nvram_advance_quiet_def nvram_quiet_quanta_def split: if_splits)
next
  case (3 s)
  then show ?case by (auto simp: nvram_advance_quiet_def)
next
  case (4 s n)
  then obtain r where s: "s = Some r" by auto
  with 4 have "0 < nvram_quiet_quanta m q r" by simp
  then have "clock_step q s = Some (nvram_advance_quiet 1 q r)"
    using quiet_step by (simp add: clock_step_def s)
  then show ?case by (simp add: s nvram_advance_quiet_def funpow_Suc_front del: funpow.simps(2))
qed

text \<open>
For every number of quanta that \<open>nvram_quiet_quanta\<close> admits, the batched phase update leaves exactly
the state that the same number of \<open>nvram_increment_clock\<close> calls leaves, all of which return.
\<close>
theorem nvram_quiet_batch:
  assumes "n \<le> nvram_quiet_quanta maximum q r"
  shows "((\<lambda>s. Option.bind s (nvram_increment_clock q)) ^^ n) (Some r) = Some (nvram_advance_quiet n q r)"
  using nvram_quiet.batch_eq_steps [of "Some r" n maximum q] assms
  by (simp add: clock_step_def [abs_def])

theorem nvram_quiet_batch_witness:
  "2 \<le> nvram_quiet_quanta 2 1000 nvram_reset \<and>
   ((\<lambda>s. Option.bind s (nvram_increment_clock 1000)) ^^ 2) (Some nvram_reset) =
     Some (nvram_advance_quiet 2 1000 nvram_reset)"
proof -
  have d: "dadd 0 1000 = 1000" "dadd 1000 1000 = 2000"
    using round64_int [of 1000] round64_int [of 2000] by (simp_all add: dadd_def)
  have two: "(2 :: nat) = Suc (Suc 0)" by simp
  have "2 \<le> nvram_quiet_quanta 2 1000 nvram_reset"
    by (simp add: nvram_quiet_quanta_def nvram_reset_def latch_clock_registers_def Let_def d two)
  with nvram_quiet_batch [of 2 2 1000 nvram_reset] show ?thesis by blast
qed

section \<open>Register encoding\<close>

lemma bcd_masked:
  "n \<le> 12 \<Longrightarrow> bcd_decode (bcd_encode n AND 0x1F) = n"
  "n \<le> 31 \<Longrightarrow> bcd_decode (bcd_encode n AND 0x3F) = n"
  "n \<le> 59 \<Longrightarrow> bcd_decode (bcd_encode n AND 0x7F) = n"
proof -
  have "\<forall>n\<in>{..12}. bcd_decode (bcd_encode n AND 0x1F) = n" by code_simp
  then show "n \<le> 12 \<Longrightarrow> bcd_decode (bcd_encode n AND 0x1F) = n" by simp
  have "\<forall>n\<in>{..31}. bcd_decode (bcd_encode n AND 0x3F) = n" by code_simp
  then show "n \<le> 31 \<Longrightarrow> bcd_decode (bcd_encode n AND 0x3F) = n" by simp
  have "\<forall>n\<in>{..59}. bcd_decode (bcd_encode n AND 0x7F) = n" by code_simp
  then show "n \<le> 59 \<Longrightarrow> bcd_decode (bcd_encode n AND 0x7F) = n" by simp
qed

lemma hour_roundtrip: "h < 24 \<Longrightarrow> decode_hour (encode_hour m h) = h"
proof -
  have "\<forall>h\<in>{..<24}. decode_hour (encode_hour True h) = h" by code_simp
  moreover have "\<forall>h\<in>{..<24}. decode_hour (encode_hour False h) = h" by code_simp
  ultimately show "h < 24 \<Longrightarrow> decode_hour (encode_hour m h) = h" by (cases m) simp_all
qed

lemma weekday_bits: "unat w \<le> 7 \<Longrightarrow> (x AND 0x30 OR w) AND 7 = (w :: u8)"
proof -
  assume "unat w \<le> 7"
  then have "w = take_bit 3 w" by (simp add: word_unat_eq_iff unsigned_take_bit_eq take_bit_nat_eq_self)
  then have "\<not> bit w n" if "3 \<le> n" for n
    using that by (metis bit_take_bit_iff not_less)
  then show ?thesis by (simp add: bitwise8)
qed

lemma valid_calendar: "valid_time t \<longleftrightarrow> calendar_ok t \<and> 1970 \<le> year t \<and> year t \<le> 2069"
  by (auto simp: valid_time_def calendar_ok_def word_le_nat_alt word_less_nat_alt not_less not_le)

lemma year_roundtrip:
  assumes "1970 \<le> y" and "y \<le> 2069"
  shows "decode_year (bcd_encode (nat (y mod 100))) = y"
proof -
  have "y mod 100 = (if y < 2000 then y - 1900 else y - 2000)"
    using assms by (auto intro: int_mod_pos_eq [of _ _ 19] int_mod_pos_eq [of _ _ 20])
  with assms show ?thesis by (auto simp: decode_year_def Let_def bcd_small nat_less_iff)
qed

lemma latch_commit_roundtrip:
  assumes "valid_time (now r)"
  shows "now (commit_clock_registers (latch_clock_registers r)) = now r"
proof -
  define t where "t = now r"
  have ok: "calendar_ok t" and y: "1970 \<le> year t" "year t \<le> 2069"
    using assms by (simp_all add: valid_calendar t_def)
  have le: "unat (date t) \<le> 31" using ok days_in_month_le le_trans by (fastforce simp: calendar_ok_def)
  have yr: "decode_year (bcd_encode (nat (year t mod 100))) = year t" using y by (rule year_roundtrip)
  have "bounded n lo hi d = n" if "lo \<le> n" "n \<le> hi" for n lo hi d
    using that by (simp add: bounded_def)
  note b = this
  have f: "unat (month t) \<le> 12" "1 \<le> unat (month t)" "unat (minute t) \<le> 59" "unat (second t) \<le> 59"
    "unat (hundredth t) \<le> 99" "unat (hundredth t) < 100" "unat (hour t) < 24" "1 \<le> unat (date t)" "unat (date t) \<le> days_in_month (year t) (unat (month t))"
    "unat (weekday t) \<le> 7" "1 \<le> unat (weekday t)"
    using ok by (simp_all add: calendar_ok_def)
  have "now (commit_clock_registers (latch_clock_registers r)) = t"
    unfolding commit_clock_registers_def latch_clock_registers_def Let_def t_def [symmetric]
    using f le by (simp add: bcd_masked bcd_small b hour_roundtrip weekday_bits yr)
  then show ?thesis by (simp add: t_def)
qed

section \<open>Unlocking\<close>

lemma bit_shift_in: "bit (shift_in b w) n \<longleftrightarrow> n < 64 \<and> (if n = 0 then b else bit w (n - 1))"
  by (cases n) (auto simp only: shift_in_def bit_or_iff bit_push_bit_iff bit_of_bool_iff possible_bit_word, auto)

lemma bit_shift_fold:
  "bit (fold shift_in bs 0) n \<longleftrightarrow> n < 64 \<and> n < length bs \<and> rev bs ! n"
proof (induction bs arbitrary: n rule: rev_induct)
  case (snoc b bs)
  have step: "fold shift_in (bs @ [b]) 0 = shift_in b (fold shift_in bs 0)" by simp
  show ?case unfolding step bit_shift_in using snoc.IH [of "n - 1"] by (cases n) auto
qed simp

lemma key_bits_length: "length key_bits = 64"
  by (simp add: key_bits_def unlock_bytes_def)

lemma key_bits_first: "key_bits ! 0"
  by code_simp

lemma window_matches: "fold shift_in bs 0 = make_unlock_value \<longleftrightarrow> suffix key_bits bs"
proof
  assume eq: "fold shift_in bs 0 = make_unlock_value"
  have b: "(n < length bs \<and> rev bs ! n) = rev key_bits ! n" if "n < 64" for n
    using that eq bit_shift_fold [of bs n] bit_shift_fold [of key_bits n]
    by (simp add: make_unlock_value_def key_bits_length)
  have "rev key_bits ! 63"
    using key_bits_first key_bits_length by (simp add: rev_nth)
  then have "63 < length bs" using b [of 63] by simp
  then have "take 64 (rev bs) = rev key_bits"
    by (intro nth_equalityI) (use b in \<open>auto simp: key_bits_length\<close>)
  then show "suffix key_bits bs" by (metis suffix_to_prefix take_is_prefix)
next
  assume "suffix key_bits bs"
  then obtain xs where bs: "bs = xs @ key_bits" by (auto simp: suffix_def)
  show "fold shift_in bs 0 = make_unlock_value"
    unfolding make_unlock_value_def
    by (rule bit_word_eqI) (simp only: bit_shift_fold bs, simp add: key_bits_length nth_append)
qed

text \<open>Successive writes with given data bits; the address and the upper data bits are arbitrary.\<close>

fun write_all :: "(u16 \<times> u8) list \<Rightarrow> PhantomClock \<Rightarrow> PhantomClock" where
  "write_all [] r = r"
| "write_all ((a, v) # ws) r = write_all ws (nvram_set_byte a v r)"

lemma write_all_append: "write_all (xs @ ys) r = write_all ys (write_all xs r)"
  by (induction xs r rule: write_all.induct) simp_all

definition data_bits :: "(u16 \<times> u8) list \<Rightarrow> bool list" where
  "data_bits ws = map (\<lambda>(_, v). bit v 0) ws"

lemma locked_writes:
  assumes "\<not> transferring r" and "key_window r = fold shift_in bs 0" and "key_value r = make_unlock_value"
    and "\<And>n. 0 < n \<Longrightarrow> n \<le> length ws \<Longrightarrow> \<not> suffix key_bits (bs @ data_bits (take n ws))"
  shows "\<not> transferring (write_all ws r) \<and> key_window (write_all ws r) = fold shift_in (bs @ data_bits ws) 0 \<and>
    key_value (write_all ws r) = make_unlock_value \<and> now (write_all ws r) = now r \<and> transfer (write_all ws r) = transfer r"
  using assms
proof (induction ws arbitrary: r bs)
  case (Cons w ws)
  obtain a v where w: "w = (a, v)" by (cases w)
  let ?r = "nvram_set_byte a v r"
  have "\<not> suffix key_bits (bs @ [bit v 0])" using Cons.prems(4) [of 1] by (simp add: data_bits_def w)
  then have ne: "shift_in (bit v 0) (key_window r) \<noteq> make_unlock_value"
    using window_matches [of "bs @ [bit v 0]"] Cons.prems(2) by simp
  have r: "\<not> transferring ?r" "key_window ?r = fold shift_in (bs @ [bit v 0]) 0"
    "key_value ?r = make_unlock_value" "now ?r = now r" "transfer ?r = transfer r"
    using Cons.prems(1-3) ne by (simp_all add: nvram_set_byte_def observe_key_bit_def Let_def)
  have "\<not> suffix key_bits ((bs @ [bit v 0]) @ data_bits (take n ws))" if "0 < n" "n \<le> length ws" for n
    using Cons.prems(4) [of "Suc n"] that by (simp add: data_bits_def w)
  from Cons.IH [OF r(1,2,3) this] r(4,5) show ?case by (simp add: w data_bits_def)
qed (simp add: data_bits_def)

text \<open>
C11: From the locked idle state, a first transfer opens exactly when the data bits of the last 64 writes are
the comparison sequence: no shorter or different history of writes unlocks the clock.
\<close>
theorem unlock_exactly_on_key:
  assumes "\<not> transferring r" and "key_window r = 0" and "key_value r = make_unlock_value"
    and "\<And>n. n < length ws \<Longrightarrow> \<not> suffix key_bits (data_bits (take n ws))" and "ws \<noteq> []"
  shows "transferring (write_all ws r) \<longleftrightarrow> suffix key_bits (data_bits ws)"
proof -
  obtain vs a v where ws: "ws = vs @ [(a, v)]" using assms(5) by (metis append_butlast_last_id surj_pair)
  have "\<not> suffix key_bits ([] @ data_bits (take n vs))" if "0 < n" "n \<le> length vs" for n
    using assms(4) [of n] that by (simp add: ws)
  from locked_writes [of r "[]" vs, OF assms(1) _ assms(3) this] assms(2)
  have r: "\<not> transferring (write_all vs r)" "key_window (write_all vs r) = fold shift_in (data_bits vs) 0"
    "key_value (write_all vs r) = make_unlock_value" by simp_all
  have "data_bits ws = data_bits vs @ [bit v 0]" by (simp add: ws data_bits_def)
  with r window_matches [of "data_bits ws"] show ?thesis
    by (simp add: ws write_all_append nvram_set_byte_def observe_key_bit_def Let_def)
qed

section \<open>Serial transfer\<close>

fun read_all :: "u16 list \<Rightarrow> PhantomClock \<Rightarrow> u8 list \<times> PhantomClock" where
  "read_all [] r = ([], r)"
| "read_all (a # as) r =
     (let (v, r1) = nvram_get_byte a r; (vs, r2) = read_all as r1 in (v # vs, r2))"

definition register_bit :: "u8 list \<Rightarrow> nat \<Rightarrow> bool" where
  "register_bit tr k = bit (tr ! (k div 8)) (k mod 8)"

lemma and_1_drop: "drop_bit n (w :: u8) AND 1 = of_bool (bit w n)"
  by (simp add: and_one_eq bit_iff_odd_drop_bit odd_iff_mod_2_eq_one flip: mod_2_eq_odd)

lemma bit_index:
  assumes "k < 64"
  shows "unat (drop_bit 3 (of_nat k :: u8)) = k div 8" and "unat (of_nat k AND 7 :: u8) = k mod 8"
    and "unat (of_nat k :: u8) = k"
proof -
  show k: "unat (of_nat k :: u8) = k" using assms by (simp add: unat_of_nat)
  show "unat (drop_bit 3 (of_nat k :: u8)) = k div 8"
    by (simp add: drop_bit_eq_div unat_div k)
  have "of_nat k AND 7 = take_bit 3 (of_nat k :: u8)" by (simp add: take_bit_eq_mask mask_numeral)
  then show "unat (of_nat k AND 7 :: u8) = k mod 8" by (simp add: take_bit_eq_mod unat_mod k)
qed

lemma finish_before: "k < 63 \<Longrightarrow> transfer_bit r = of_nat k \<Longrightarrow>
    finish_transfer_bit r = r\<lparr>transfer_bit := of_nat (Suc k)\<rparr>"
proof -
  assume k: "k < 63" "transfer_bit r = of_nat k"
  have "unat (of_nat (Suc k) :: u8) \<noteq> unat (64 :: u8)"
    using k(1) by (subst bit_index(3)) simp_all
  then have "of_nat (Suc k) \<noteq> (64 :: u8)" by metis
  then show ?thesis by (simp add: finish_transfer_bit_def Let_def k(2) add.commute)
qed

definition close_transfer :: "PhantomClock \<Rightarrow> PhantomClock" where
  "close_transfer r = commit_clock_registers (r\<lparr>transferring := False, transfer_bit := 0, key_window := 0\<rparr>)"

lemma finish_last: "transfer_bit r = of_nat 63 \<Longrightarrow> finish_transfer_bit r = close_transfer r"
  by (simp add: finish_transfer_bit_def close_transfer_def Let_def)

lemma read_all_from:
  assumes "transferring r" and "transfer_bit r = of_nat k" and "k + length as = 64" and "as \<noteq> []"
  shows "read_all as r = (map (\<lambda>j. of_bool (register_bit (transfer r) j)) [k..<64], close_transfer r)"
  using assms
proof (induction as arbitrary: k r)
  case (Cons a as)
  have k: "k < 64" using Cons.prems by simp
  have get: "nvram_get_byte a r = (of_bool (register_bit (transfer r) k), finish_transfer_bit r)"
    using Cons.prems k by (simp add: nvram_get_byte_def Let_def bit_index and_1_drop register_bit_def)
  show ?case
  proof (cases "as = []")
    case True
    with Cons.prems have "k = 63" by simp
    with True get Cons.prems show ?thesis by (simp add: finish_last upt_rec)
  next
    case False
    then have k63: "k < 63" using Cons.prems by (cases as) simp_all
    let ?r = "r\<lparr>transfer_bit := of_nat (Suc k)\<rparr>"
    have fin: "finish_transfer_bit r = ?r" using k63 Cons.prems by (intro finish_before)
    have "read_all as ?r = (map (\<lambda>j. of_bool (register_bit (transfer ?r) j)) [Suc k..<64], close_transfer ?r)"
      by (rule Cons.IH) (use Cons.prems False in simp_all)
    moreover have "close_transfer ?r = close_transfer r" by (simp add: close_transfer_def)
    ultimately show ?thesis using get fin k by (simp add: upt_conv_Cons)
  qed
qed simp

lemma write_all_from:
  assumes "transferring r" and "transfer_bit r = of_nat k" and "k + length ws = 64" and "ws \<noteq> []"
    and "length (transfer r) = 8"
  shows "\<exists>tr. write_all ws r = close_transfer (r\<lparr>transfer := tr\<rparr>) \<and> length tr = 8 \<and>
    (\<forall>j<64. register_bit tr j = (if j < k then register_bit (transfer r) j else bit (snd (ws ! (j - k))) 0))"
  using assms
proof (induction ws arbitrary: k r)
  case (Cons w ws)
  obtain a v where w: "w = (a, v)" by (cases w)
  have k: "k < 64" using Cons.prems by simp
  let ?m = "push_bit (k mod 8) 1 :: u8"
  define tr1 where
    "tr1 = (transfer r)[k div 8 := (transfer r ! (k div 8) AND NOT ?m) OR (if bit v 0 then ?m else 0)]"
  have set: "nvram_set_byte a v r = finish_transfer_bit (r\<lparr>transfer := tr1\<rparr>)"
    using Cons.prems k by (simp add: nvram_set_byte_def Let_def bit_index tr1_def)
  have kd: "k div 8 < length (transfer r)" using k Cons.prems by simp
  have upd: "register_bit tr1 j = (if j = k then bit v 0 else register_bit (transfer r) j)" if "j < 64" for j
  proof (cases "j div 8 = k div 8")
    case True
    then have "j mod 8 = k mod 8 \<longleftrightarrow> j = k" by (metis mult_div_mod_eq)
    moreover have "j mod 8 < 8" by simp
    ultimately show ?thesis using True kd
      by (auto simp: register_bit_def tr1_def bit_simps simp del: mod_less_divisor split: if_splits)
  next
    case False
    then show ?thesis using kd by (auto simp: register_bit_def tr1_def)
  qed
  have len: "length tr1 = 8" using Cons.prems by (simp add: tr1_def)
  show ?case
  proof (cases "ws = []")
    case True
    with Cons.prems have "k = 63" by simp
    with True show ?thesis
      using Cons.prems upd len finish_last [of "r\<lparr>transfer := tr1\<rparr>"]
      by (intro exI [of _ tr1]) (auto simp: w set)
  next
    case False
    then have k63: "k < 63" using Cons.prems by (cases ws) simp_all
    let ?r = "r\<lparr>transfer := tr1, transfer_bit := of_nat (Suc k)\<rparr>"
    have fin: "finish_transfer_bit (r\<lparr>transfer := tr1\<rparr>) = ?r"
      using k63 Cons.prems finish_before [of k "r\<lparr>transfer := tr1\<rparr>"] by simp
    obtain tr where tr: "write_all ws ?r = close_transfer (?r\<lparr>transfer := tr\<rparr>)" "length tr = 8"
      "\<forall>j<64. register_bit tr j = (if j < Suc k then register_bit tr1 j else bit (snd (ws ! (j - Suc k))) 0)"
      using Cons.IH [of ?r "Suc k"] Cons.prems False len by auto
    have "close_transfer (?r\<lparr>transfer := tr\<rparr>) = close_transfer (r\<lparr>transfer := tr\<rparr>)"
      by (simp add: close_transfer_def)
    moreover have "\<forall>j<64. register_bit tr j = (if j < k then register_bit (transfer r) j else bit (snd ((w # ws) ! (j - k))) 0)"
      using tr(3) upd by (auto simp: w nth_Cons' less_Suc_eq)
    ultimately show ?thesis using tr(1,2) by (intro exI [of _ tr]) (simp add: w set fin)
  qed
qed simp

lemma bounded_range: "lo \<le> d \<Longrightarrow> d \<le> hi \<Longrightarrow> lo \<le> bounded v lo hi d \<and> bounded v lo hi d \<le> hi"
  by (simp add: bounded_def)

lemma decode_hour_less: "decode_hour h < 24"
  using bounded_range [of 1 12 12 "bcd_decode (h AND 0x1F)"] bounded_range [of 0 0 23 "bcd_decode (h AND 0x3F)"]
  by (auto simp: decode_hour_def Let_def)

lemma decode_year_range: "1970 \<le> decode_year v \<and> decode_year v \<le> 2069"
proof -
  have "v AND 0x0F \<le> 0x0F" by (rule word_and_le1)
  then have "unat (v AND 0x0F) \<le> 15" by (simp add: word_le_nat_alt)
  moreover have "unat (drop_bit 4 v) \<le> 15"
    using u8_less [of v] by (simp add: drop_bit_eq_div unat_div)
  ultimately have "bcd_decode v \<le> 165" by (simp add: bcd_decode_def)
  then show ?thesis by (auto simp: decode_year_def Let_def)
qed

lemma unat_of_nat_u8: "n < 256 \<Longrightarrow> unat (of_nat n :: u8) = n"
  by (simp add: unat_of_nat)

lemma bounded_u8:
  "hi < 256 \<Longrightarrow> d \<le> hi \<Longrightarrow> unat (of_nat (bounded v lo hi d) :: u8) = bounded v lo hi d"
  by (rule unat_of_nat_u8) (simp add: bounded_def)

lemma commit_valid: "valid_time (now (commit_clock_registers r))"
proof -
  have lt: "days_in_month y m < 256" for y m using days_in_month_le [of y m] by simp
  have h: "unat (of_nat (decode_hour v) :: u8) = decode_hour v" for v
    using decode_hour_less [of v] by (intro unat_of_nat_u8) simp
  have d: "Suc 0 \<le> days_in_month y k" for y k using days_in_month_pos [of y k] by simp
  have "calendar_ok (now (commit_clock_registers r))"
    unfolding calendar_ok_def commit_clock_registers_def Let_def
    by (simp add: bounded_u8 lt d h decode_hour_less bounded_range less_Suc_eq_le [of _ 59, simplified]
        less_Suc_eq_le [of _ 99, simplified])
  then show ?thesis
    using decode_year_range by (simp add: valid_calendar commit_clock_registers_def Let_def)
qed

text \<open>
C12: In an open transfer, 64 writes load the eight registers bit by bit, least significant bit first, close
the transfer and set the clock; whatever bytes were written, the resulting time is valid.
\<close>
theorem clock_set_by_serial_write:
  assumes "transferring r" and "transfer_bit r = 0" and "length (transfer r) = 8" and "length ws = 64"
  shows "\<exists>tr. length tr = 8 \<and> (\<forall>j<64. register_bit tr j = bit (snd (ws ! j)) 0) \<and>
    write_all ws r = close_transfer (r\<lparr>transfer := tr\<rparr>) \<and> valid_time (now (write_all ws r))"
proof -
  have "ws \<noteq> []" using assms by auto
  then obtain tr where "write_all ws r = close_transfer (r\<lparr>transfer := tr\<rparr>)" "length tr = 8"
    "\<forall>j<64. register_bit tr j = bit (snd (ws ! j)) 0"
    using write_all_from [of r 0 ws] assms by auto
  then show ?thesis by (auto simp: close_transfer_def commit_valid)
qed

lemma key_opens:
  assumes "\<not> transferring r" and "key_window r = 0" and "key_value r = make_unlock_value"
    and "data_bits ws = key_bits"
  shows "\<exists>r1. write_all ws r = r1 \<and> transferring r1 \<and> transfer_bit r1 = 0 \<and> now r1 = now r \<and>
    transfer r1 = transfer (latch_clock_registers r)"
proof -
  have len: "length ws = 64" using assms(4) key_bits_length by (metis data_bits_def length_map)
  then obtain vs a v where ws: "ws = vs @ [(a, v)]"
    by (metis append_butlast_last_id list.size(3) surj_pair zero_neq_numeral)
  have short: "\<not> suffix key_bits ([] @ data_bits (take n vs))" for n
  proof
    assume "suffix key_bits ([] @ data_bits (take n vs))"
    then have "64 \<le> length (take n vs)"
      using suffix_length_le key_bits_length by (fastforce simp: data_bits_def)
    then show False using len by (simp add: ws)
  qed
  have locked: "\<not> transferring (write_all vs r)" "key_window (write_all vs r) = fold shift_in (data_bits vs) 0"
    "key_value (write_all vs r) = make_unlock_value" "now (write_all vs r) = now r"
    "transfer (write_all vs r) = transfer r"
    using locked_writes [of r "[]" vs, OF assms(1) _ assms(3) short] assms(2) by simp_all
  have "data_bits vs @ [bit v 0] = key_bits" using assms(4) by (simp add: ws data_bits_def)
  then have "shift_in (bit v 0) (key_window (write_all vs r)) = make_unlock_value"
    unfolding locked make_unlock_value_def by (metis fold_append fold_simps comp_apply)
  then show ?thesis
    using locked
    by (simp add: ws write_all_append nvram_set_byte_def observe_key_bit_def latch_clock_registers_def Let_def)
qed

text \<open>
C10: Presenting the comparison sequence through any 64 SRAM writes and then reading 64 times returns the eight
BCD clock registers, least significant bit first, closes the transfer, and leaves the civil time unchanged.
\<close>
theorem clock_readout:
  assumes "\<not> transferring r" and "key_window r = 0" and "key_value r = make_unlock_value"
    and "valid_time (now r)" and "data_bits ws = key_bits" and "length as = 64"
  shows "\<exists>r'. read_all as (write_all ws r) =
      (map (\<lambda>j. of_bool (register_bit (transfer (latch_clock_registers r)) j)) [0..<64], r') \<and>
    \<not> transferring r' \<and> now r' = now r"
proof -
  obtain r1 where r1: "write_all ws r = r1" "transferring r1" "transfer_bit r1 = 0" "now r1 = now r"
    "transfer r1 = transfer (latch_clock_registers r)"
    using key_opens [OF assms(1,2,3,5)] by blast
  have "as \<noteq> []" using assms(6) by auto
  then have "read_all as r1 =
      (map (\<lambda>j. of_bool (register_bit (transfer r1) j)) [0..<64], close_transfer r1)"
    using read_all_from [of r1 0 as] r1 assms(6) by simp
  moreover have "now (close_transfer r1) = now (commit_clock_registers (latch_clock_registers r))"
    by (simp add: close_transfer_def commit_clock_registers_def r1(5) Let_def)
  moreover have "\<not> transferring (close_transfer r1)"
    by (simp add: close_transfer_def commit_clock_registers_def Let_def)
  ultimately show ?thesis using latch_commit_roundtrip [OF assms(4)] r1 by simp
qed

section \<open>Concrete runs\<close>

definition key_writes :: "(u16 \<times> u8) list" where
  "key_writes = map (\<lambda>b. (0, of_bool b)) key_bits"

lemma key_writes_bits: "data_bits key_writes = key_bits"
  by (simp add: key_writes_def data_bits_def comp_def)

lemma reset_locked:
  "\<not> transferring nvram_reset" "key_window nvram_reset = 0" "key_value nvram_reset = make_unlock_value"
  "now nvram_reset = reset_time" "length (transfer nvram_reset) = 8" "sub_hundredth_ns nvram_reset = 0"
  "\<not> oscillator_off nvram_reset" "transfer_bit nvram_reset = 0"
  by (simp_all add: nvram_reset_def latch_clock_registers_def Let_def oscillator_off_def reset_time_def)

lemma reset_time_valid: "valid_time reset_time" "calendar_ok reset_time" "weekday_ok reset_time"
  by code_simp+

theorem nvram_increment_clock_exact_witness:
  "\<exists>r'. nvram_increment_clock 20000000 nvram_reset = Some r' \<and>
     total_hundredths (now r') * 10000000 + \<lfloor>sub_hundredth_ns r'\<rfloor> = total_hundredths reset_time * 10000000 + 20000000"
proof -
  have d: "dadd 0 20000000 = 20000000" using round64_int [of 20000000] by (simp add: dadd_def)
  obtain r' where r': "nvram_increment_clock 20000000 nvram_reset = Some r'"
    "of_int (total_hundredths (now r')) * hundredth_ns + sub_hundredth_ns r' =
      of_int (total_hundredths reset_time) * hundredth_ns + (20000000 :: rat)"
    using nvram_increment_clock_exact [of nvram_reset 20000000] reset_locked reset_time_valid d by auto
  then have "sub_hundredth_ns r' = of_int ((total_hundredths reset_time - total_hundredths (now r')) * 10000000 + 20000000)"
    by (simp add: algebra_simps)
  then show ?thesis using r'(1) by (intro exI [of _ r']) (simp only: floor_of_int, simp)
qed

theorem unlock_exactly_on_key_witness: "transferring (write_all key_writes nvram_reset)"
proof -
  have len: "length key_writes = 64" by (simp add: key_writes_def key_bits_length)
  have "\<not> suffix key_bits (data_bits (take n key_writes))" if "n < length key_writes" for n
    using that len suffix_length_le [of key_bits "data_bits (take n key_writes)"] key_bits_length
    by (auto simp: data_bits_def)
  moreover have "key_writes \<noteq> []" using len by auto
  ultimately show ?thesis
    using unlock_exactly_on_key [of nvram_reset key_writes] reset_locked key_writes_bits by simp
qed

theorem clock_set_by_serial_write_witness:
  "valid_time (now (write_all (replicate 64 (0, 1)) (nvram_reset\<lparr>transferring := True\<rparr>)))"
  using clock_set_by_serial_write [of "nvram_reset\<lparr>transferring := True\<rparr>" "replicate 64 (0, 1)"] reset_locked
  by auto

theorem clock_readout_witness:
  "now (snd (read_all (replicate 64 7) (write_all key_writes nvram_reset))) = reset_time"
  using clock_readout [of nvram_reset key_writes "replicate 64 7"] reset_locked reset_time_valid key_writes_bits
  by auto

end
