(* ===== verification/Ring_Buffer.thy ===== *)
theory Ring_Buffer
  imports Cdi_Prelude
begin

unbundle bit_operations_syntax

text \<open>
  Single-producer single-consumer rings with free-running 32-bit indices, as the host input queue and the
  PCM queue use them: the slot of an index is the index modulo a power of two, the fill level is the
  wrapped difference of the indices. The locale \<open>bounded_queue\<close> is the contract both rings meet, and its
  lemma \<open>run_refines\<close> the refinement to an abstract FIFO that refuses a push when full.
\<close>

section \<open>Contents of a ring\<close>

definition ring_items :: "u32 \<Rightarrow> (u32 \<Rightarrow> 'a) \<Rightarrow> u32 \<Rightarrow> u32 \<Rightarrow> 'a list" where
  "ring_items cap buf r w = map (\<lambda>i. buf ((r + of_nat i) mod cap)) [0..<unat (w - r)]"

lemma length_ring_items [simp]: "length (ring_items cap buf r w) = unat (w - r)"
  by (simp add: ring_items_def)

lemma ring_empty [simp]: "ring_items cap buf r r = []"
  by (simp add: ring_items_def)

lemma unat_slot:
  assumes "k < 32"
  shows "unat ((r + of_nat i :: u32) mod 2 ^ k) = (unat r + i) mod 2 ^ k"
proof -
  have dvd: "(2 :: nat) ^ k dvd 2 ^ 32" using assms by (intro le_imp_power_dvd) simp
  have "(2 :: nat) ^ k < 2 ^ 32" using assms by (intro power_strict_increasing) simp_all
  then have "unat (of_nat (2 ^ k) :: u32) = 2 ^ k" by (subst unat_of_nat) simp
  then have p: "unat (2 ^ k :: u32) = 2 ^ k" by simp
  have "unat (r + of_nat i :: u32) = (unat r + i) mod 2 ^ 32"
    by (simp add: unat_word_ariths unat_of_nat mod_simps)
  then show ?thesis unfolding unat_mod p using mod_mod_cancel [OF dvd] by simp
qed

lemma slots_distinct:
  assumes "k < 32" and "i < n" and "n < 2 ^ k"
  shows "(r + of_nat i) mod 2 ^ k \<noteq> (r + of_nat n :: u32) mod 2 ^ k"
proof
  assume "(r + of_nat i) mod 2 ^ k = (r + of_nat n :: u32) mod 2 ^ k"
  then have "(unat r + i) mod 2 ^ k = (unat r + n) mod 2 ^ k"
    using unat_slot [OF assms(1)] by metis
  then have "2 ^ k dvd unat r + n - (unat r + i)"
    using assms(2) mod_eq_dvd_iff_nat [of "unat r + i" "unat r + n" "2 ^ k"] by simp
  then have "2 ^ k dvd n - i" by simp
  then show False using assms(2,3) by (auto dest: dvd_imp_le)
qed

lemma ring_push:
  assumes "k < 32" and "unat (w - r) < 2 ^ k"
  shows "ring_items (2 ^ k) (buf(w mod 2 ^ k := x)) r (w + 1) = ring_items (2 ^ k) buf r w @ [x]"
proof -
  let ?n = "unat (w - r)"
  have w: "w = r + of_nat ?n" by simp
  have "(2 :: nat) ^ k \<le> 2 ^ 31" using assms(1) by (intro power_increasing) simp_all
  with assms(2) have n: "?n < 2 ^ 31" by linarith
  have "w + 1 - r = (w - r) + 1" by simp
  then have len: "unat (w + 1 - r) = Suc ?n" using n by (simp only: unat_word_ariths) simp
  have "(r + of_nat i) mod 2 ^ k \<noteq> w mod 2 ^ k" if "i < ?n" for i
    using slots_distinct [OF assms(1) that assms(2), of r] by simp
  then show ?thesis
    unfolding ring_items_def len by (auto simp: fun_upd_def)
qed

lemma ring_pop:
  assumes "r \<noteq> w"
  shows "ring_items cap buf r w = buf (r mod cap) # ring_items cap buf (r + 1) w"
proof -
  have "unat (w - r) \<noteq> 0" using assms by (simp add: unat_eq_zero)
  then obtain n where n: "unat (w - r) = Suc n" by (cases "unat (w - r)") auto
  have "unat (w - (r + 1)) = n"
  proof -
    have "w - (r + 1) = (w - r) - 1" by simp
    then show ?thesis using n by (simp only: unat_minus_one [of "w - r"]) (metis diff_Suc_1 n unat_0 nat.distinct(1) unat_minus_one)
  qed
  then show ?thesis
    by (simp add: ring_items_def n upt_conv_Cons add.assoc map_Suc_upt [symmetric] del: upt_Suc)
qed

section \<open>The queue contract\<close>

text \<open>Operations of a run: \<open>Some x\<close> offers \<open>x\<close>, \<open>None\<close> takes the oldest element.\<close>

definition fifo_step :: "nat \<Rightarrow> 'a option \<Rightarrow> 'a list \<Rightarrow> 'a list" where
  "fifo_step cap op xs =
     (case op of None \<Rightarrow> tl xs | Some x \<Rightarrow> if length xs < cap then xs @ [x] else xs)"

definition queue_step :: "('a \<Rightarrow> 's \<Rightarrow> 's) \<Rightarrow> ('s \<Rightarrow> 's) \<Rightarrow> 'a option \<Rightarrow> 's \<Rightarrow> 's" where
  "queue_step push pop op s = (case op of None \<Rightarrow> pop s | Some x \<Rightarrow> push x s)"

locale bounded_queue =
  fixes items :: "'s \<Rightarrow> 'a list"
    and push :: "'a \<Rightarrow> 's \<Rightarrow> 's"
    and pop :: "'s \<Rightarrow> 's"
    and cap :: nat
  assumes items_push: "length (items s) \<le> cap \<Longrightarrow>
      items (push x s) = (if length (items s) < cap then items s @ [x] else items s)"
    and items_pop: "length (items s) \<le> cap \<Longrightarrow> items (pop s) = tl (items s)"
begin

lemma step_refines:
  "length (items s) \<le> cap \<Longrightarrow> items (queue_step push pop op s) = fifo_step cap op (items s)"
  by (cases op) (simp_all add: queue_step_def fifo_step_def items_push items_pop)

lemma fifo_step_bound: "length xs \<le> cap \<Longrightarrow> length (fifo_step cap op xs) \<le> cap"
  by (cases op) (auto simp: fifo_step_def)

lemma run_refines:
  "length (items s) \<le> cap \<Longrightarrow>
     items (fold (queue_step push pop) ops s) = fold (fifo_step cap) ops (items s) \<and>
     length (items (fold (queue_step push pop) ops s)) \<le> cap"
proof (induction ops arbitrary: s)
  case (Cons op ops)
  have "length (items (queue_step push pop op s)) \<le> cap"
    using Cons.prems step_refines [of s op] fifo_step_bound [of "items s" op] by simp
  from Cons.IH [OF this] step_refines [OF Cons.prems, of op] show ?case by (metis fold_simps(2))
qed simp

end

end
