(* ===== verification/Host_Input.thy ===== *)
theory Host_Input
  imports Ring_Buffer
begin

unbundle bit_operations_syntax

text \<open>
  Host input (\<^verbatim>\<open>runner/src/cdi_input.c\<close>): the button masks of the two producers, the relative pointer
  accumulators and the queue of mouse-button edges. Every access in the C code is an atomic operation; an
  operation here is one such access sequence with its compare-exchange loop taken at the iteration that
  succeeds. \<^verbatim>\<open>int\<close> values are integers with the 32-bit limits written out.
\<close>

abbreviation (input) "CDI_INPUT_LEFT \<equiv> 0x01 :: u32"
abbreviation (input) "CDI_INPUT_UP \<equiv> 0x02 :: u32"
abbreviation (input) "CDI_INPUT_RIGHT \<equiv> 0x04 :: u32"
abbreviation (input) "CDI_INPUT_DOWN \<equiv> 0x08 :: u32"
abbreviation (input) "CDI_INPUT_BTN1 \<equiv> 0x10 :: u32"
abbreviation (input) "CDI_INPUT_BTN2 \<equiv> 0x20 :: u32"
abbreviation (input) "INT_MAX \<equiv> 2147483647 :: int"
abbreviation (input) "INT_MIN \<equiv> - 2147483648 :: int"

record host_input =
  base_input :: u32
  frontend_input :: u32
  mouse_physical_buttons :: u32
  mouse_button_queue :: "u32 \<Rightarrow> u32"
  mouse_button_read :: u32
  mouse_button_write :: u32
  relative_x :: int
  relative_y :: int
  mouse_enabled :: bool
  mouse_focused :: bool

definition allowed_input :: u32 where
  "allowed_input = CDI_INPUT_LEFT OR CDI_INPUT_UP OR CDI_INPUT_RIGHT OR CDI_INPUT_DOWN OR
     CDI_INPUT_BTN1 OR CDI_INPUT_BTN2"

definition saturating_add :: "int \<Rightarrow> int \<Rightarrow> int" where
  "saturating_add before delta =
     (if delta > 0 \<and> before > INT_MAX - delta then INT_MAX
      else if delta < 0 \<and> before < INT_MIN - delta then INT_MIN
      else before + delta)"

text \<open>\<open>take_axis\<close> returns the amount taken and what stays queued.\<close>

definition take_axis :: "int \<Rightarrow> int \<Rightarrow> int \<Rightarrow> int \<times> int" where
  "take_axis before low high =
     (let amount = (if before < low then low else if before > high then high else before)
      in (amount, before - amount))"

definition cdi_input_reset :: "host_input \<Rightarrow> host_input" where
  "cdi_input_reset s =
     s\<lparr>base_input := 0, frontend_input := 0, mouse_physical_buttons := 0, mouse_button_read := 0,
       mouse_button_write := 0, relative_x := 0, relative_y := 0, mouse_enabled := False,
       mouse_focused := False\<rparr>"

definition cdi_input_set :: "u32 \<Rightarrow> host_input \<Rightarrow> host_input" where
  "cdi_input_set msk s = s\<lparr>base_input := msk AND allowed_input\<rparr>"

definition cdi_input_set_frontend :: "u32 \<Rightarrow> host_input \<Rightarrow> host_input" where
  "cdi_input_set_frontend msk s = s\<lparr>frontend_input := msk AND allowed_input\<rparr>"

definition cdi_input_get :: "host_input \<Rightarrow> u32" where
  "cdi_input_get s =
     (let result = base_input s OR frontend_input s;
          buttons = (if mouse_button_read s \<noteq> mouse_button_write s
                     then mouse_button_queue s (mouse_button_read s mod 256)
                     else mouse_physical_buttons s)
      in (result OR buttons) AND allowed_input)"

definition cdi_input_add_relative :: "int \<Rightarrow> int \<Rightarrow> host_input \<Rightarrow> host_input" where
  "cdi_input_add_relative x y s =
     s\<lparr>relative_x := saturating_add (relative_x s) x, relative_y := saturating_add (relative_y s) y\<rparr>"

definition cdi_input_clear_relative :: "host_input \<Rightarrow> host_input" where
  "cdi_input_clear_relative s = s\<lparr>relative_x := 0, relative_y := 0\<rparr>"

definition cdi_input_take_relative ::
  "int \<Rightarrow> int \<Rightarrow> int \<Rightarrow> int \<Rightarrow> host_input \<Rightarrow> (int \<times> int) \<times> host_input" where
  "cdi_input_take_relative min_x max_x min_y max_y s =
     (let (x, rx) = take_axis (relative_x s) min_x max_x;
          (y, ry) = take_axis (relative_y s) min_y max_y
      in ((x, y), s\<lparr>relative_x := rx, relative_y := ry\<rparr>))"

definition cdi_input_mouse_active :: "host_input \<Rightarrow> bool" where
  "cdi_input_mouse_active s \<longleftrightarrow> mouse_enabled s \<and> mouse_focused s"

text \<open>The tail of \<open>cdi_input_mouse_button\<close>: publish the new button state unless the queue is full.\<close>

definition queue_buttons :: "u32 \<Rightarrow> host_input \<Rightarrow> host_input" where
  "queue_buttons after s =
     (let w = mouse_button_write s; r = mouse_button_read s
      in if w - r \<ge> 256 then s
         else s\<lparr>mouse_button_queue := (mouse_button_queue s)(w mod 256 := after), mouse_button_write := w + 1\<rparr>)"

definition cdi_input_mouse_button :: "int \<Rightarrow> bool \<Rightarrow> host_input \<Rightarrow> host_input" where
  "cdi_input_mouse_button button pressed s =
     (let b = (if button = 1 then CDI_INPUT_BTN1 else if button = 2 then CDI_INPUT_BTN2 else 0);
          before = mouse_physical_buttons s;
          after = (if pressed then before OR b else before AND NOT b)
      in if b = 0 then s
         else if pressed \<and> \<not> cdi_input_mouse_active s then s
         else if after = before then s
         else queue_buttons after (s\<lparr>mouse_physical_buttons := after\<rparr>))"

definition release_mouse_state :: "host_input \<Rightarrow> host_input" where
  "release_mouse_state s =
     cdi_input_clear_relative
       (if mouse_physical_buttons s \<noteq> 0
        then cdi_input_mouse_button 2 False (cdi_input_mouse_button 1 False s) else s)"

definition cdi_input_mouse_configure :: "bool \<Rightarrow> host_input \<Rightarrow> host_input" where
  "cdi_input_mouse_configure enabled s =
     (let s1 = s\<lparr>mouse_enabled := enabled\<rparr> in if \<not> enabled then release_mouse_state s1 else s1)"

definition cdi_input_mouse_focus :: "bool \<Rightarrow> host_input \<Rightarrow> host_input" where
  "cdi_input_mouse_focus focused s =
     (let s1 = s\<lparr>mouse_focused := focused\<rparr> in if \<not> focused then release_mouse_state s1 else s1)"

definition cdi_input_mouse_motion :: "int \<Rightarrow> int \<Rightarrow> host_input \<Rightarrow> host_input" where
  "cdi_input_mouse_motion x y s =
     (if cdi_input_mouse_active s then cdi_input_add_relative x y s else s)"

definition cdi_input_acknowledge_mouse_buttons :: "host_input \<Rightarrow> host_input" where
  "cdi_input_acknowledge_mouse_buttons s =
     (if mouse_button_read s \<noteq> mouse_button_write s
      then s\<lparr>mouse_button_read := mouse_button_read s + 1\<rparr> else s)"

section \<open>The edge queue is a bounded FIFO\<close>

definition button_edges :: "host_input \<Rightarrow> u32 list" where
  "button_edges s = ring_items 256 (mouse_button_queue s) (mouse_button_read s) (mouse_button_write s)"

interpretation buttons: bounded_queue button_edges queue_buttons cdi_input_acknowledge_mouse_buttons 256
proof (unfold_locales, goal_cases)
  case (1 s x)
  let ?d = "mouse_button_write s - mouse_button_read s"
  show ?case
  proof (cases "unat ?d < 256")
    case True
    then have "\<not> ?d \<ge> 256" by (simp add: word_le_nat_alt)
    with True show ?thesis
      using ring_push [of 8 "mouse_button_write s" "mouse_button_read s" "mouse_button_queue s" x]
      by (simp add: button_edges_def queue_buttons_def Let_def)
  next
    case False
    then have "?d \<ge> 256" by (simp add: word_le_nat_alt)
    with False show ?thesis by (simp add: button_edges_def queue_buttons_def Let_def)
  qed
next
  case (2 s)
  show ?case
    using ring_pop [of "mouse_button_read s" "mouse_button_write s" 256 "mouse_button_queue s"]
    by (cases "mouse_button_read s = mouse_button_write s")
      (simp_all add: button_edges_def cdi_input_acknowledge_mouse_buttons_def)
qed

text \<open>The state reported to the guest: the oldest unacknowledged edge, or the physical buttons.\<close>

lemma get_reports_oldest:
  "cdi_input_get s = (base_input s OR frontend_input s OR
     (case button_edges s of [] \<Rightarrow> mouse_physical_buttons s | b # _ \<Rightarrow> b)) AND allowed_input"
  using ring_pop [of "mouse_button_read s" "mouse_button_write s" 256 "mouse_button_queue s"]
  by (cases "mouse_button_read s = mouse_button_write s")
    (simp_all add: cdi_input_get_def button_edges_def Let_def or.assoc)

text \<open>
C15: The mouse-button ring with its wrapping 32-bit indices behaves, under every sequence of queued edges and
acknowledgements, as a FIFO of capacity 256 that refuses an edge when full; it never holds more than 256.
\<close>
theorem mouse_buttons_fifo:
  assumes "length (button_edges s) \<le> 256"
  shows "button_edges (fold (queue_step queue_buttons cdi_input_acknowledge_mouse_buttons) ops s) =
      fold (fifo_step 256) ops (button_edges s) \<and>
    length (button_edges (fold (queue_step queue_buttons cdi_input_acknowledge_mouse_buttons) ops s)) \<le> 256"
  using buttons.run_refines [OF assms] .

definition idle_input :: host_input where
  "idle_input = \<lparr>base_input = 0, frontend_input = 0, mouse_physical_buttons = 0,
     mouse_button_queue = (\<lambda>_. 0), mouse_button_read = 0xFFFFFFFF, mouse_button_write = 0xFFFFFFFF,
     relative_x = 0, relative_y = 0, mouse_enabled = True, mouse_focused = True\<rparr>"

theorem mouse_buttons_fifo_witness:
  "button_edges (fold (queue_step queue_buttons cdi_input_acknowledge_mouse_buttons)
     [Some 0x10, Some 0x30, None, Some 0] idle_input) = [0x30, 0]"
  using mouse_buttons_fifo [of idle_input "[Some 0x10, Some 0x30, None, Some 0]"]
  by (simp add: idle_input_def button_edges_def fifo_step_def)

section \<open>Relative motion\<close>

lemma take_axis_conserves: "take_axis b lo hi = (a, r) \<Longrightarrow> a + r = b"
  by (auto simp: take_axis_def Let_def)

lemma take_axis_range: "lo \<le> hi \<Longrightarrow> lo \<le> fst (take_axis b lo hi) \<and> fst (take_axis b lo hi) \<le> hi"
  by (auto simp: take_axis_def Let_def)

lemma saturating_add_range:
  "INT_MIN \<le> b \<Longrightarrow> b \<le> INT_MAX \<Longrightarrow> INT_MIN \<le> saturating_add b d \<and> saturating_add b d \<le> INT_MAX"
  by (auto simp: saturating_add_def)

lemma saturating_add_exact:
  "INT_MIN \<le> b + d \<Longrightarrow> b + d \<le> INT_MAX \<Longrightarrow> saturating_add b d = b + d"
  by (auto simp: saturating_add_def)

end
