(* ===== verification/Xa_Audio.thy ===== *)
theory Xa_Audio
  imports Ring_Buffer
begin

unbundle bit_operations_syntax

text \<open>
  The CD-i/XA ADPCM decoder and its PCM queue (\<^verbatim>\<open>runner/src/cdi_audio.c\<close>). 32-bit intermediates are
  integers (their range is proved to stay within 32 bits); \<^verbatim>\<open>>>\<close> on a negative \<^verbatim>\<open>int32_t\<close> is the arithmetic
  shift, \<open>drop_bit\<close> on integers. A sector buffer is a byte list of its fixed length.
\<close>

section \<open>State\<close>

type_synonym pcm_frame = "int \<times> int"

record CdiAudio =
  previous :: "nat \<Rightarrow> int \<times> int"
  pcm_ring :: "u32 \<Rightarrow> pcm_frame"
  write_index :: u32
  read_index :: u32
  sectors :: u64
  sample_frames :: u64
  pcm_hash :: u64
  dropped_frames :: u64

definition clamp_sample :: "int \<Rightarrow> int" where
  "clamp_sample v = (if v > 32767 then 32767 else if v < - 32768 then - 32768 else v)"

definition xa_filter :: "(int \<times> int) list" where
  "xa_filter = [(0, 0), (60, 0), (115, - 52), (98, - 55)]"

definition xa_predict :: "int \<times> int \<Rightarrow> nat \<Rightarrow> int" where
  "xa_predict p index = drop_bit 6 (fst p * fst (xa_filter ! index) + snd p * snd (xa_filter ! index) + 32)"

definition decode_sample :: "int \<Rightarrow> u8 \<Rightarrow> nat \<Rightarrow> bool \<Rightarrow> CdiAudio \<Rightarrow> int \<times> CdiAudio" where
  "decode_sample source parameter channel eight_bit a =
     (let sh0 = unat (parameter AND 15); ix0 = unat (drop_bit 4 parameter);
          sh = (if sh0 > 12 then 12 else sh0);
          ix = (if ix0 > 3 then 0 else ix0);
          p = previous a channel;
          scaled = drop_bit sh (source * 2 ^ (if eight_bit then 8 else 12));
          decoded = clamp_sample (scaled + xa_predict p ix)
      in (decoded, a\<lparr>previous := (previous a)(channel := (decoded, fst p))\<rparr>))"

definition fnv_prime :: u64 where
  "fnv_prime = 0x100000001B3"

definition hash_sample :: "int \<Rightarrow> u64 \<Rightarrow> u64" where
  "hash_sample sample h =
     (let bits = (word_of_int sample :: u16);
          h1 = (h XOR ucast (ucast bits :: u8)) * fnv_prime
      in (h1 XOR ucast (ucast (drop_bit 8 bits) :: u8)) * fnv_prime)"

section \<open>The PCM queue\<close>

definition push_frame :: "pcm_frame \<Rightarrow> CdiAudio \<Rightarrow> CdiAudio" where
  "push_frame f a =
     (let w = write_index a; r = read_index a
      in if w - r \<ge> 0x20000 then a
         else a\<lparr>pcm_ring := (pcm_ring a)(w AND 0x1FFFF := f), write_index := w + 1\<rparr>)"

text \<open>Hash, frame count and dropped count are locals of \<open>cdi_audio_decode_groups\<close>, passed by reference.\<close>

type_synonym emit_state = "CdiAudio \<times> u64 \<times> u64 \<times> u64"

definition emit_copy :: "pcm_frame \<Rightarrow> emit_state \<Rightarrow> emit_state" where
  "emit_copy f = (\<lambda>(a, hash, frames, dropped).
     let hash' = hash_sample (snd f) (hash_sample (fst f) hash);
         full = write_index a - read_index a \<ge> 0x20000
     in (push_frame f a, hash', frames + 1, if full then dropped + 1 else dropped))"

definition emit_frame :: "bool \<Rightarrow> pcm_frame \<Rightarrow> emit_state \<Rightarrow> emit_state" where
  "emit_frame duplicate f = emit_copy f ^^ (if duplicate then 2 else 1)"

definition cdi_audio_reset :: "CdiAudio \<Rightarrow> CdiAudio" where
  "cdi_audio_reset a =
     a\<lparr>previous := (\<lambda>_. (0, 0)), write_index := 0, read_index := 0, sectors := 0, sample_frames := 0,
       pcm_hash := 0xCBF29CE484222325, dropped_frames := 0\<rparr>"

section \<open>Sound groups\<close>

definition xa_source :: "bool \<Rightarrow> nat \<Rightarrow> u8 \<Rightarrow> int" where
  "xa_source eight_bit unit packed =
     (if eight_bit then sint packed
      else
        let nibble = (if odd unit then drop_bit 4 packed else packed AND 15)
        in if nibble AND 8 \<noteq> 0 then uint nibble - 16 else uint nibble)"

text \<open>The sample loop of one sound unit; \<open>k\<close> samples remain.\<close>

fun decode_unit :: "u8 list \<Rightarrow> nat \<Rightarrow> nat \<Rightarrow> bool \<Rightarrow> nat \<Rightarrow> CdiAudio \<Rightarrow> int list \<times> CdiAudio" where
  "decode_unit grp unit channel eight_bit 0 a = ([], a)"
| "decode_unit grp unit channel eight_bit (Suc k) a =
     (let sample = 28 - Suc k;
          parameter = grp ! (4 + unit mod 4 + (if unit div 4 mod 2 = 1 then 8 else 0));
          packed = grp ! (16 + sample * 4 + (if eight_bit then unit else unit div 2));
          (v, a1) = decode_sample (xa_source eight_bit unit packed) parameter channel eight_bit a;
          (vs, a2) = decode_unit grp unit channel eight_bit k a1
      in (v # vs, a2))"

fun decode_units :: "u8 list \<Rightarrow> bool \<Rightarrow> bool \<Rightarrow> nat list \<Rightarrow> CdiAudio \<Rightarrow> int list list \<times> CdiAudio" where
  "decode_units grp stereo eight_bit [] a = ([], a)"
| "decode_units grp stereo eight_bit (u # us) a =
     (let (vs, a1) = decode_unit grp u (if stereo then u mod 2 else 0) eight_bit 28 a;
          (rest, a2) = decode_units grp stereo eight_bit us a1
      in (vs # rest, a2))"

fun stereo_pairs :: "int list list \<Rightarrow> pcm_frame list" where
  "stereo_pairs (l # r # us) = zip l r @ stereo_pairs us"
| "stereo_pairs _ = []"

definition group_frames :: "bool \<Rightarrow> int list list \<Rightarrow> pcm_frame list" where
  "group_frames stereo units =
     (if stereo then stereo_pairs units else concat (map (map (\<lambda>v. (v, v))) units))"

definition decode_group :: "bool \<Rightarrow> bool \<Rightarrow> bool \<Rightarrow> u8 list \<Rightarrow> emit_state \<Rightarrow> emit_state" where
  "decode_group stereo eight_bit duplicate grp = (\<lambda>(a, hash, frames, dropped).
     let (units, a1) = decode_units grp stereo eight_bit [0..<if eight_bit then 4 else 8] a
     in fold (emit_frame duplicate) (group_frames stereo units) (a1, hash, frames, dropped))"

definition cdi_audio_decode_groups :: "u8 list \<Rightarrow> u8 \<Rightarrow> CdiAudio \<Rightarrow> u32 \<times> CdiAudio" where
  "cdi_audio_decode_groups sound_groups coding a =
     (let stereo = (coding AND 3 = 1);
          eight_bit = (coding AND 0x30 = 0x10);
          duplicate = (coding AND 0x0C = 0x04);
          grp = (\<lambda>i. take 128 (drop (i * 128) sound_groups));
          (a1, hash, frames, dropped) =
            fold (\<lambda>i. decode_group stereo eight_bit duplicate (grp i)) [0..<18] (a, pcm_hash a, 0, 0)
      in (ucast frames,
          a1\<lparr>sectors := sectors a1 + 1, sample_frames := sample_frames a1 + frames, pcm_hash := hash,
             dropped_frames := dropped_frames a1 + dropped\<rparr>))"

definition cdi_audio_decode_sector :: "u8 list \<Rightarrow> CdiAudio \<Rightarrow> bool \<times> CdiAudio" where
  "cdi_audio_decode_sector sector a =
     (if sector ! 3 \<noteq> 2 \<or> sector ! 6 AND 0x04 = 0 then (False, a)
      else let (n, a1) = cdi_audio_decode_groups (drop 12 sector) (sector ! 7) a in (n \<noteq> 0, a1))"

definition cdi_audio_read_frames :: "u32 \<Rightarrow> CdiAudio \<Rightarrow> pcm_frame list \<times> CdiAudio" where
  "cdi_audio_read_frames capacity a =
     (if capacity = 0 then ([], a)
      else
        let r = read_index a; avail0 = write_index a - r;
            avail = (if avail0 > capacity then capacity else avail0)
        in (map (\<lambda>i. pcm_ring a ((r + of_nat i) AND 0x1FFFF)) [0..<unat avail],
            a\<lparr>read_index := r + avail\<rparr>))"

section \<open>The queue as a bounded FIFO\<close>

definition queued_frames :: "CdiAudio \<Rightarrow> pcm_frame list" where
  "queued_frames a = ring_items 0x20000 (pcm_ring a) (read_index a) (write_index a)"

text \<open>Consuming one frame; \<open>cdi_audio_read_frames\<close> consumes a run of them.\<close>

definition pop_frame :: "CdiAudio \<Rightarrow> CdiAudio" where
  "pop_frame a = (if read_index a = write_index a then a else a\<lparr>read_index := read_index a + 1\<rparr>)"

lemma ring_mask: "x AND 0x1FFFF = (x :: u32) mod 0x20000"
  using take_bit_eq_mask [of 17 x] take_bit_eq_mod [of 17 x] by (simp add: mask_numeral)

interpretation pcm: bounded_queue queued_frames push_frame pop_frame 131072
proof (unfold_locales, goal_cases)
  case (1 a f)
  let ?d = "write_index a - read_index a"
  show ?case
  proof (cases "unat ?d < 131072")
    case True
    then have "\<not> ?d \<ge> 0x20000" by (simp add: word_le_nat_alt)
    with True show ?thesis
      using ring_push [of 17 "write_index a" "read_index a" "pcm_ring a" f]
      by (simp add: queued_frames_def push_frame_def Let_def ring_mask)
  next
    case False
    then have "?d \<ge> 0x20000" by (simp add: word_le_nat_alt)
    with False show ?thesis by (simp add: queued_frames_def push_frame_def Let_def)
  qed
next
  case (2 a)
  show ?case
    using ring_pop [of "read_index a" "write_index a" "0x20000" "pcm_ring a"]
    by (cases "read_index a = write_index a") (simp_all add: queued_frames_def pop_frame_def)
qed

section \<open>Decoding\<close>

definition is_sample :: "int \<Rightarrow> bool" where
  "is_sample v \<longleftrightarrow> - 32768 \<le> v \<and> v \<le> 32767"

lemma xa_sum_range:
  assumes "is_sample x" and "is_sample y" and "ix < 4"
  shows "\<bar>x * fst (xa_filter ! ix) + y * snd (xa_filter ! ix) + 32\<bar> < 2 ^ 31"
proof -
  have "ix \<in> {0, 1, 2, 3}" using assms(3) by auto
  then show ?thesis using assms(1,2) by (auto simp: xa_filter_def is_sample_def)
qed

definition same_queue :: "CdiAudio \<Rightarrow> CdiAudio \<Rightarrow> bool" where
  "same_queue a b \<longleftrightarrow> (\<exists>p. b = a\<lparr>previous := p\<rparr>)"

lemma same_queue_refl [simp]: "same_queue a a"
  unfolding same_queue_def by (rule exI [of _ "previous a"]) simp

lemma same_queue_trans: "same_queue a b \<Longrightarrow> same_queue b c \<Longrightarrow> same_queue a c"
  by (auto simp: same_queue_def)

lemma same_queue_items: "same_queue a b \<Longrightarrow> queued_frames b = queued_frames a"
  by (auto simp: same_queue_def queued_frames_def)

lemma decode_sample_ok:
  "decode_sample s p c e a = (v, b) \<Longrightarrow> is_sample v \<and> same_queue a b"
  by (auto simp: decode_sample_def Let_def is_sample_def clamp_sample_def same_queue_def)

lemma decode_unit_ok:
  "decode_unit g u c e k a = (vs, b) \<Longrightarrow> length vs = k \<and> list_all is_sample vs \<and> same_queue a b"
proof (induction k arbitrary: a vs)
  case (Suc k)
  then show ?case
    by (auto simp: Let_def split: prod.splits dest!: decode_sample_ok intro: same_queue_trans)
qed simp

lemma decode_units_ok:
  "decode_units g s e us a = (vss, b) \<Longrightarrow>
     length vss = length us \<and> list_all (\<lambda>vs. length vs = 28 \<and> list_all is_sample vs) vss \<and> same_queue a b"
proof (induction us arbitrary: a vss)
  case (Cons u us)
  then show ?case
    by (auto simp: Let_def split: prod.splits dest!: decode_unit_ok intro: same_queue_trans)
qed simp

definition sample_pair :: "pcm_frame \<Rightarrow> bool" where
  "sample_pair f \<longleftrightarrow> is_sample (fst f) \<and> is_sample (snd f)"

lemma stereo_pairs_ok:
  "list_all (\<lambda>vs. length vs = 28 \<and> list_all is_sample vs) uss \<Longrightarrow>
     length (stereo_pairs uss) = 28 * (length uss div 2) \<and> list_all sample_pair (stereo_pairs uss)"
  by (induction uss rule: stereo_pairs.induct)
    (auto simp: list_all_iff sample_pair_def dest: set_zip_leftD set_zip_rightD)

lemma group_frames_ok:
  assumes "list_all (\<lambda>vs. length vs = 28 \<and> list_all is_sample vs) uss"
  shows "length (group_frames s uss) = 28 * (if s then length uss div 2 else length uss) \<and>
    list_all sample_pair (group_frames s uss)"
proof (cases s)
  case False
  have "length (concat (map (map (\<lambda>v. (v, v))) uss)) = 28 * length uss"
    using assms by (induction uss) auto
  with False assms show ?thesis by (auto simp: group_frames_def list_all_iff sample_pair_def)
qed (use stereo_pairs_ok [OF assms] in \<open>simp add: group_frames_def\<close>)

section \<open>Emission\<close>

definition emits :: "pcm_frame list \<Rightarrow> emit_state \<Rightarrow> emit_state \<Rightarrow> bool" where
  "emits fs s t \<longleftrightarrow> (case (s, t) of ((a, h, n, d), (b, h', n', d')) \<Rightarrow>
     queued_frames b = take 131072 (queued_frames a @ fs) \<and>
     n' = n + of_nat (length fs) \<and>
     d' = d + of_nat (length (queued_frames a) + length fs - 131072) \<and>
     sectors b = sectors a \<and> sample_frames b = sample_frames a \<and> dropped_frames b = dropped_frames a)"

abbreviation "fits s \<equiv> length (queued_frames (fst s)) \<le> 131072"

lemma emits_nil: "fits s \<Longrightarrow> emits [] s s"
  by (cases s) (simp add: emits_def)

lemma emits_fits: "emits fs s t \<Longrightarrow> fits t"
  by (auto simp: emits_def split: prod.splits)

lemma emits_trans: "fits s \<Longrightarrow> emits fs s t \<Longrightarrow> emits gs t u \<Longrightarrow> emits (fs @ gs) s u"
  by (auto simp: emits_def min_def add.assoc simp flip: of_nat_add split: prod.splits if_splits)
    
lemma emit_copy_emits: "fits s \<Longrightarrow> emits [f] s (emit_copy f s)"
proof -
  assume s: "fits s"
  obtain a h n d where [simp]: "s = (a, h, n, d)" by (cases s)
  have full: "write_index a - read_index a \<ge> 0x20000 \<longleftrightarrow> \<not> length (queued_frames a) < 131072"
    by (simp add: queued_frames_def word_le_nat_alt not_less)
  have "sectors (push_frame f a) = sectors a \<and> sample_frames (push_frame f a) = sample_frames a \<and>
      dropped_frames (push_frame f a) = dropped_frames a"
    by (simp add: push_frame_def Let_def)
  with s pcm.items_push [of a f] show ?thesis
    by (auto simp: emits_def emit_copy_def Let_def full not_less)
qed

lemma fold_emit_copy: "fits s \<Longrightarrow> emits fs s (fold emit_copy fs s)"
proof (induction fs arbitrary: s)
  case (Cons f fs)
  note one = emit_copy_emits [OF Cons.prems, of f]
  from emits_trans [OF Cons.prems one Cons.IH [OF emits_fits [OF one]]] show ?case by simp
qed (simp add: emits_nil)

definition copies :: "bool \<Rightarrow> pcm_frame list \<Rightarrow> pcm_frame list" where
  "copies dup fs = concat (map (replicate (if dup then 2 else 1)) fs)"

lemma length_copies: "length (copies dup fs) = (if dup then 2 else 1) * length fs"
  by (induction fs) (auto simp: copies_def)

lemma fold_emit_frame: "fold (emit_frame dup) fs s = fold emit_copy (copies dup fs) s"
  by (induction fs arbitrary: s) (simp_all add: copies_def emit_frame_def numeral_2_eq_2)

lemma decode_group_emits:
  assumes "fits s"
  shows "\<exists>fs. emits fs s (decode_group stereo eight dup g s) \<and> list_all sample_pair fs \<and>
    length fs = 28 * (if eight then 4 else 8) div (if stereo then 2 else 1) * (if dup then 2 else 1)"
proof -
  obtain a h n d where s: "s = (a, h, n, d)" by (cases s)
  obtain uss b where u: "decode_units g stereo eight [0..<if eight then 4 else 8] a = (uss, b)" by fastforce
  note ok = decode_units_ok [OF u]
  let ?fs = "copies dup (group_frames stereo uss)"
  let ?t = "(b, h, n, d)"
  have b: "queued_frames b = queued_frames a" "sectors b = sectors a" "sample_frames b = sample_frames a"
    "dropped_frames b = dropped_frames a"
    using ok by (auto simp: same_queue_items) (auto simp: same_queue_def)
  have "emits ?fs ?t (fold emit_copy ?fs ?t)" using assms b by (intro fold_emit_copy) (simp add: s)
  then have "emits ?fs s (decode_group stereo eight dup g s)"
    using b by (simp add: decode_group_def s u fold_emit_frame emits_def split: prod.splits)
  moreover have "list_all sample_pair ?fs"
    using group_frames_ok [of uss stereo] ok by (auto simp: copies_def list_all_iff)
  moreover have "length ?fs = 28 * (if eight then 4 else 8) div (if stereo then 2 else 1) * (if dup then 2 else 1)"
    using group_frames_ok [of uss stereo] ok by (auto simp: length_copies)
  ultimately show ?thesis by blast
qed

lemma decode_all_emits:
  assumes "fits s"
  shows "\<exists>fs. emits fs s (fold (\<lambda>i. decode_group stereo eight dup (g i)) is s) \<and> list_all sample_pair fs \<and>
    length fs = length is * (28 * (if eight then 4 else 8) div (if stereo then 2 else 1) * (if dup then 2 else 1))"
  using assms
proof (induction "is" arbitrary: s)
  case Nil
  then show ?case using emits_nil [OF Nil] by (intro exI [of _ "[]"]) simp
next
  case (Cons i "is")
  obtain fs where fs: "emits fs s (decode_group stereo eight dup (g i) s)" "list_all sample_pair fs"
    "length fs = 28 * (if eight then 4 else 8) div (if stereo then 2 else 1) * (if dup then 2 else 1)"
    using decode_group_emits [OF Cons.prems] by blast
  obtain gs where gs: "emits gs (decode_group stereo eight dup (g i) s)
      (fold (\<lambda>i. decode_group stereo eight dup (g i)) is (decode_group stereo eight dup (g i) s))"
    "list_all sample_pair gs"
    "length gs = length is * (28 * (if eight then 4 else 8) div (if stereo then 2 else 1) * (if dup then 2 else 1))"
    using Cons.IH [OF emits_fits [OF fs(1)]] by blast
  from emits_trans [OF Cons.prems fs(1) gs(1)] fs gs show ?case
    by (intro exI [of _ "fs @ gs"]) simp
qed



text \<open>
C14: Draining the PCM queue returns the oldest queued frames in order, at most the requested number, and
leaves exactly the remaining ones queued; the free-running indices may wrap.
\<close>
theorem audio_read_frames_fifo:
  "fst (cdi_audio_read_frames capacity a) = take (unat capacity) (queued_frames a) \<and>
   queued_frames (snd (cdi_audio_read_frames capacity a)) = drop (unat capacity) (queued_frames a)"
proof -
  let ?r = "read_index a" and ?n = "unat (write_index a - read_index a)"
  define avail where "avail = (if write_index a - ?r > capacity then capacity else write_index a - ?r)"
  have av: "unat avail = min (unat capacity) ?n"
    by (auto simp: avail_def word_less_nat_alt min_def)
  have rest: "unat (write_index a - (?r + avail)) = ?n - unat avail"
  proof -
    have "avail \<le> write_index a - ?r" by (auto simp: avail_def)
    then show ?thesis by (simp add: unat_sub diff_diff_add [symmetric])
  qed
  have "map (\<lambda>i. pcm_ring a ((?r + of_nat i) mod 0x20000)) [0..<unat avail] =
      take (unat capacity) (queued_frames a)"
    by (simp add: queued_frames_def ring_items_def take_map av min_def)
  moreover have "ring_items 0x20000 (pcm_ring a) (?r + avail) (write_index a) = drop (unat capacity) (queued_frames a)"
  proof (rule nth_equalityI)
    show "length (ring_items 0x20000 (pcm_ring a) (?r + avail) (write_index a)) = length (drop (unat capacity) (queued_frames a))"
      by (simp add: rest queued_frames_def av)
    fix i assume "i < length (ring_items 0x20000 (pcm_ring a) (?r + avail) (write_index a))"
    then have i: "i < ?n - unat avail" by (simp add: rest)
    then have "unat avail = unat capacity" using av by simp
    then have ac: "avail = capacity" by (simp add: word_unat_eq_iff)
    show "ring_items 0x20000 (pcm_ring a) (?r + avail) (write_index a) ! i = drop (unat capacity) (queued_frames a) ! i"
      using i ac less_diff_conv [of i ?n "unat capacity"]
      by (simp add: queued_frames_def ring_items_def nth_upt add.commute [of i] ac rest [unfolded ac] add.assoc)
  qed
  ultimately show ?thesis
    by (cases "capacity = 0") (simp_all add: cdi_audio_read_frames_def Let_def avail_def [symmetric] ring_mask, simp add: queued_frames_def)
qed

end
