(* ===== verification/Ciap.thy ===== *)
theory Ciap
  imports Cdi_Irq Xa_Audio
begin

unbundle bit_operations_syntax

text \<open>
  The MCD221 CIAP (\<^verbatim>\<open>runner/src/cdic.c\<close>): register RAM, buffer ownership, the audio processor and the
  75 Hz sector path. Two-valued buffer indices and flags are booleans (\<open>True\<close> is 1). The disc is the
  interface of \<^verbatim>\<open>cdi_media.c\<close>: presence, a generation counter and a function from block address to sector
  body. The state of the CIAP, the audio decoder, the interrupt controller and the disc travel together in
  an extensible record; the access trace ring is not modelled.
\<close>

section \<open>State\<close>

record media =
  media_present :: bool
  media_generation :: u64
  media_sector :: "u32 \<Rightarrow> u8 list option"

definition cdi_media_read_sector_body :: "u32 \<Rightarrow> media \<Rightarrow> u8 list option" where
  "cdi_media_read_sector_body lba m = (if media_present m then media_sector m lba else None)"

record CiapDevice =
  memory :: "u32 \<Rightarrow> u8"
  sector_elapsed_ns :: u64
  data_deliveries :: u64
  locator_deliveries :: u64
  held_ticks :: u64
  drive_lba :: u32
  last_lba :: u32
  last_file :: u8
  last_channel :: u8
  last_submode :: u8
  last_coding :: u8
  last_selected :: bool
  next_data_buffer :: bool
  next_q_buffer :: bool
  drive_positioned :: bool
  audio_positioned :: bool
  data_running :: bool
  data_path_armed :: bool
  firmware_idle :: bool
  q_reporting :: bool
  selection_active :: bool
  selection_header_pending :: bool
  ap_completion_pending :: bool
  ap_completion_delay_ns :: u64
  audio_remaining_ns :: u64
  audio_duration_ns :: u64
  audio_format :: "bool \<Rightarrow> u16"
  audio_playing :: bool
  audio_buffer :: bool
  audio_active :: bool
  audio_finish_requested :: bool
  audio_select_pending :: bool
  ciap_initialized :: bool

record cd_board =
  b_irq :: irq
  b_audio :: CdiAudio
  b_ciap :: CiapDevice
  b_media :: media

abbreviation (input) "CIAP_DATA0 \<equiv> 0x1200 :: u32"
abbreviation (input) "CIAP_DATA1 \<equiv> 0x1BC2 :: u32"
abbreviation (input) "CIAP_QBUF0 \<equiv> 0x1B24 :: u32"
abbreviation (input) "CIAP_QBUF1 \<equiv> 0x24E6 :: u32"
abbreviation (input) "CIAP_IER \<equiv> 0x2584 :: u32"
abbreviation (input) "CIAP_ISR \<equiv> 0x2586 :: u32"
abbreviation (input) "CIAP_TACS \<equiv> 0x2588 :: u32"
abbreviation (input) "CIAP_TCM1 \<equiv> 0x258C :: u32"
abbreviation (input) "CIAP_ACM2 \<equiv> 0x2590 :: u32"
abbreviation (input) "CIAP_FILE \<equiv> 0x2592 :: u32"
abbreviation (input) "CIAP_BMAN \<equiv> 0x2594 :: u32"
abbreviation (input) "CIAP_CCR \<equiv> 0x2596 :: u32"
abbreviation (input) "CIAP_APCR \<equiv> 0x25A6 :: u32"
abbreviation (input) "CIAP_A_SHDW \<equiv> 0x259A :: u32"
abbreviation (input) "CIAP_ASTAT \<equiv> 0x25AA :: u32"
abbreviation (input) "CIAP_AP_POINTER \<equiv> 0x25B4 :: u32"
abbreviation (input) "CIAP_ICR \<equiv> 0x25C0 :: u32"
abbreviation (input) "CIAP_DMACTL \<equiv> 0x25C2 :: u32"
abbreviation (input) "CIAP_ID \<equiv> 0x25C4 :: u32"
abbreviation (input) "CIAP_DLOAD \<equiv> 0x25FE :: u32"
abbreviation (input) "CDI_CDIC_BASE \<equiv> 0x00300000 :: u32"

definition read_word :: "u32 \<Rightarrow> CiapDevice \<Rightarrow> u16" where
  "read_word offset c = be16 (memory c offset) (memory c (offset + 1))"

definition store_word :: "u32 \<Rightarrow> u16 \<Rightarrow> CiapDevice \<Rightarrow> CiapDevice" where
  "store_word offset v c =
     c\<lparr>memory := (memory c)(offset := ucast (drop_bit 8 v), offset + 1 := ucast v)\<rparr>"

definition upd_ciap :: "(CiapDevice \<Rightarrow> CiapDevice) \<Rightarrow> 'a cd_board_scheme \<Rightarrow> 'a cd_board_scheme" where
  "upd_ciap f s = s\<lparr>b_ciap := f (b_ciap s)\<rparr>"

definition modify_word :: "u32 \<Rightarrow> (u16 \<Rightarrow> u16) \<Rightarrow> 'a cd_board_scheme \<Rightarrow> 'a cd_board_scheme" where
  "modify_word offset f s = upd_ciap (store_word offset (f (read_word offset (b_ciap s)))) s"

definition data_buffers_full :: "CiapDevice \<Rightarrow> bool" where
  "data_buffers_full c \<longleftrightarrow> read_word CIAP_BMAN c AND 0x000C = 0x000C"

definition interrupt_level :: "CiapDevice \<Rightarrow> u16" where
  "interrupt_level c = read_word CIAP_ICR c AND 7"

definition interrupt_vector :: "CiapDevice \<Rightarrow> u16" where
  "interrupt_vector c = drop_bit 3 (read_word CIAP_ICR c) AND 0xFF"

definition clear_interrupt_line :: "'a cd_board_scheme \<Rightarrow> 'a cd_board_scheme" where
  "clear_interrupt_line s =
     (let level = interrupt_level (b_ciap s)
      in if level \<noteq> 0 then s\<lparr>b_irq := cdi_irq_clear (ucast level) (b_irq s)\<rparr> else s)"

definition assert_interrupt_line :: "'a cd_board_scheme \<Rightarrow> 'a cd_board_scheme" where
  "assert_interrupt_line s =
     (let c = b_ciap s; level = interrupt_level c; vector = interrupt_vector c
      in if read_word CIAP_IER c AND read_word CIAP_ISR c \<noteq> 0 \<and> level \<noteq> 0
         then s\<lparr>b_irq := cdi_irq_raise_vector (ucast level) (ucast vector) (b_irq s)\<rparr> else s)"

definition ciap_zero :: CiapDevice where
  "ciap_zero =
     \<lparr>memory = (\<lambda>_. 0), sector_elapsed_ns = 0, data_deliveries = 0, locator_deliveries = 0, held_ticks = 0,
      drive_lba = 0, last_lba = 0, last_file = 0, last_channel = 0, last_submode = 0, last_coding = 0,
      last_selected = False, next_data_buffer = False, next_q_buffer = False, drive_positioned = False,
      audio_positioned = False, data_running = False, data_path_armed = False, firmware_idle = False,
      q_reporting = False, selection_active = False, selection_header_pending = False,
      ap_completion_pending = False, ap_completion_delay_ns = 0, audio_remaining_ns = 0,
      audio_duration_ns = 0, audio_format = (\<lambda>_. 0), audio_playing = False, audio_buffer = False,
      audio_active = False, audio_finish_requested = False, audio_select_pending = False,
      ciap_initialized = False\<rparr>"

definition initialize_ciap :: "'a cd_board_scheme \<Rightarrow> 'a cd_board_scheme" where
  "initialize_ciap s =
     s\<lparr>b_audio := cdi_audio_reset (b_audio s),
       b_ciap := (store_word CIAP_ID 0xCD02 ciap_zero)\<lparr>firmware_idle := True, ciap_initialized := True\<rparr>\<rparr>"

definition ciap_ensure_initialized :: "'a cd_board_scheme \<Rightarrow> 'a cd_board_scheme" where
  "ciap_ensure_initialized s = (if ciap_initialized (b_ciap s) then s else initialize_ciap s)"

section \<open>Reading registers\<close>

text \<open>The byte loop of \<open>cdic_read\<close>: the idle work-ready word shows through the ISR port until a stream is armed.\<close>

definition ciap_read_byte :: "CiapDevice \<Rightarrow> u32 \<Rightarrow> u8" where
  "ciap_read_byte c byte_offset =
     (let v = memory c byte_offset;
          v1 = (if firmware_idle c \<and> byte_offset = CIAP_ISR then v OR 0x00 else v)
      in if firmware_idle c \<and> byte_offset = CIAP_ISR + 1 then v1 OR 0x09 else v1)"

fun ciap_read_bytes :: "CiapDevice \<Rightarrow> u32 \<Rightarrow> nat \<Rightarrow> u32 \<Rightarrow> u32" where
  "ciap_read_bytes c offset 0 result = result"
| "ciap_read_bytes c offset (Suc n) result =
     ciap_read_bytes c (offset + 1) n (push_bit 8 result OR ucast (ciap_read_byte c offset))"

text \<open>A read outside the readable registers aborts the program: \<open>None\<close>.\<close>

definition cdic_read :: "u32 \<Rightarrow> nat \<Rightarrow> 'a cd_board_scheme \<Rightarrow> (u32 \<times> 'a cd_board_scheme) option" where
  "cdic_read address sz s0 =
     (let offset = address - CDI_CDIC_BASE; s = ciap_ensure_initialized s0
      in if sz = 0 \<or> offset \<ge> 0x2600 \<or> of_nat sz > 0x2600 - offset then None
         else
           let result = ciap_read_bytes (b_ciap s) offset sz 0
           in Some (result,
                if offset \<le> CIAP_ISR \<and> offset + of_nat sz \<ge> CIAP_ISR + 2
                then clear_interrupt_line (modify_word CIAP_ISR (\<lambda>_. 0) s)
                else s))"

section \<open>Data path and audio processor\<close>

definition reset_data_path :: "'a cd_board_scheme \<Rightarrow> 'a cd_board_scheme" where
  "reset_data_path s =
     (let s1 = upd_ciap (\<lambda>c. c\<lparr>data_running := False, data_path_armed := False, selection_active := False,
            selection_header_pending := False, q_reporting := False, next_data_buffer := False,
            sector_elapsed_ns := 0\<rparr>) s;
          s2 = modify_word CIAP_BMAN (\<lambda>w. w AND 3) s1;
          s3 = modify_word CIAP_ISR (\<lambda>w. w AND 0x000A) s2
      in assert_interrupt_line (clear_interrupt_line s3))"

definition buffer_bit :: "bool \<Rightarrow> u16" where
  "buffer_bit b = (if b then 2 else 1)"

definition select_audio_buffer :: "CiapDevice \<Rightarrow> CiapDevice" where
  "select_audio_buffer c =
     (if audio_select_pending c \<and> read_word CIAP_BMAN c AND 3 \<noteq> 0
      then
        let b = (if read_word CIAP_BMAN c AND buffer_bit (audio_buffer c) = 0
                 then \<not> audio_buffer c else audio_buffer c)
        in c\<lparr>audio_buffer := b, audio_select_pending := False\<rparr>
      else c)"

definition audio_coding :: "u16 \<Rightarrow> u8" where
  "audio_coding format =
     (if format AND 0x2000 \<noteq> 0 then 0x10 else 0) OR (if format AND 0x1000 \<noteq> 0 then 0x04 else 0) OR
     (if format AND 0x0800 \<noteq> 0 then 0x01 else 0)"

definition sound_groups_at :: "CiapDevice \<Rightarrow> bool \<Rightarrow> u8 list" where
  "sound_groups_at c b = map (\<lambda>i. memory c ((if b then 0x900 else 0) + of_nat i)) [0..<2304]"

definition pointer_base :: "bool \<Rightarrow> u64" where
  "pointer_base b = (if b then 0x480 else 0)"

definition start_audio_buffer :: "'a cd_board_scheme \<Rightarrow> 'a cd_board_scheme" where
  "start_audio_buffer s0 =
     (let s = upd_ciap select_audio_buffer s0; c = b_ciap s; b = audio_buffer c
      in if \<not> audio_playing c \<or> audio_active c \<or> read_word CIAP_BMAN c AND buffer_bit b = 0 then s
         else
           let (frames, a) = cdi_audio_decode_groups (sound_groups_at c b) (audio_coding (audio_format c b)) (b_audio s);
               ns = (ucast frames :: u64) * 1000000000 div 37800;
               s1 = upd_ciap (\<lambda>c. c\<lparr>audio_remaining_ns := ns, audio_duration_ns := ns, audio_active := True\<rparr>)
                      (s\<lparr>b_audio := a\<rparr>);
               s2 = modify_word CIAP_AP_POINTER (\<lambda>_. ucast (pointer_base b)) s1
           in modify_word CIAP_ASTAT (\<lambda>w. w OR 0x0040) s2)"

definition request_ap_completion :: "'a cd_board_scheme \<Rightarrow> 'a cd_board_scheme" where
  "request_ap_completion = upd_ciap (\<lambda>c. c\<lparr>ap_completion_pending := True, ap_completion_delay_ns := 20000\<rparr>)"

section \<open>Register writes\<close>

definition write_bman :: "u16 \<Rightarrow> 'a cd_board_scheme \<Rightarrow> 'a cd_board_scheme" where
  "write_bman v s =
     (let n0 = read_word CIAP_BMAN (b_ciap s) AND NOT (v AND 0x00FC);
          n1 = n0 XOR (v AND 3);
          s1 = modify_word CIAP_BMAN (\<lambda>_. n1) s;
          fmt = read_word CIAP_A_SHDW (b_ciap s1);
          s2 = upd_ciap (\<lambda>c. c\<lparr>audio_format :=
                 (\<lambda>b. if (v AND n1) AND buffer_bit b \<noteq> 0 then fmt else audio_format c b)\<rparr>) s1
      in start_audio_buffer s2)"

definition write_ccr :: "u16 \<Rightarrow> 'a cd_board_scheme \<Rightarrow> 'a cd_board_scheme" where
  "write_ccr v s0 =
     (let s = modify_word CIAP_CCR (\<lambda>_. v) s0
      in if v = 0x0100 then reset_data_path s
         else if v = 0x0040 then upd_ciap (\<lambda>c. c\<lparr>data_running := False\<rparr>) s
         else if v = 0x0008 then upd_ciap (\<lambda>c. c\<lparr>selection_active := True, selection_header_pending := True\<rparr>) s
         else if v = 0x00C4 \<or> v = 0x0010 \<or> v = 0x0044 \<or> v = 0x0094
         then upd_ciap (\<lambda>c. c\<lparr>data_path_armed := True, firmware_idle := False, data_running := True,
                sector_elapsed_ns := 0, q_reporting := (v \<noteq> 0x00C4)\<rparr>) s
         else s)"

definition apcr_acknowledge :: "'a cd_board_scheme \<Rightarrow> 'a cd_board_scheme" where
  "apcr_acknowledge s =
     assert_interrupt_line (clear_interrupt_line
       (modify_word CIAP_ISR (\<lambda>w. w AND NOT 0x0008) (modify_word CIAP_ASTAT (\<lambda>w. w AND NOT 0x0080) s)))"

definition apcr_audio_reset :: "'a cd_board_scheme \<Rightarrow> 'a cd_board_scheme" where
  "apcr_audio_reset s =
     (let s1 = upd_ciap (\<lambda>c. c\<lparr>ap_completion_pending := False, ap_completion_delay_ns := 0, audio_playing := False,
            audio_active := False, audio_finish_requested := False, audio_remaining_ns := 0,
            audio_duration_ns := 0, audio_select_pending := False\<rparr>) s;
          s2 = modify_word CIAP_AP_POINTER (\<lambda>_. 0) s1;
          s3 = modify_word CIAP_BMAN (\<lambda>w. w AND NOT 3) s2;
          s4 = modify_word CIAP_ASTAT (\<lambda>w. w AND NOT 0x00C0) s3;
          s5 = modify_word CIAP_ISR (\<lambda>w. w AND NOT 0x000A) s4
      in assert_interrupt_line (clear_interrupt_line s5))"

definition apcr_play :: "u16 \<Rightarrow> 'a cd_board_scheme \<Rightarrow> 'a cd_board_scheme" where
  "apcr_play v s =
     start_audio_buffer (upd_ciap (\<lambda>c.
       let c1 = c\<lparr>audio_playing := True\<rparr>;
           c2 = (if v = 0x0140 then c1\<lparr>audio_buffer := False, audio_select_pending := False\<rparr>
                 else if \<not> audio_active c1 then c1\<lparr>audio_select_pending := True\<rparr> else c1)
       in c2\<lparr>audio_finish_requested := False\<rparr>) s)"

definition apcr_finish :: "'a cd_board_scheme \<Rightarrow> 'a cd_board_scheme" where
  "apcr_finish s =
     (let s1 = upd_ciap (\<lambda>c. c\<lparr>audio_finish_requested := True\<rparr>) s; c = b_ciap s1
      in if \<not> audio_active c \<and> read_word CIAP_BMAN c AND 3 = 0
         then request_ap_completion (upd_ciap (\<lambda>c. c\<lparr>audio_playing := False, audio_finish_requested := False\<rparr>) s1)
         else s1)"

definition write_apcr :: "u16 \<Rightarrow> 'a cd_board_scheme \<Rightarrow> 'a cd_board_scheme" where
  "write_apcr v s0 =
     (let s = modify_word CIAP_APCR (\<lambda>_. v) s0
      in if v = 0x0200 then apcr_acknowledge s
         else if v = 0x0006 then apcr_audio_reset s
         else if v = 0x0040 \<or> v = 0x0140 then apcr_play v s
         else if v = 0x0020 then apcr_finish s
         else if v = 0x00A0 \<or> v AND 0x0100 \<noteq> 0 then request_ap_completion s
         else s)"

definition write_dload :: "u16 \<Rightarrow> 'a cd_board_scheme \<Rightarrow> 'a cd_board_scheme" where
  "write_dload v s0 =
     (let s = modify_word CIAP_DLOAD (\<lambda>_. v) s0
      in if v AND 1 = 0 then s
         else
           let s1 = reset_data_path s;
               s2 = upd_ciap (\<lambda>c. c\<lparr>ap_completion_pending := False, audio_playing := False, audio_active := False,
                      audio_finish_requested := False, audio_select_pending := False, audio_remaining_ns := 0,
                      audio_duration_ns := 0\<rparr>) s1;
               s3 = modify_word CIAP_ISR (\<lambda>_. 0) (modify_word CIAP_BMAN (\<lambda>_. 0) s2);
               s4 = modify_word CIAP_AP_POINTER (\<lambda>_. 0) (modify_word CIAP_ASTAT (\<lambda>_. 0x0400) s3)
           in upd_ciap (\<lambda>c. c\<lparr>firmware_idle := True\<rparr>) (clear_interrupt_line s4))"

text \<open>
  A write to DMACTL with START set asks the SCC68070 for a DMA burst; the request is the second component,
  carried out by the bus.
\<close>

definition handle_register_write :: "u32 \<Rightarrow> u16 \<Rightarrow> 'a cd_board_scheme \<Rightarrow> 'a cd_board_scheme \<times> u16 option" where
  "handle_register_write offset v s =
     (if offset = CIAP_IER then (assert_interrupt_line (modify_word offset (\<lambda>_. v) s), None)
      else if offset = CIAP_BMAN then (write_bman v s, None)
      else if offset = CIAP_CCR then (write_ccr v s, None)
      else if offset = CIAP_APCR then (write_apcr v s, None)
      else if offset = CIAP_DMACTL then
        (modify_word offset (\<lambda>_. v) s, if v AND 0x4000 \<noteq> 0 then Some v else None)
      else if offset = CIAP_ID then (s, None)
      else if offset = CIAP_DLOAD then (write_dload v s, None)
      else (modify_word offset (\<lambda>_. v) s, None))"

fun ciap_write_bytes :: "u32 \<Rightarrow> u32 \<Rightarrow> nat \<Rightarrow> CiapDevice \<Rightarrow> CiapDevice" where
  "ciap_write_bytes offset v 0 c = c"
| "ciap_write_bytes offset v (Suc n) c =
     ciap_write_bytes (offset + 1) v n (c\<lparr>memory := (memory c)(offset := ucast (drop_bit (8 * n) v))\<rparr>)"

definition cdic_write :: "u32 \<Rightarrow> u32 \<Rightarrow> nat \<Rightarrow> 'a cd_board_scheme \<Rightarrow> 'a cd_board_scheme \<times> u16 option" where
  "cdic_write address v sz s0 =
     (let offset = address - CDI_CDIC_BASE; s = ciap_ensure_initialized s0
      in if sz = 0 \<or> offset \<ge> 0x4000 \<or> of_nat sz > 0x4000 - offset then (s, None)
         else if sz = 2 \<and> offset AND 1 = 0 \<and> offset \<ge> CIAP_IER \<and> offset < 0x2600
         then handle_register_write offset (ucast v) s
         else (upd_ciap (ciap_write_bytes offset v sz) s, None))"

end
