(* ===== verification/Ciap_Stream.thy ===== *)
theory Ciap_Stream
  imports Ciap Quiet_Device
begin

unbundle bit_operations_syntax

text \<open>
  The time-driven half of the CIAP (\<^verbatim>\<open>runner/src/cdic.c\<close>): drive transport, sector selection and delivery,
  audio-processor completion, the audio refill loop, DMA words, and the deferred-time form used when
  streaming jobs are compiled in. Both loops are recursive functions with termination proofs.
\<close>

section \<open>Transport\<close>

definition cdic_transport_pause :: "'a cd_board_scheme \<Rightarrow> 'a cd_board_scheme" where
  "cdic_transport_pause s = upd_ciap (\<lambda>c. c\<lparr>data_running := False\<rparr>) (ciap_ensure_initialized s)"

definition cdic_transport_resume :: "'a cd_board_scheme \<Rightarrow> 'a cd_board_scheme" where
  "cdic_transport_resume s =
     upd_ciap (\<lambda>c. if data_path_armed c \<and> drive_positioned c \<and> \<not> audio_positioned c
                   then c\<lparr>data_running := True, sector_elapsed_ns := 0\<rparr> else c) (ciap_ensure_initialized s)"

definition cdic_set_drive_position :: "u32 \<Rightarrow> bool \<Rightarrow> 'a cd_board_scheme \<Rightarrow> 'a cd_board_scheme" where
  "cdic_set_drive_position lba audio s =
     upd_ciap (\<lambda>c.
       let c1 = c\<lparr>drive_lba := lba, drive_positioned := True, audio_positioned := audio\<rparr>
       in if audio then c1\<lparr>data_running := False\<rparr> else c1) (ciap_ensure_initialized s)"

section \<open>Selection\<close>

definition subheader_agrees :: "u8 list \<Rightarrow> bool" where
  "subheader_agrees sector \<longleftrightarrow>
     sector ! 4 = sector ! 8 \<and> sector ! 5 = sector ! 9 \<and> sector ! 6 = sector ! 10 \<and> sector ! 7 = sector ! 11"

definition sector_selected :: "CiapDevice \<Rightarrow> u8 list \<Rightarrow> bool" where
  "sector_selected c sector =
     (if \<not> selection_active c \<or> sector ! 3 \<noteq> 2 then True
      else
        let file = sector ! 4; channel = unat (sector ! 5 AND 31);
            selected_file = read_word CIAP_FILE c AND 0xFF;
            chan_mask = (ucast (read_word CIAP_TCM1 c) :: u32) OR push_bit 16 (ucast (read_word CIAP_ACM2 c))
        in if \<not> subheader_agrees sector then False
           else if selected_file \<noteq> 0 \<and> ucast file \<noteq> selected_file then False
           else chan_mask AND push_bit channel 1 \<noteq> 0)"

definition to_bcd :: "u32 \<Rightarrow> u8" where
  "to_bcd v = ucast (push_bit 4 (v div 10) OR (v mod 10))"

definition q_locator :: "u32 \<Rightarrow> u8 list" where
  "q_locator lba =
     (let real = lba + 150;
          m = to_bcd (real div 4500); sc = to_bcd ((real div 75) mod 60); f = to_bcd (real mod 75)
      in [0x41, 0x00, 0x01, m, sc, f, 0, m, sc, f])"

fun write_bytes :: "u32 \<Rightarrow> u8 list \<Rightarrow> (u32 \<Rightarrow> u8) \<Rightarrow> u32 \<Rightarrow> u8" where
  "write_bytes a [] m = m"
| "write_bytes a (b # bs) m = write_bytes (a + 1) bs (m(a := b))"

definition write_q_locator :: "u32 \<Rightarrow> u32 \<Rightarrow> CiapDevice \<Rightarrow> CiapDevice" where
  "write_q_locator offset lba c = c\<lparr>memory := write_bytes offset (q_locator lba) (memory c)\<rparr>"

section \<open>Sector delivery\<close>

definition note_sector :: "u32 \<Rightarrow> u8 list \<Rightarrow> CiapDevice \<Rightarrow> CiapDevice" where
  "note_sector lba sector c =
     c\<lparr>last_lba := lba, last_file := sector ! 4, last_channel := sector ! 5, last_submode := sector ! 6,
       last_coding := sector ! 7, last_selected := sector_selected c sector, selection_header_pending := False\<rparr>"

definition file_matches :: "CiapDevice \<Rightarrow> u8 list \<Rightarrow> bool" where
  "file_matches c sector \<longleftrightarrow>
     read_word CIAP_FILE c = 0 \<or> read_word CIAP_FILE c AND 0xFF = ucast (sector ! 4)"

definition report_file_events :: "u8 list \<Rightarrow> 'a cd_board_scheme \<Rightarrow> 'a cd_board_scheme" where
  "report_file_events sector s =
     (let c = b_ciap s; sub = sector ! 6
      in if sector ! 3 = 2 \<and> subheader_agrees sector \<and> (\<not> selection_active c \<or> file_matches c sector) \<and>
            sub AND 0x90 \<noteq> 0
         then
           let events = (if sub AND 0x10 \<noteq> 0 then 0x0200 else 0) OR (if sub AND 0x80 \<noteq> 0 then 0x0400 else 0)
           in assert_interrupt_line (modify_word CIAP_ISR (\<lambda>w. w OR events) s)
         else s)"

definition report_locator :: "u32 \<Rightarrow> 'a cd_board_scheme \<Rightarrow> 'a cd_board_scheme" where
  "report_locator lba s =
     (if \<not> q_reporting (b_ciap s) then s
      else
        let qi = next_q_buffer (b_ciap s); qbman = read_word CIAP_BMAN (b_ciap s);
            s1 = upd_ciap (\<lambda>c. write_q_locator (if qi then CIAP_QBUF1 else CIAP_QBUF0) lba
                   (c\<lparr>locator_deliveries := locator_deliveries c + 1, next_q_buffer := \<not> qi\<rparr>)) s;
            s2 = modify_word CIAP_BMAN (\<lambda>_. qbman OR (if qi then 0x0020 else 0x0010)) s1
        in assert_interrupt_line (modify_word CIAP_ISR (\<lambda>w. w OR 0x0004) s2))"

definition metadata_only :: "bool \<Rightarrow> CiapDevice \<Rightarrow> u8 list \<Rightarrow> bool" where
  "metadata_only selection_header c sector \<longleftrightarrow>
     \<not> last_selected c \<and> sector ! 3 = 2 \<and> subheader_agrees sector \<and>
     (selection_header \<or> (sector ! 6 AND 0x91 = 0 \<and> file_matches c sector))"

definition direct_audio :: "CiapDevice \<Rightarrow> u8 list \<Rightarrow> bool" where
  "direct_audio c sector \<longleftrightarrow>
     last_selected c \<and> sector ! 6 AND 0x04 \<noteq> 0 \<and> sector ! 5 < 16 \<and>
     read_word CIAP_TACS c AND push_bit (unat (sector ! 5)) 1 \<noteq> 0"

definition free_data_buffer :: "CiapDevice \<Rightarrow> bool" where
  "free_data_buffer c =
     (if read_word CIAP_BMAN c AND (if next_data_buffer c then 0x0008 else 0x0004) \<noteq> 0
      then \<not> next_data_buffer c else next_data_buffer c)"

definition fill_data_buffer :: "bool \<Rightarrow> u8 list \<Rightarrow> CiapDevice \<Rightarrow> CiapDevice" where
  "fill_data_buffer header_only sector c =
     (let buffer = free_data_buffer c;
          offset = (if buffer then CIAP_DATA1 else CIAP_DATA0);
          image = (if header_only then take 12 sector @ replicate (2340 - 12) 0 else sector);
          c1 = c\<lparr>memory := write_bytes offset image (memory c), data_deliveries := data_deliveries c + 1\<rparr>;
          c2 = store_word CIAP_BMAN (read_word CIAP_BMAN c1 OR (if buffer then 0x0008 else 0x0004)) c1
      in c2\<lparr>next_data_buffer := \<not> buffer\<rparr>)"

definition deliver_payload :: "bool \<Rightarrow> u8 list \<Rightarrow> 'a cd_board_scheme \<Rightarrow> 'a cd_board_scheme" where
  "deliver_payload meta sector s =
     (let direct = direct_audio (b_ciap s) sector;
          s1 = (if direct then s\<lparr>b_audio := snd (cdi_audio_decode_sector sector (b_audio s))\<rparr> else s);
          s2 = upd_ciap (\<lambda>c. c\<lparr>drive_lba := drive_lba c + 1\<rparr>) s1
      in if data_buffers_full (b_ciap s2) then upd_ciap (\<lambda>c. c\<lparr>held_ticks := held_ticks c + 1\<rparr>) s2
         else assert_interrupt_line (modify_word CIAP_ISR (\<lambda>w. w OR 0x0001)
                (upd_ciap (fill_data_buffer (direct \<or> meta) sector) s2)))"

definition deliver_one_sector :: "'a cd_board_scheme \<Rightarrow> 'a cd_board_scheme" where
  "deliver_one_sector s =
     (let c = b_ciap s; lba = drive_lba c
      in if \<not> drive_positioned c \<or> \<not> media_present (b_media s) then s
         else case cdi_media_read_sector_body lba (b_media s) of
           None \<Rightarrow> upd_ciap (\<lambda>c. c\<lparr>data_running := False\<rparr>) s
         | Some sector \<Rightarrow>
             let selection_header = selection_header_pending c;
                 s1 = upd_ciap (note_sector lba sector) s;
                 s2 = report_file_events sector s1;
                 s3 = report_locator lba s2;
                 meta = metadata_only selection_header (b_ciap s3) sector
             in if \<not> last_selected (b_ciap s3) \<and> \<not> meta
                then upd_ciap (\<lambda>c. c\<lparr>drive_lba := drive_lba c + 1\<rparr>) s3
                else deliver_payload meta sector s3)"

section \<open>Device time\<close>

definition finish_ap :: "u64 \<Rightarrow> 'a cd_board_scheme \<Rightarrow> 'a cd_board_scheme" where
  "finish_ap step s =
     (if \<not> ap_completion_pending (b_ciap s) then s
      else if step \<ge> ap_completion_delay_ns (b_ciap s)
      then assert_interrupt_line (modify_word CIAP_ISR (\<lambda>w. w OR 0x0008)
             (modify_word CIAP_ASTAT (\<lambda>w. w OR 0x0080)
               (upd_ciap (\<lambda>c. c\<lparr>ap_completion_pending := False, ap_completion_delay_ns := 0\<rparr>) s)))
      else upd_ciap (\<lambda>c. c\<lparr>ap_completion_delay_ns := ap_completion_delay_ns c - step\<rparr>) s)"

text \<open>One pass of the refill loop: release the consumed buffer, notify, start the next one.\<close>

definition consume_audio_buffer :: "'a cd_board_scheme \<Rightarrow> 'a cd_board_scheme" where
  "consume_audio_buffer s =
     (let b = audio_buffer (b_ciap s);
          s1 = modify_word CIAP_BMAN (\<lambda>w. w AND NOT (buffer_bit b)) s;
          s2 = upd_ciap (\<lambda>c. c\<lparr>audio_active := False, audio_remaining_ns := 0, audio_buffer := \<not> b\<rparr>) s1;
          s3 = modify_word CIAP_AP_POINTER (\<lambda>_. ucast (pointer_base (\<not> b))) s2;
          s4 = assert_interrupt_line (modify_word CIAP_ISR (\<lambda>w. w OR 0x0002) s3);
          s5 = start_audio_buffer s4
      in if audio_active (b_ciap s5) then s5
         else
           let s6 = modify_word CIAP_ASTAT (\<lambda>w. w AND NOT 0x0040) s5
           in if audio_finish_requested (b_ciap s6)
              then request_ap_completion
                     (upd_ciap (\<lambda>c. c\<lparr>audio_playing := False, audio_finish_requested := False\<rparr>) s6)
              else s6)"

definition owned_audio :: "CiapDevice \<Rightarrow> nat" where
  "owned_audio c = of_bool (bit (read_word CIAP_BMAN c) 0) + of_bool (bit (read_word CIAP_BMAN c) 1)"

definition refill_measure :: "CiapDevice \<Rightarrow> nat" where
  "refill_measure c =
     owned_audio c + of_bool (audio_active c \<and> read_word CIAP_BMAN c AND buffer_bit (audio_buffer c) = 0)"

section \<open>Register file lemmas\<close>

lemma read_store_same [reg_simps]: "read_word a (store_word a v c) = v"
  by (simp add: read_word_def store_word_def)

lemma read_store_other [reg_simps]:
  "a \<noteq> b \<Longrightarrow> a + 1 \<noteq> b \<Longrightarrow> a \<noteq> b + 1 \<Longrightarrow> read_word a (store_word b v c) = read_word a c"
  by (auto simp: read_word_def store_word_def)

lemma read_word_memory: "memory c = memory d \<Longrightarrow> read_word a c = read_word a d"
  by (simp add: read_word_def)

text \<open>Flags and counters are not part of the register RAM.\<close>

lemma read_word_fields [reg_simps]:
  "\<And>x. read_word a (c\<lparr>sector_elapsed_ns := x\<rparr>) = read_word a c"
  "\<And>x. read_word a (c\<lparr>data_deliveries := x\<rparr>) = read_word a c"
  "\<And>x. read_word a (c\<lparr>locator_deliveries := x\<rparr>) = read_word a c"
  "\<And>x. read_word a (c\<lparr>held_ticks := x\<rparr>) = read_word a c"
  "\<And>x. read_word a (c\<lparr>drive_lba := x\<rparr>) = read_word a c"
  "\<And>x. read_word a (c\<lparr>last_lba := x\<rparr>) = read_word a c"
  "\<And>x. read_word a (c\<lparr>last_file := x\<rparr>) = read_word a c"
  "\<And>x. read_word a (c\<lparr>last_channel := x\<rparr>) = read_word a c"
  "\<And>x. read_word a (c\<lparr>last_submode := x\<rparr>) = read_word a c"
  "\<And>x. read_word a (c\<lparr>last_coding := x\<rparr>) = read_word a c"
  "\<And>x. read_word a (c\<lparr>last_selected := x\<rparr>) = read_word a c"
  "\<And>x. read_word a (c\<lparr>next_data_buffer := x\<rparr>) = read_word a c"
  "\<And>x. read_word a (c\<lparr>next_q_buffer := x\<rparr>) = read_word a c"
  "\<And>x. read_word a (c\<lparr>drive_positioned := x\<rparr>) = read_word a c"
  "\<And>x. read_word a (c\<lparr>audio_positioned := x\<rparr>) = read_word a c"
  "\<And>x. read_word a (c\<lparr>data_running := x\<rparr>) = read_word a c"
  "\<And>x. read_word a (c\<lparr>data_path_armed := x\<rparr>) = read_word a c"
  "\<And>x. read_word a (c\<lparr>firmware_idle := x\<rparr>) = read_word a c"
  "\<And>x. read_word a (c\<lparr>q_reporting := x\<rparr>) = read_word a c"
  "\<And>x. read_word a (c\<lparr>selection_active := x\<rparr>) = read_word a c"
  "\<And>x. read_word a (c\<lparr>selection_header_pending := x\<rparr>) = read_word a c"
  "\<And>x. read_word a (c\<lparr>ap_completion_pending := x\<rparr>) = read_word a c"
  "\<And>x. read_word a (c\<lparr>ap_completion_delay_ns := x\<rparr>) = read_word a c"
  "\<And>x. read_word a (c\<lparr>audio_remaining_ns := x\<rparr>) = read_word a c"
  "\<And>x. read_word a (c\<lparr>audio_duration_ns := x\<rparr>) = read_word a c"
  "\<And>x. read_word a (c\<lparr>audio_format := x\<rparr>) = read_word a c"
  "\<And>x. read_word a (c\<lparr>audio_playing := x\<rparr>) = read_word a c"
  "\<And>x. read_word a (c\<lparr>audio_buffer := x\<rparr>) = read_word a c"
  "\<And>x. read_word a (c\<lparr>audio_active := x\<rparr>) = read_word a c"
  "\<And>x. read_word a (c\<lparr>audio_finish_requested := x\<rparr>) = read_word a c"
  "\<And>x. read_word a (c\<lparr>audio_select_pending := x\<rparr>) = read_word a c"
  "\<And>x. read_word a (c\<lparr>ciap_initialized := x\<rparr>) = read_word a c"
  by (simp_all add: read_word_def)

lemma store_word_fields [reg_simps]:
  "audio_active (store_word a v c) = audio_active c" "audio_buffer (store_word a v c) = audio_buffer c"
  "audio_playing (store_word a v c) = audio_playing c"
  "audio_finish_requested (store_word a v c) = audio_finish_requested c"
  "audio_select_pending (store_word a v c) = audio_select_pending c"
  "sector_elapsed_ns (store_word a v c) = sector_elapsed_ns c"
  "data_running (store_word a v c) = data_running c"
  by (simp_all add: store_word_def)

lemma b_ciap_upd [reg_simps]:
  "b_ciap (upd_ciap f s) = f (b_ciap s)"
  "b_ciap (modify_word a g s) = store_word a (g (read_word a (b_ciap s))) (b_ciap s)"
  by (simp_all add: upd_ciap_def modify_word_def)

lemma b_ciap_irq [reg_simps]:
  "b_ciap (assert_interrupt_line s) = b_ciap s" "b_ciap (clear_interrupt_line s) = b_ciap s"
  by (simp_all add: assert_interrupt_line_def clear_interrupt_line_def Let_def)

lemma start_audio_buffer_bman:
  "read_word CIAP_BMAN (b_ciap (start_audio_buffer s)) = read_word CIAP_BMAN (b_ciap s)"
  by (simp add: start_audio_buffer_def select_audio_buffer_def Let_def reg_simps read_word_def split: prod.splits)
    (simp add: store_word_def)

lemma start_audio_buffer_active:
  assumes "\<not> audio_active (b_ciap s)" and "audio_active (b_ciap (start_audio_buffer s))"
  shows "read_word CIAP_BMAN (b_ciap s) AND buffer_bit (audio_buffer (b_ciap (start_audio_buffer s))) \<noteq> 0"
  using assms
  by (auto simp: start_audio_buffer_def select_audio_buffer_def Let_def reg_simps read_word_def
      split: prod.splits if_splits)

section \<open>The loops\<close>

lemma and_buffer_bit: "w AND buffer_bit b = 0 \<longleftrightarrow> \<not> bit w (if b then 1 else 0)"
  using and_exp_eq_0_iff [of w 0] and_exp_eq_0_iff [of w 1] by (simp add: buffer_bit_def)

lemma bit_clear_buffer: "bit (w AND NOT (buffer_bit b)) n \<longleftrightarrow> bit w n \<and> n \<noteq> (if b then 1 else 0)"
proof -
  have "buffer_bit b = push_bit (if b then 1 else 0) 1" by (simp add: buffer_bit_def)
  then show ?thesis by (auto simp: bit_simps bit_1_iff dest: bit_imp_le_length)
qed

lemma consume_decreases:
  assumes "audio_active (b_ciap s)"
  shows "refill_measure (b_ciap (consume_audio_buffer s)) < refill_measure (b_ciap s)"
proof -
  let ?b = "audio_buffer (b_ciap s)" and ?w = "read_word CIAP_BMAN (b_ciap s)"
  define s4 where "s4 = assert_interrupt_line (modify_word CIAP_ISR (\<lambda>w. w OR 0x0002)
    (modify_word CIAP_AP_POINTER (\<lambda>_. ucast (pointer_base (\<not> ?b)))
      (upd_ciap (\<lambda>c. c\<lparr>audio_active := False, audio_remaining_ns := 0, audio_buffer := \<not> ?b\<rparr>)
        (modify_word CIAP_BMAN (\<lambda>w. w AND NOT (buffer_bit ?b)) s))))"
  define s5 where "s5 = start_audio_buffer s4"
  let ?w' = "?w AND NOT (buffer_bit ?b)"
  have w4: "read_word CIAP_BMAN (b_ciap s4) = ?w'" "\<not> audio_active (b_ciap s4)"
    by (simp_all add: s4_def reg_simps)
  have w5: "read_word CIAP_BMAN (b_ciap s5) = ?w'"
    using start_audio_buffer_bman [of s4] w4 by (simp add: s5_def)
  have act: "audio_active (b_ciap s5) \<Longrightarrow> ?w' AND buffer_bit (audio_buffer (b_ciap s5)) \<noteq> 0"
    using start_audio_buffer_active [of s4] w4 by (simp add: s5_def)
  have m5: "refill_measure (b_ciap s5) = of_bool (bit ?w' 0) + of_bool (bit ?w' 1)"
    using act by (auto simp: refill_measure_def owned_audio_def w5)
  have cs: "consume_audio_buffer s =
      (if audio_active (b_ciap s5) then s5
       else let s6 = modify_word CIAP_ASTAT (\<lambda>w. w AND NOT 0x0040) s5
            in if audio_finish_requested (b_ciap s6)
               then request_ap_completion
                      (upd_ciap (\<lambda>c. c\<lparr>audio_playing := False, audio_finish_requested := False\<rparr>) s6)
               else s6)"
    by (simp add: consume_audio_buffer_def Let_def s5_def s4_def)
  have "refill_measure (b_ciap (consume_audio_buffer s)) = refill_measure (b_ciap s5)"
    unfolding cs by (auto simp: Let_def refill_measure_def owned_audio_def reg_simps request_ap_completion_def)
  moreover have "of_bool (bit ?w' 0) + of_bool (bit ?w' 1) < refill_measure (b_ciap s)"
    using assms by (cases ?b) (auto simp: refill_measure_def owned_audio_def bit_clear_buffer and_buffer_bit)
  ultimately show ?thesis by (simp add: m5)
qed

function audio_refill :: "u64 \<Rightarrow> 'a cd_board_scheme \<Rightarrow> u64 \<times> 'a cd_board_scheme" where
  "audio_refill audio_step s =
     (if audio_active (b_ciap s) \<and> audio_step \<ge> audio_remaining_ns (b_ciap s)
      then audio_refill (audio_step - audio_remaining_ns (b_ciap s)) (consume_audio_buffer s)
      else (audio_step, s))"
  by pat_completeness auto
termination
  by (relation "measure (\<lambda>(_, s). refill_measure (b_ciap s))") (auto simp: consume_decreases)

declare audio_refill.simps [simp del]

definition advance_audio :: "u64 \<Rightarrow> 'a cd_board_scheme \<Rightarrow> 'a cd_board_scheme" where
  "advance_audio step s =
     (let (audio_step, s1) = audio_refill step s; c = b_ciap s1
      in if audio_active c then
           let remaining = audio_remaining_ns c - audio_step;
               elapsed = audio_duration_ns c - remaining;
               pointer = pointer_base (audio_buffer c) + elapsed * 0x480 div audio_duration_ns c
           in modify_word CIAP_AP_POINTER (\<lambda>_. ucast pointer)
                (upd_ciap (\<lambda>c. c\<lparr>audio_remaining_ns := remaining\<rparr>) s1)
         else s1)"

abbreviation (input) "sector_period_ns \<equiv> 13333333 :: u64"

lemma report_keeps_elapsed [reg_simps]:
  "sector_elapsed_ns (b_ciap (report_file_events sector s)) = sector_elapsed_ns (b_ciap s)"
  "sector_elapsed_ns (b_ciap (report_locator lba s)) = sector_elapsed_ns (b_ciap s)"
  by (simp_all add: report_file_events_def report_locator_def write_q_locator_def Let_def reg_simps)

lemma payload_keeps_elapsed [reg_simps]:
  "sector_elapsed_ns (b_ciap (deliver_payload meta sector s)) = sector_elapsed_ns (b_ciap s)"
  by (simp add: deliver_payload_def fill_data_buffer_def Let_def reg_simps)

lemma deliver_keeps_elapsed [reg_simps]:
  "sector_elapsed_ns (b_ciap (deliver_one_sector s)) = sector_elapsed_ns (b_ciap s)"
  by (simp add: deliver_one_sector_def note_sector_def Let_def reg_simps split: option.split)

function deliver_sectors :: "'a cd_board_scheme \<Rightarrow> 'a cd_board_scheme" where
  "deliver_sectors s =
     (if sector_elapsed_ns (b_ciap s) \<ge> sector_period_ns then
        let s1 = deliver_one_sector
              (upd_ciap (\<lambda>c. c\<lparr>sector_elapsed_ns := sector_elapsed_ns c - sector_period_ns\<rparr>) s)
        in if data_running (b_ciap s1) then deliver_sectors s1 else s1
      else s)"
  by pat_completeness auto
termination
proof (relation "measure (\<lambda>s. unat (sector_elapsed_ns (b_ciap s)))", goal_cases)
  case (2 s x)
  then have "unat (sector_elapsed_ns (b_ciap s) - 13333333) = unat (sector_elapsed_ns (b_ciap s)) - 13333333"
    "13333333 \<le> unat (sector_elapsed_ns (b_ciap s))"
    by (simp_all add: unat_sub word_le_nat_alt)
  with 2 show ?case by (simp add: reg_simps)
qed simp

declare deliver_sectors.simps [simp del]

definition advance_streaming :: "u64 \<Rightarrow> 'a cd_board_scheme \<Rightarrow> 'a cd_board_scheme" where
  "advance_streaming step s =
     (let s1 = advance_audio step (finish_ap step s)
      in if \<not> data_running (b_ciap s1) then s1
         else deliver_sectors (upd_ciap (\<lambda>c. c\<lparr>sector_elapsed_ns := sector_elapsed_ns c + step\<rparr>) s1))"

definition cdic_increment_time :: "u64 \<Rightarrow> 'a cd_board_scheme \<Rightarrow> 'a cd_board_scheme" where
  "cdic_increment_time step s = advance_streaming step (ciap_ensure_initialized s)"

section \<open>Deferred time\<close>

text \<open>
  The same operations when streaming jobs are compiled in (\<^verbatim>\<open>CDI_STREAMING_HLE\<close>): quanta that stay before
  the next event are accumulated in \<open>pending_ns\<close> and applied at the first observation or deadline.
\<close>

record job_time =
  pending_ns :: u64
  deadline_ns :: u64
  deadline_valid :: bool

abbreviation (input) "UINT64_MAX \<equiv> 0xFFFFFFFFFFFFFFFF :: u64"

definition next_deadline :: "CiapDevice \<Rightarrow> u64" where
  "next_deadline c =
     (let d0 = UINT64_MAX;
          d1 = (if ap_completion_pending c then ap_completion_delay_ns c else d0);
          d2 = (if audio_active c \<and> audio_remaining_ns c < d1 then audio_remaining_ns c else d1);
          sector = sector_period_ns - sector_elapsed_ns c
      in if data_running c \<and> sector < d2 then sector else d2)"

definition observe_streaming :: "job_time \<times> 'a cd_board_scheme \<Rightarrow> job_time \<times> 'a cd_board_scheme" where
  "observe_streaming = (\<lambda>(j, s0).
     let s = ciap_ensure_initialized s0; j1 = j\<lparr>deadline_valid := False\<rparr>
     in if pending_ns j1 \<noteq> 0 then (j1\<lparr>pending_ns := 0\<rparr>, advance_streaming (pending_ns j1) s) else (j1, s))"

definition cdic_increment_time_deferred ::
  "u64 \<Rightarrow> job_time \<times> 'a cd_board_scheme \<Rightarrow> job_time \<times> 'a cd_board_scheme" where
  "cdic_increment_time_deferred step = (\<lambda>(j, s0).
     let s = ciap_ensure_initialized s0;
         j1 = (if deadline_valid j then j
               else j\<lparr>deadline_ns := next_deadline (b_ciap s), deadline_valid := True\<rparr>)
     in if deadline_ns j1 = UINT64_MAX then (j1, s)
        else if step < deadline_ns j1 - pending_ns j1 then (j1\<lparr>pending_ns := pending_ns j1 + step\<rparr>, s)
        else (j1\<lparr>pending_ns := 0, deadline_valid := False\<rparr>, advance_streaming (step + pending_ns j1) s))"

definition cdi_streaming_quiet_quanta :: "u32 \<Rightarrow> u64 \<Rightarrow> u64 \<Rightarrow> CiapDevice \<Rightarrow> u32" where
  "cdi_streaming_quiet_quanta maximum quantum_ns pending c =
     (let limit = next_deadline c
      in if \<not> ciap_initialized c then 0
         else if limit = UINT64_MAX then maximum
         else if limit \<le> pending then 0
         else let quiet = (limit - pending - 1) div quantum_ns
              in if quiet < ucast maximum then ucast quiet else maximum)"

section \<open>DMA words\<close>

definition dma_next :: "u16 \<Rightarrow> u16" where
  "dma_next control = (control AND 0xE000) OR ((control AND 0x1FFF) + 1 AND 0x1FFF)"

definition cdic_dma_pull_word :: "'a cd_board_scheme \<Rightarrow> u16 \<times> 'a cd_board_scheme" where
  "cdic_dma_pull_word s0 =
     (let s = ciap_ensure_initialized s0; control = read_word CIAP_DMACTL (b_ciap s);
          word_offset = (ucast (control AND 0x1FFF) :: u32)
      in if word_offset * 2 + 1 \<ge> 0x4000 then (0, s)
         else
           let s1 = modify_word CIAP_DMACTL (\<lambda>_. dma_next control) s
           in (read_word (word_offset * 2) (b_ciap s1), s1))"

definition cdic_dma_push_word :: "u16 \<Rightarrow> 'a cd_board_scheme \<Rightarrow> 'a cd_board_scheme" where
  "cdic_dma_push_word v s0 =
     (let s = ciap_ensure_initialized s0; control = read_word CIAP_DMACTL (b_ciap s);
          word_offset = (ucast (control AND 0x1FFF) :: u32);
          s1 = (if word_offset * 2 + 1 < 0x4000 then modify_word (word_offset * 2) (\<lambda>_. v) s else s)
      in modify_word CIAP_DMACTL (\<lambda>_. dma_next control) s1)"

definition cdic_dma_complete :: "'a cd_board_scheme \<Rightarrow> 'a cd_board_scheme" where
  "cdic_dma_complete s = modify_word CIAP_DMACTL (\<lambda>w. w AND NOT 0x4000) (ciap_ensure_initialized s)"

end
