(* ===== verification/Ciap_Laws.thy ===== *)
theory Ciap_Laws
  imports Ciap_Stream
begin

unbundle bit_operations_syntax

text \<open>
  Laws of CIAP device time. Time that ends before the next deadline is additive (\<open>advance_streaming_add\<close>);
  from this follow the refinement of the deferred-time form, the quiet batch of the idle job
  (interpretation \<open>ciap_quiet\<close>) and, with a frame argument over every store, that owned data buffers are
  never overwritten.
\<close>

section \<open>Quiet time\<close>

definition quiet_ap :: "u64 \<Rightarrow> CiapDevice \<Rightarrow> CiapDevice" where
  "quiet_ap a c = (if ap_completion_pending c
     then c\<lparr>ap_completion_delay_ns := ap_completion_delay_ns c - a\<rparr> else c)"

definition play_pointer :: "u64 \<Rightarrow> CiapDevice \<Rightarrow> u64" where
  "play_pointer remaining c =
     pointer_base (audio_buffer c) + (audio_duration_ns c - remaining) * 0x480 div audio_duration_ns c"

definition quiet_audio :: "u64 \<Rightarrow> CiapDevice \<Rightarrow> CiapDevice" where
  "quiet_audio a c = (if audio_active c
     then store_word CIAP_AP_POINTER (ucast (play_pointer (audio_remaining_ns c - a) c))
            (c\<lparr>audio_remaining_ns := audio_remaining_ns c - a\<rparr>) else c)"

definition quiet_sector :: "u64 \<Rightarrow> CiapDevice \<Rightarrow> CiapDevice" where
  "quiet_sector a c = (if data_running c then c\<lparr>sector_elapsed_ns := sector_elapsed_ns c + a\<rparr> else c)"

definition quiet_ciap :: "u64 \<Rightarrow> CiapDevice \<Rightarrow> CiapDevice" where
  "quiet_ciap a c = quiet_sector a (quiet_audio a (quiet_ap a c))"

definition quiet_for :: "u64 \<Rightarrow> CiapDevice \<Rightarrow> bool" where
  "quiet_for a c \<longleftrightarrow>
     (ap_completion_pending c \<longrightarrow> a < ap_completion_delay_ns c) \<and>
     (audio_active c \<longrightarrow> a < audio_remaining_ns c) \<and>
     (data_running c \<longrightarrow> unat (sector_elapsed_ns c) + unat a < 13333333)"

lemma upd_ciap_comp [reg_simps]: "upd_ciap f (upd_ciap g s) = upd_ciap (f \<circ> g) s"
  by (simp add: upd_ciap_def)

lemma upd_ciap_cong: "f (b_ciap s) = g (b_ciap s) \<Longrightarrow> upd_ciap f s = upd_ciap g s"
  by (simp add: upd_ciap_def)

lemma upd_ciap_id: "f (b_ciap s) = b_ciap s \<Longrightarrow> upd_ciap f s = s"
  by (simp add: upd_ciap_def)

lemma finish_ap_quiet: "quiet_for a (b_ciap s) \<Longrightarrow> finish_ap a s = upd_ciap (quiet_ap a) s"
  by (auto simp: finish_ap_def quiet_for_def quiet_ap_def upd_ciap_def not_le)

lemma advance_audio_quiet:
  assumes "audio_active (b_ciap s) \<Longrightarrow> a < audio_remaining_ns (b_ciap s)"
  shows "advance_audio a s = upd_ciap (quiet_audio a) s"
proof -
  have "audio_refill a s = (a, s)"
    using assms by (subst audio_refill.simps) (auto simp: not_le)
  then show ?thesis
    by (simp add: advance_audio_def Let_def quiet_audio_def play_pointer_def modify_word_def upd_ciap_def)
qed

lemma deliver_sectors_quiet: "sector_elapsed_ns (b_ciap s) < 13333333 \<Longrightarrow> deliver_sectors s = s"
  by (subst deliver_sectors.simps) (simp add: not_le)

lemma elapsed_less: "unat x + unat a < 13333333 \<Longrightarrow> x + a < (13333333 :: u64)"
  by (simp add: word_less_nat_alt unat_add_no_wrap)

lemma quiet_fields [reg_simps]:
  "data_running (quiet_audio a c) = data_running c" "data_running (quiet_ap a c) = data_running c"
  "audio_active (quiet_ap a c) = audio_active c" "audio_remaining_ns (quiet_ap a c) = audio_remaining_ns c"
  "sector_elapsed_ns (quiet_audio a c) = sector_elapsed_ns c" "sector_elapsed_ns (quiet_ap a c) = sector_elapsed_ns c"
  by (simp_all add: quiet_audio_def quiet_ap_def reg_simps)

lemma advance_streaming_quiet:
  assumes "quiet_for a (b_ciap s)"
  shows "advance_streaming a s = upd_ciap (quiet_ciap a) s"
proof -
  let ?s1 = "upd_ciap (quiet_audio a) (upd_ciap (quiet_ap a) s)"
  have 1: "advance_audio a (finish_ap a s) = ?s1"
    using assms advance_audio_quiet [of "upd_ciap (quiet_ap a) s" a]
    by (simp add: finish_ap_quiet) (simp add: quiet_for_def reg_simps)
  have "deliver_sectors (upd_ciap (\<lambda>c. c\<lparr>sector_elapsed_ns := sector_elapsed_ns c + a\<rparr>) ?s1) =
      upd_ciap (\<lambda>c. c\<lparr>sector_elapsed_ns := sector_elapsed_ns c + a\<rparr>) ?s1" if "data_running (b_ciap s)"
    using assms that by (intro deliver_sectors_quiet) (simp add: quiet_for_def reg_simps elapsed_less)
  then show ?thesis
    by (cases "data_running (b_ciap s)")
      (simp_all add: advance_streaming_def 1 Let_def reg_simps, simp_all add: upd_ciap_def quiet_ciap_def quiet_sector_def reg_simps)
qed

section \<open>Commuting with the sector clock\<close>

definition set_elapsed :: "u64 \<Rightarrow> 'a cd_board_scheme \<Rightarrow> 'a cd_board_scheme" where
  "set_elapsed x = upd_ciap (\<lambda>c. c\<lparr>sector_elapsed_ns := x\<rparr>)"

lemma set_elapsed_reads [reg_simps]:
  "read_word a (b_ciap (set_elapsed x s)) = read_word a (b_ciap s)"
  "audio_active (b_ciap (set_elapsed x s)) = audio_active (b_ciap s)"
  "audio_remaining_ns (b_ciap (set_elapsed x s)) = audio_remaining_ns (b_ciap s)"
  "audio_buffer (b_ciap (set_elapsed x s)) = audio_buffer (b_ciap s)"
  "audio_finish_requested (b_ciap (set_elapsed x s)) = audio_finish_requested (b_ciap s)"
  "data_running (b_ciap (set_elapsed x s)) = data_running (b_ciap s)"
  "audio_playing (b_ciap (set_elapsed x s)) = audio_playing (b_ciap s)"
  "audio_format (b_ciap (set_elapsed x s)) = audio_format (b_ciap s)"
  "sound_groups_at (b_ciap (set_elapsed x s)) = sound_groups_at (b_ciap s)"
  "b_audio (set_elapsed x s) = b_audio s"
  by (simp_all add: set_elapsed_def reg_simps sound_groups_at_def [abs_def] upd_ciap_def)

lemma set_elapsed_modify: "modify_word a f (set_elapsed x s) = set_elapsed x (modify_word a f s)"
  by (simp add: set_elapsed_def modify_word_def upd_ciap_def store_word_def read_word_def)

lemma set_elapsed_assert: "assert_interrupt_line (set_elapsed x s) = set_elapsed x (assert_interrupt_line s)"
  by (simp add: set_elapsed_def assert_interrupt_line_def upd_ciap_def interrupt_level_def interrupt_vector_def
      read_word_def Let_def)

lemma set_elapsed_upd:
  "(\<And>c. f (c\<lparr>sector_elapsed_ns := x\<rparr>) = (f c)\<lparr>sector_elapsed_ns := x\<rparr>) \<Longrightarrow>
     upd_ciap f (set_elapsed x s) = set_elapsed x (upd_ciap f s)"
  by (simp add: set_elapsed_def upd_ciap_def)

lemma set_elapsed_select:
  "select_audio_buffer (c\<lparr>sector_elapsed_ns := x\<rparr>) = (select_audio_buffer c)\<lparr>sector_elapsed_ns := x\<rparr>"
  by (simp add: select_audio_buffer_def reg_simps Let_def)

lemma set_elapsed_audio_field: "(set_elapsed x s)\<lparr>b_audio := a\<rparr> = set_elapsed x (s\<lparr>b_audio := a\<rparr>)"
  by (simp add: set_elapsed_def upd_ciap_def)

lemma set_elapsed_start: "start_audio_buffer (set_elapsed x s) = set_elapsed x (start_audio_buffer s)"
  by (simp add: start_audio_buffer_def set_elapsed_upd set_elapsed_select set_elapsed_reads
      set_elapsed_audio_field set_elapsed_modify Let_def split: prod.split)

lemma set_elapsed_consume: "consume_audio_buffer (set_elapsed x s) = set_elapsed x (consume_audio_buffer s)"
  by (simp add: consume_audio_buffer_def Let_def set_elapsed_modify set_elapsed_assert set_elapsed_start
      set_elapsed_upd set_elapsed_reads request_ap_completion_def)

lemma set_elapsed_refill: "audio_refill n (set_elapsed x s) = apsnd (set_elapsed x) (audio_refill n s)"
proof (induction n s rule: audio_refill.induct)
  case (1 n s)
  then show ?case
    by (subst (1 2) audio_refill.simps) (simp add: set_elapsed_reads set_elapsed_consume)
qed

lemma set_elapsed_audio: "advance_audio n (set_elapsed x s) = set_elapsed x (advance_audio n s)"
  by (cases "audio_refill n s")
    (simp add: advance_audio_def set_elapsed_refill Let_def set_elapsed_reads, simp add: set_elapsed_def upd_ciap_def modify_word_def store_word_def)

lemma sub_le_iff_add:
  assumes "a < (d :: u64)" and "unat a + unat b < 2 ^ 64"
  shows "d - a \<le> b \<longleftrightarrow> d \<le> a + b" and "a + b < d \<Longrightarrow> d - a - b = d - (a + b)"
    and "d \<le> a + b \<Longrightarrow> b - (d - a) = a + b - d"
proof -
  have ab: "unat (a + b) = unat a + unat b" using assms(2) by (simp add: unat_add_no_wrap)
  have da: "unat (d - a) = unat d - unat a" "unat a < unat d"
    using assms(1) by (simp_all add: unat_sub word_le_nat_alt word_less_nat_alt)
  show "d - a \<le> b \<longleftrightarrow> d \<le> a + b" using da by (auto simp: word_le_nat_alt ab)
qed (simp_all add: algebra_simps)

lemma quiet_audio_irq_reads:
  "r \<noteq> CIAP_AP_POINTER \<Longrightarrow> r + 1 \<noteq> CIAP_AP_POINTER \<Longrightarrow> r \<noteq> CIAP_AP_POINTER + 1 \<Longrightarrow>
     read_word r (quiet_audio a c) = read_word r c"
  "read_word r (quiet_sector a c) = read_word r c"
  by (simp_all add: quiet_audio_def quiet_sector_def reg_simps)

definition quiet_rest :: "u64 \<Rightarrow> CiapDevice \<Rightarrow> CiapDevice" where
  "quiet_rest a c = quiet_sector a (quiet_audio a c)"

lemma quiet_rest_store:
  assumes "r \<noteq> CIAP_AP_POINTER" "r + 1 \<noteq> CIAP_AP_POINTER" "r \<noteq> CIAP_AP_POINTER + 1"
  shows "store_word r v (quiet_rest a c) = quiet_rest a (store_word r v c)"
  using assms
  by (auto simp: quiet_rest_def quiet_audio_def quiet_sector_def store_word_def play_pointer_def fun_upd_twist fun_eq_iff)

lemma quiet_rest_ap:
  "quiet_rest a (c\<lparr>ap_completion_pending := p\<rparr>) = (quiet_rest a c)\<lparr>ap_completion_pending := p\<rparr>"
  "quiet_rest a (c\<lparr>ap_completion_delay_ns := d\<rparr>) = (quiet_rest a c)\<lparr>ap_completion_delay_ns := d\<rparr>"
  "ap_completion_pending (quiet_rest a c) = ap_completion_pending c"
  "ap_completion_delay_ns (quiet_rest a c) = ap_completion_delay_ns c"
  by (simp_all add: quiet_rest_def quiet_audio_def quiet_sector_def store_word_def play_pointer_def)

lemma quiet_rest_assert:
  "assert_interrupt_line (upd_ciap (quiet_rest a) s) = upd_ciap (quiet_rest a) (assert_interrupt_line s)"
  by (simp add: assert_interrupt_line_def interrupt_level_def interrupt_vector_def Let_def upd_ciap_def
      quiet_rest_def quiet_audio_irq_reads)

lemma quiet_rest_modify:
  assumes "r \<noteq> CIAP_AP_POINTER" "r + 1 \<noteq> CIAP_AP_POINTER" "r \<noteq> CIAP_AP_POINTER + 1"
  shows "modify_word r f (upd_ciap (quiet_rest a) s) = upd_ciap (quiet_rest a) (modify_word r f s)"
  using quiet_rest_store [OF assms] quiet_audio_irq_reads(1) [OF assms]
  by (simp add: modify_word_def upd_ciap_def) (simp add: quiet_rest_def quiet_audio_irq_reads)

lemma finish_ap_rest: "finish_ap b (upd_ciap (quiet_rest a) s) = upd_ciap (quiet_rest a) (finish_ap b s)"
proof -
  have u1: "upd_ciap (\<lambda>c. c\<lparr>ap_completion_pending := p, ap_completion_delay_ns := d\<rparr>) (upd_ciap (quiet_rest a) s) =
      upd_ciap (quiet_rest a) (upd_ciap (\<lambda>c. c\<lparr>ap_completion_pending := p, ap_completion_delay_ns := d\<rparr>) s)" for p d
    by (simp add: upd_ciap_def quiet_rest_ap)
  have u2: "upd_ciap (\<lambda>c. c\<lparr>ap_completion_delay_ns := ap_completion_delay_ns c - b\<rparr>) (upd_ciap (quiet_rest a) s) =
      upd_ciap (quiet_rest a) (upd_ciap (\<lambda>c. c\<lparr>ap_completion_delay_ns := ap_completion_delay_ns c - b\<rparr>) s)"
    by (simp add: upd_ciap_def quiet_rest_ap)
  have sel: "ap_completion_pending (b_ciap (upd_ciap (quiet_rest a) s)) = ap_completion_pending (b_ciap s)"
    "ap_completion_delay_ns (b_ciap (upd_ciap (quiet_rest a) s)) = ap_completion_delay_ns (b_ciap s)"
    by (simp_all add: b_ciap_upd quiet_rest_ap)
  show ?thesis
    unfolding finish_ap_def sel u1 u2
    by (simp add: quiet_rest_modify quiet_rest_assert del: upd_ciap_comp)
qed

lemma finish_ap_split:
  assumes "ap_completion_pending (b_ciap s) \<Longrightarrow> a < ap_completion_delay_ns (b_ciap s)"
    and "unat a + unat b < 2 ^ 64"
  shows "finish_ap b (upd_ciap (quiet_ap a) s) = finish_ap (a + b) s"
proof (cases "ap_completion_pending (b_ciap s)")
  case True
  note d = sub_le_iff_add [OF assms(1) [OF True] assms(2)]
  have q: "upd_ciap f (upd_ciap (quiet_ap a) s) = upd_ciap (f \<circ> quiet_ap a) s" for f by (rule upd_ciap_comp)
  show ?thesis
  proof (cases "ap_completion_delay_ns (b_ciap s) \<le> a + b")
    case ge: True
    then have "ap_completion_delay_ns (b_ciap s) - a \<le> b" using d by simp
    moreover have "upd_ciap ((\<lambda>c. c\<lparr>ap_completion_pending := False, ap_completion_delay_ns := 0\<rparr>) \<circ> quiet_ap a) s =
        upd_ciap (\<lambda>c. c\<lparr>ap_completion_pending := False, ap_completion_delay_ns := 0\<rparr>) s"
      by (rule upd_ciap_cong) (simp add: quiet_ap_def)
    ultimately show ?thesis using True ge
      unfolding finish_ap_def q by (simp add: b_ciap_upd quiet_ap_def)
  next
    case False
    then have "\<not> ap_completion_delay_ns (b_ciap s) - a \<le> b"
      "ap_completion_delay_ns (b_ciap s) - a - b = ap_completion_delay_ns (b_ciap s) - (a + b)"
      using d by (simp_all add: not_le)
    with True False show ?thesis by (simp add: finish_ap_def quiet_ap_def upd_ciap_def)
  qed
next
  case False
  then have "upd_ciap (quiet_ap a) s = s" by (intro upd_ciap_id) (simp add: quiet_ap_def)
  with False show ?thesis by (simp add: finish_ap_def)
qed

lemma consume_quiet: "consume_audio_buffer (upd_ciap (quiet_audio a) s) = consume_audio_buffer s"
proof -
  let ?f = "\<lambda>b c. c\<lparr>audio_active := False, audio_remaining_ns := 0, audio_buffer := \<not> b\<rparr>"
  let ?h = "\<lambda>b. \<lambda>w. w AND NOT (buffer_bit b)"
  have ab: "audio_buffer (quiet_audio a c) = audio_buffer c" for c by (simp add: quiet_audio_def reg_simps)
  have m: "(m(0x25B4 := p, 0x25B5 := q, 0x2594 := r, 0x2595 := t, 0x25B4 := v, 0x25B5 := w) :: u32 \<Rightarrow> u8) =
      m(0x2594 := r, 0x2595 := t, 0x25B4 := v, 0x25B5 := w)" for m p q r t v w
    by (simp add: fun_eq_iff)
  have "modify_word CIAP_AP_POINTER (\<lambda>_. v) (upd_ciap (?f b) (modify_word CIAP_BMAN (?h b) (upd_ciap (quiet_audio a) s))) =
      modify_word CIAP_AP_POINTER (\<lambda>_. v) (upd_ciap (?f b) (modify_word CIAP_BMAN (?h b) s))" for v b
    by (simp add: modify_word_def upd_ciap_def quiet_audio_irq_reads)
      (simp add: quiet_audio_def store_word_def m)
  then show ?thesis by (simp add: consume_audio_buffer_def Let_def b_ciap_upd ab)
qed

lemma quiet_audio_add:
  assumes "a < audio_remaining_ns c" and "unat a + unat b < 2 ^ 64"
  shows "quiet_audio b (quiet_audio a c) = quiet_audio (a + b) c"
proof -
  have tw: "store_word x v ((store_word x w c)\<lparr>audio_remaining_ns := r\<rparr>) = store_word x v (c\<lparr>audio_remaining_ns := r\<rparr>)" for x v w r c
    by (simp add: store_word_def fun_eq_iff)
  have pp: "play_pointer r (store_word x w (c\<lparr>audio_remaining_ns := r'\<rparr>)) = play_pointer r c" for r x w r'
    by (simp add: play_pointer_def store_word_def)
  have rem: "audio_remaining_ns (store_word x w (c\<lparr>audio_remaining_ns := r\<rparr>)) = r" for x w r
    by (simp add: store_word_def)
  show ?thesis by (simp add: quiet_audio_def store_word_fields tw pp rem diff_diff_eq)
qed

lemma advance_audio_split:
  assumes "audio_active (b_ciap s) \<Longrightarrow> a < audio_remaining_ns (b_ciap s)"
    and "unat a + unat b < 2 ^ 64"
  shows "advance_audio b (upd_ciap (quiet_audio a) s) = advance_audio (a + b) s"
proof (cases "audio_active (b_ciap s)")
  case False
  then have "upd_ciap (quiet_audio a) s = s" by (intro upd_ciap_id) (simp add: quiet_audio_def)
  moreover have "audio_refill n s = (n, s)" for n using False by (subst audio_refill.simps) simp
  ultimately show ?thesis using False by (simp add: advance_audio_def)
next
  case True
  let ?q = "upd_ciap (quiet_audio a) s" and ?r = "audio_remaining_ns (b_ciap s)"
  note d = sub_le_iff_add [OF assms(1) [OF True] assms(2)]
  have q: "audio_active (b_ciap ?q)" "audio_remaining_ns (b_ciap ?q) = ?r - a"
    using True by (simp_all add: b_ciap_upd quiet_audio_def store_word_def)
  show ?thesis
  proof (cases "?r \<le> a + b")
    case ge: True
    then have "audio_refill b ?q = audio_refill (b - (?r - a)) (consume_audio_buffer s)"
      using q d by (subst audio_refill.simps) (simp add: consume_quiet)
    moreover have "audio_refill (a + b) s = audio_refill (a + b - ?r) (consume_audio_buffer s)"
      using True ge by (subst audio_refill.simps) simp
    ultimately have "audio_refill b ?q = audio_refill (a + b) s" using d(3) [OF ge] by simp
    then show ?thesis by (simp add: advance_audio_def)
  next
    case False
    then have "\<not> ?r - a \<le> b" using d(1) by simp
    then have "advance_audio b ?q = upd_ciap (quiet_audio b) ?q"
      using q by (intro advance_audio_quiet) (simp only: not_le)
    also have "\<dots> = upd_ciap (quiet_audio (a + b)) s"
      unfolding upd_ciap_comp by (rule upd_ciap_cong) (simp add: quiet_audio_add [OF assms(1) [OF True] assms(2)])
    also have "\<dots> = advance_audio (a + b) s"
      using False by (intro advance_audio_quiet [symmetric]) (simp add: not_le)
    finally show ?thesis .
  qed
qed

lemma start_keeps_running [reg_simps]: "data_running (b_ciap (start_audio_buffer s)) = data_running (b_ciap s)"
  by (simp add: start_audio_buffer_def select_audio_buffer_def Let_def reg_simps split: prod.split)

lemma consume_keeps_running [reg_simps]: "data_running (b_ciap (consume_audio_buffer s)) = data_running (b_ciap s)"
  by (simp add: consume_audio_buffer_def Let_def reg_simps request_ap_completion_def)

lemma refill_keeps_running: "data_running (b_ciap (snd (audio_refill n s))) = data_running (b_ciap s)"
proof (induction n s rule: audio_refill.induct)
  case (1 n s)
  then show ?case by (subst audio_refill.simps) (simp add: reg_simps)
qed

lemma audio_keeps_running [reg_simps]: "data_running (b_ciap (advance_audio n s)) = data_running (b_ciap s)"
  using refill_keeps_running [of n s]
  by (cases "audio_refill n s") (simp add: advance_audio_def Let_def reg_simps)

lemma audio_keeps_elapsed [reg_simps]: "sector_elapsed_ns (b_ciap (advance_audio n s)) = sector_elapsed_ns (b_ciap s)"
proof -
  have "set_elapsed (sector_elapsed_ns (b_ciap s)) s = s"
    unfolding set_elapsed_def by (rule upd_ciap_id) simp
  then have "advance_audio n s = set_elapsed (sector_elapsed_ns (b_ciap s)) (advance_audio n s)"
    using set_elapsed_audio [of n "sector_elapsed_ns (b_ciap s)" s] by simp
  then show ?thesis by (metis b_ciap_upd(1) CiapDevice.select_convs(2) CiapDevice.surjective CiapDevice.update_convs(2) set_elapsed_def)
qed

lemma advance_audio_sector:
  "advance_audio n (upd_ciap (quiet_sector a) s) = upd_ciap (quiet_sector a) (advance_audio n s)"
proof (cases "data_running (b_ciap s)")
  case True
  let ?x = "sector_elapsed_ns (b_ciap s) + a"
  have e: "upd_ciap (quiet_sector a) t = set_elapsed (sector_elapsed_ns (b_ciap t) + a) t" if "data_running (b_ciap t)" for t :: "'a cd_board_scheme"
    unfolding set_elapsed_def using that by (intro upd_ciap_cong) (simp add: quiet_sector_def)
  show ?thesis using True by (simp add: e reg_simps set_elapsed_audio)
next
  case False
  have e: "upd_ciap (quiet_sector a) t = t" if "\<not> data_running (b_ciap t)" for t :: "'a cd_board_scheme"
    using that by (intro upd_ciap_id) (simp add: quiet_sector_def)
  show ?thesis using False by (simp add: e reg_simps)
qed

lemma finish_ap_fields:
  "audio_active (b_ciap (finish_ap n s)) = audio_active (b_ciap s)"
  "audio_remaining_ns (b_ciap (finish_ap n s)) = audio_remaining_ns (b_ciap s)"
  "data_running (b_ciap (finish_ap n s)) = data_running (b_ciap s)"
  by (simp_all add: finish_ap_def reg_simps) (simp add: store_word_def)

lemma advance_streaming_add:
  assumes "quiet_for a (b_ciap s)" and "unat a + unat b < 2 ^ 64"
  shows "advance_streaming b (advance_streaming a s) = advance_streaming (a + b) s"
proof -
  have qc: "upd_ciap (quiet_ciap a) s = upd_ciap (quiet_rest a) (upd_ciap (quiet_ap a) s)"
    unfolding upd_ciap_comp by (rule upd_ciap_cong) (simp add: quiet_ciap_def quiet_rest_def)
  let ?t = "finish_ap (a + b) s"
  have f: "finish_ap b (upd_ciap (quiet_ciap a) s) = upd_ciap (quiet_rest a) ?t"
    unfolding qc finish_ap_rest using assms by (simp add: finish_ap_split quiet_for_def)
  have "upd_ciap (quiet_rest a) ?t = upd_ciap (quiet_sector a) (upd_ciap (quiet_audio a) ?t)"
    unfolding upd_ciap_comp by (rule upd_ciap_cong) (simp add: quiet_rest_def)
  then have au: "advance_audio b (upd_ciap (quiet_rest a) ?t) = upd_ciap (quiet_sector a) (advance_audio (a + b) ?t)"
    using assms advance_audio_split [of ?t a b]
    by (simp add: advance_audio_sector finish_ap_fields quiet_for_def)
  let ?u = "advance_audio (a + b) ?t"
  have run: "data_running (b_ciap ?u) = data_running (b_ciap s)" by (simp add: reg_simps finish_ap_fields)
  have sec: "upd_ciap (\<lambda>c. c\<lparr>sector_elapsed_ns := sector_elapsed_ns c + b\<rparr>) (upd_ciap (quiet_sector a) ?u) =
      upd_ciap (\<lambda>c. c\<lparr>sector_elapsed_ns := sector_elapsed_ns c + (a + b)\<rparr>) ?u" if "data_running (b_ciap ?u)"
    unfolding upd_ciap_comp using that by (intro upd_ciap_cong) (simp add: quiet_sector_def add.assoc)
  have idle: "upd_ciap (quiet_sector a) ?u = ?u" if "\<not> data_running (b_ciap ?u)"
    using that by (intro upd_ciap_id) (simp add: quiet_sector_def)
  have qrun: "data_running (b_ciap (upd_ciap (quiet_sector a) ?u)) = data_running (b_ciap ?u)"
    by (simp add: b_ciap_upd quiet_sector_def)
  show ?thesis
    unfolding advance_streaming_quiet [OF assms(1)] advance_streaming_def [of b] advance_streaming_def [of "a + b"] f au Let_def qrun
    using sec idle by (cases "data_running (b_ciap ?u)") (simp_all del: upd_ciap_comp)
qed

section \<open>Deadlines\<close>

definition timers_ok :: "CiapDevice \<Rightarrow> bool" where
  "timers_ok c \<longleftrightarrow>
     (ap_completion_pending c \<longrightarrow> ap_completion_delay_ns c \<le> 20000) \<and>
     (audio_active c \<longrightarrow> audio_remaining_ns c \<le> 0x4000000000000)"

definition ciap_inv :: "CiapDevice \<Rightarrow> bool" where
  "ciap_inv c \<longleftrightarrow> timers_ok c \<and> (data_running c \<longrightarrow> sector_elapsed_ns c < sector_period_ns) \<and> ciap_initialized c"

lemma timers_ok_store [reg_simps]: "timers_ok (store_word a v c) = timers_ok c"
  by (simp add: timers_ok_def store_word_def)

lemma buffer_duration: "(ucast (f :: u32) :: u64) * 1000000000 div 37800 \<le> 0x4000000000000"
proof -
  have "unat (ucast f :: u64) = unat f"
    using u32_less [of f] by (simp add: unsigned_ucast_eq take_bit_nat_eq_self)
  then have "unat ((ucast f :: u64) * 1000000000) = unat f * 1000000000"
    using u32_less [of f] by (simp add: unat_word_ariths)
  then show ?thesis using u32_less [of f] by (simp add: word_le_nat_alt unat_div)
qed

lemma start_timers_ok: "timers_ok (b_ciap s) \<Longrightarrow> timers_ok (b_ciap (start_audio_buffer s))"
  by (auto simp: start_audio_buffer_def select_audio_buffer_def Let_def reg_simps split: prod.split)
    (auto simp: timers_ok_def buffer_duration)

lemma consume_timers_ok: "timers_ok (b_ciap s) \<Longrightarrow> timers_ok (b_ciap (consume_audio_buffer s))"
proof -
  assume ok: "timers_ok (b_ciap s)"
  define t where "t = start_audio_buffer (assert_interrupt_line (modify_word CIAP_ISR (\<lambda>w. w OR 0x0002)
    (modify_word CIAP_AP_POINTER (\<lambda>_. ucast (pointer_base (\<not> audio_buffer (b_ciap s))))
      (upd_ciap (\<lambda>c. c\<lparr>audio_active := False, audio_remaining_ns := 0, audio_buffer := \<not> audio_buffer (b_ciap s)\<rparr>)
        (modify_word CIAP_BMAN (\<lambda>w. w AND NOT (buffer_bit (audio_buffer (b_ciap s)))) s)))))"
  have "timers_ok (b_ciap t)"
    unfolding t_def using ok by (intro start_timers_ok) (simp add: reg_simps, simp add: timers_ok_def store_word_def)
  then show ?thesis
    by (simp add: consume_audio_buffer_def Let_def t_def [symmetric] request_ap_completion_def reg_simps)
      (simp add: timers_ok_def store_word_def)
qed

lemma refill_timers_ok: "timers_ok (b_ciap s) \<Longrightarrow> timers_ok (b_ciap (snd (audio_refill n s)))"
proof (induction n s rule: audio_refill.induct)
  case (1 n s)
  then show ?case by (subst audio_refill.simps) (simp add: consume_timers_ok)
qed

lemma refill_done:
  "audio_active (b_ciap (snd (audio_refill n s))) \<Longrightarrow>
     fst (audio_refill n s) < audio_remaining_ns (b_ciap (snd (audio_refill n s)))"
proof (induction n s rule: audio_refill.induct)
  case (1 n s)
  show ?case
  proof (cases "audio_active (b_ciap s) \<and> n \<ge> audio_remaining_ns (b_ciap s)")
    case True
    then have "audio_refill n s = audio_refill (n - audio_remaining_ns (b_ciap s)) (consume_audio_buffer s)"
      by (subst audio_refill.simps) simp
    with 1 True show ?thesis by simp
  next
    case False
    then have "audio_refill n s = (n, s)" by (subst audio_refill.simps) auto
    with 1 False show ?thesis by simp
  qed
qed

lemma sub_le_self: "a \<le> (r :: u64) \<Longrightarrow> r - a \<le> r"
  by (simp add: word_le_nat_alt unat_sub)

lemma audio_timers_ok: "timers_ok (b_ciap s) \<Longrightarrow> timers_ok (b_ciap (advance_audio n s))"
proof -
  assume "timers_ok (b_ciap s)"
  then have ok: "timers_ok (b_ciap (snd (audio_refill n s)))" by (rule refill_timers_ok)
  obtain m t where r: "audio_refill n s = (m, t)" by (cases "audio_refill n s")
  have "audio_active (b_ciap t) \<Longrightarrow> audio_remaining_ns (b_ciap t) - m \<le> audio_remaining_ns (b_ciap t)"
    using refill_done [of n s] by (intro sub_le_self) (simp add: r)
  with ok show ?thesis
    by (simp add: advance_audio_def r Let_def reg_simps) (auto simp: timers_ok_def)
qed

lemma finish_ap_timers_ok: "timers_ok (b_ciap s) \<Longrightarrow> timers_ok (b_ciap (finish_ap n s))"
proof -
  assume ok: "timers_ok (b_ciap s)"
  have "\<not> n \<ge> ap_completion_delay_ns (b_ciap s) \<Longrightarrow>
      ap_completion_delay_ns (b_ciap s) - n \<le> ap_completion_delay_ns (b_ciap s)"
    by (intro sub_le_self) simp
  with ok show ?thesis by (simp add: finish_ap_def reg_simps) (auto simp: timers_ok_def store_word_def)
qed

definition clocks :: "CiapDevice \<Rightarrow> bool \<times> u64 \<times> bool \<times> u64 \<times> bool" where
  "clocks c = (ap_completion_pending c, ap_completion_delay_ns c, audio_active c, audio_remaining_ns c, ciap_initialized c)"

lemma clocks_store [reg_simps]: "clocks (store_word a v c) = clocks c"
  by (simp add: clocks_def store_word_def)

lemma clocks_timers_ok: "clocks c = clocks d \<Longrightarrow> timers_ok c = timers_ok d \<and> ciap_initialized c = ciap_initialized d"
  by (simp add: clocks_def timers_ok_def)

lemma report_clocks [reg_simps]:
  "clocks (b_ciap (report_file_events sector s)) = clocks (b_ciap s)"
  "clocks (b_ciap (report_locator lba s)) = clocks (b_ciap s)"
  by (simp_all add: report_file_events_def report_locator_def write_q_locator_def Let_def reg_simps)
    (simp add: clocks_def)

lemma payload_clocks [reg_simps]: "clocks (b_ciap (deliver_payload meta sector s)) = clocks (b_ciap s)"
  by (simp add: deliver_payload_def fill_data_buffer_def Let_def reg_simps)
    (simp add: clocks_def store_word_def)

lemma deliver_clocks [reg_simps]: "clocks (b_ciap (deliver_one_sector s)) = clocks (b_ciap s)"
proof -
  have u: "clocks (b_ciap (upd_ciap (\<lambda>c. c\<lparr>drive_lba := drive_lba c + 1\<rparr>) t)) = clocks (b_ciap t)" for t :: "'a cd_board_scheme"
    by (simp add: b_ciap_upd clocks_def)
  have n: "clocks (note_sector lba sector c) = clocks c" for lba sector c by (simp add: note_sector_def clocks_def)
  have r: "clocks (b_ciap (upd_ciap (\<lambda>c. c\<lparr>data_running := False\<rparr>) s)) = clocks (b_ciap s)"
    by (simp add: b_ciap_upd clocks_def)
  show ?thesis
    by (simp add: deliver_one_sector_def Let_def u n r payload_clocks report_clocks b_ciap_upd(1) [of "note_sector lba sector" for lba sector] split: option.split)
qed

lemma deliver_sectors_clocks:
  "clocks (b_ciap (deliver_sectors s)) = clocks (b_ciap s) \<and>
   (data_running (b_ciap (deliver_sectors s)) \<longrightarrow> sector_elapsed_ns (b_ciap (deliver_sectors s)) < sector_period_ns)"
proof (induction s rule: deliver_sectors.induct)
  case (1 s)
  define s1 where "s1 = deliver_one_sector
    (upd_ciap (\<lambda>c. c\<lparr>sector_elapsed_ns := sector_elapsed_ns c - sector_period_ns\<rparr>) s)"
  have c1: "clocks (b_ciap s1) = clocks (b_ciap s)"
    by (simp add: s1_def deliver_clocks b_ciap_upd) (simp add: clocks_def)
  have u: "deliver_sectors s = (if sector_elapsed_ns (b_ciap s) \<ge> sector_period_ns
      then if data_running (b_ciap s1) then deliver_sectors s1 else s1 else s)"
    by (subst deliver_sectors.simps) (simp add: s1_def Let_def)
  from 1 [folded s1_def, OF _ refl] c1 show ?case by (simp add: u not_le)
qed

lemma store_initialized [reg_simps]: "ciap_initialized (store_word a v c) = ciap_initialized c"
  by (simp add: store_word_def)

lemma start_initialized [reg_simps]: "ciap_initialized (b_ciap (start_audio_buffer s)) = ciap_initialized (b_ciap s)"
  by (simp add: start_audio_buffer_def select_audio_buffer_def Let_def reg_simps split: prod.split)

lemma consume_initialized [reg_simps]: "ciap_initialized (b_ciap (consume_audio_buffer s)) = ciap_initialized (b_ciap s)"
  by (simp add: consume_audio_buffer_def Let_def reg_simps request_ap_completion_def)

lemma refill_initialized: "ciap_initialized (b_ciap (snd (audio_refill n s))) = ciap_initialized (b_ciap s)"
proof (induction n s rule: audio_refill.induct)
  case (1 n s)
  then show ?case by (subst audio_refill.simps) (simp add: reg_simps)
qed

lemma advance_streaming_inv:
  assumes "ciap_inv (b_ciap s)"
  shows "ciap_inv (b_ciap (advance_streaming n s))"
proof -
  let ?t = "advance_audio n (finish_ap n s)"
  have t: "timers_ok (b_ciap ?t)" "data_running (b_ciap ?t) = data_running (b_ciap s)"
    using assms by (simp_all add: audio_timers_ok finish_ap_timers_ok ciap_inv_def reg_simps finish_ap_fields)
  have "ciap_initialized (b_ciap (finish_ap n s))"
    using assms by (simp add: finish_ap_def ciap_inv_def reg_simps)
  then have i: "ciap_initialized (b_ciap ?t)"
    using refill_initialized [of n "finish_ap n s"]
    by (cases "audio_refill n (finish_ap n s)") (simp add: advance_audio_def Let_def reg_simps)
  show ?thesis
  proof (cases "data_running (b_ciap s)")
    case False
    then show ?thesis using t i by (simp add: advance_streaming_def Let_def ciap_inv_def)
  next
    case True
    let ?u = "upd_ciap (\<lambda>c. c\<lparr>sector_elapsed_ns := sector_elapsed_ns c + n\<rparr>) ?t"
    have "clocks (b_ciap ?u) = clocks (b_ciap ?t)" by (simp add: b_ciap_upd clocks_def)
    with deliver_sectors_clocks [of ?u] have d: "clocks (b_ciap (deliver_sectors ?u)) = clocks (b_ciap ?t)" by simp
    from True t(2) have "advance_streaming n s = deliver_sectors ?u" by (simp add: advance_streaming_def Let_def)
    with clocks_timers_ok [OF d] deliver_sectors_clocks [of ?u] t(1) i show ?thesis by (simp add: ciap_inv_def)
  qed
qed

lemma next_deadline_quiet:
  assumes "ciap_inv c"
  shows "next_deadline c \<noteq> UINT64_MAX \<Longrightarrow> a < next_deadline c \<Longrightarrow> quiet_for a c"
    and "next_deadline c = UINT64_MAX \<Longrightarrow>
      \<not> ap_completion_pending c \<and> \<not> audio_active c \<and> \<not> data_running c"
    and "next_deadline c \<noteq> UINT64_MAX \<Longrightarrow> next_deadline c \<le> 0x4000000000000"
proof -
  have sec: "data_running c \<Longrightarrow> unat (sector_period_ns - sector_elapsed_ns c) = 13333333 - unat (sector_elapsed_ns c) \<and> unat (sector_elapsed_ns c) < 13333333"
    using assms by (simp add: ciap_inv_def unat_sub word_less_nat_alt word_le_nat_alt)
  have ap: "ap_completion_pending c \<Longrightarrow> unat (ap_completion_delay_ns c) \<le> 20000"
    and au: "audio_active c \<Longrightarrow> unat (audio_remaining_ns c) \<le> 0x4000000000000"
    using assms by (simp_all add: ciap_inv_def timers_ok_def word_le_nat_alt)
  show "next_deadline c \<noteq> UINT64_MAX \<Longrightarrow> a < next_deadline c \<Longrightarrow> quiet_for a c"
    using sec ap au by (auto simp: next_deadline_def quiet_for_def Let_def word_less_nat_alt split: if_splits)
  show "next_deadline c = UINT64_MAX \<Longrightarrow> \<not> ap_completion_pending c \<and> \<not> audio_active c \<and> \<not> data_running c"
    using sec ap au by (auto simp: next_deadline_def Let_def word_less_nat_alt word_unat_eq_iff split: if_splits)
  show "next_deadline c \<noteq> UINT64_MAX \<Longrightarrow> next_deadline c \<le> 0x4000000000000"
    using sec ap au by (auto simp: next_deadline_def Let_def word_less_nat_alt word_le_nat_alt split: if_splits)
qed

section \<open>Deferred time refines device time\<close>

definition job_inv :: "job_time \<times> 'a cd_board_scheme \<Rightarrow> bool" where
  "job_inv js \<longleftrightarrow> (case js of (j, s) \<Rightarrow>
     ciap_inv (b_ciap s) \<and>
     (if deadline_valid j
      then deadline_ns j = next_deadline (b_ciap s) \<and> (pending_ns j = 0 \<or> deadline_ns j \<noteq> UINT64_MAX \<and> pending_ns j < deadline_ns j)
      else pending_ns j = 0))"

definition materialize :: "job_time \<times> 'a cd_board_scheme \<Rightarrow> 'a cd_board_scheme" where
  "materialize js = snd (observe_streaming js)"

lemma ensure_id: "ciap_initialized (b_ciap s) \<Longrightarrow> ciap_ensure_initialized s = s"
  by (simp add: ciap_ensure_initialized_def)

lemma materialize_pending:
  assumes "job_inv (j, s)"
  shows "materialize (j, s) = (if pending_ns j = 0 then s else advance_streaming (pending_ns j) s)"
  using assms by (simp add: materialize_def observe_streaming_def Let_def ensure_id job_inv_def ciap_inv_def)

lemma idle_streaming:
  "\<not> ap_completion_pending (b_ciap s) \<Longrightarrow> \<not> audio_active (b_ciap s) \<Longrightarrow> \<not> data_running (b_ciap s) \<Longrightarrow>
     advance_streaming n s = s"
proof -
  assume a: "\<not> ap_completion_pending (b_ciap s)" "\<not> audio_active (b_ciap s)" "\<not> data_running (b_ciap s)"
  then have "audio_refill n s = (n, s)" by (subst audio_refill.simps) simp
  with a show ?thesis by (simp add: advance_streaming_def finish_ap_def advance_audio_def)
qed

lemma deferred_step:
  assumes inv: "job_inv (j, s)" and small: "0 < step" "unat step < 2 ^ 63"
  shows "materialize (cdic_increment_time_deferred step (j, s)) = cdic_increment_time step (materialize (j, s))"
    and "job_inv (cdic_increment_time_deferred step (j, s))"
proof -
  let ?c = "b_ciap s" and ?p = "pending_ns j"
  have c: "ciap_inv ?c" and ini: "ciap_initialized ?c" using inv by (simp_all add: job_inv_def ciap_inv_def)
  define j1 where "j1 = (if deadline_valid j then j else j\<lparr>deadline_ns := next_deadline ?c, deadline_valid := True\<rparr>)"
  have j1: "deadline_ns j1 = next_deadline ?c" "pending_ns j1 = ?p" "deadline_valid j1"
    using inv by (auto simp: j1_def job_inv_def split: if_splits)
  have pend: "?p = 0 \<or> next_deadline ?c \<noteq> UINT64_MAX \<and> ?p < next_deadline ?c"
    using inv by (auto simp: job_inv_def split: if_splits)
  have mat: "materialize (j, s) = (if ?p = 0 then s else advance_streaming ?p s)"
    using inv by (rule materialize_pending)
  have iniM: "ciap_initialized (b_ciap (materialize (j, s)))"
    using c advance_streaming_inv [OF c, of ?p] by (simp add: mat ciap_inv_def)
  have inc: "cdic_increment_time step (materialize (j, s)) = advance_streaming step (materialize (j, s))"
    using iniM by (simp add: cdic_increment_time_def ensure_id)
  have res: "cdic_increment_time_deferred step (j, s) =
      (if next_deadline ?c = UINT64_MAX then (j1, s)
       else if step < next_deadline ?c - ?p then (j1\<lparr>pending_ns := ?p + step\<rparr>, s)
       else (j1\<lparr>pending_ns := 0, deadline_valid := False\<rparr>, advance_streaming (step + ?p) s))"
    by (simp only: cdic_increment_time_deferred_def prod.case Let_def ensure_id [OF ini] j1_def [symmetric] j1(1,2))
  have qp: "quiet_for ?p ?c" if "?p \<noteq> 0" using pend that next_deadline_quiet(1) [OF c] by auto
  have pb: "unat ?p < 2 ^ 51"
  proof (cases "?p = 0")
    case False
    then have "?p < next_deadline ?c" "next_deadline ?c \<le> 0x4000000000000"
      using pend next_deadline_quiet(3) [OF c] by auto
    then show ?thesis by (simp add: word_less_nat_alt word_le_nat_alt)
  qed simp
  have nw: "unat ?p + unat step < 2 ^ 64" using pb small by simp
  have adv: "advance_streaming step (materialize (j, s)) = advance_streaming (?p + step) s"
    using advance_streaming_add [OF qp nw] by (simp add: mat)
  consider (idle) "next_deadline ?c = UINT64_MAX"
    | (wait) "next_deadline ?c \<noteq> UINT64_MAX" "step < next_deadline ?c - ?p"
    | (fire) "next_deadline ?c \<noteq> UINT64_MAX" "\<not> step < next_deadline ?c - ?p" by blast
  then have "materialize (cdic_increment_time_deferred step (j, s)) = advance_streaming (?p + step) s \<and>
    job_inv (cdic_increment_time_deferred step (j, s))"
  proof cases
    case idle
    then have "?p = 0" using pend by auto
    moreover have "job_inv (j1, s)" using c idle j1 \<open>?p = 0\<close> by (simp add: job_inv_def)
    ultimately show ?thesis
      using idle next_deadline_quiet(2) [OF c idle] j1 by (simp add: res materialize_pending idle_streaming)
  next
    case wait
    have le: "?p \<le> next_deadline ?c" using pend by auto
    then have "unat step < unat (next_deadline ?c) - unat ?p" using wait(2) by (simp add: word_less_nat_alt unat_sub)
    then have lt: "?p + step < next_deadline ?c" using nw by (simp add: word_less_nat_alt unat_add_no_wrap)
    then have ji: "job_inv (j1\<lparr>pending_ns := ?p + step\<rparr>, s)" using c wait(1) j1 by (simp add: job_inv_def)
    have "unat (?p + step) \<noteq> 0" using nw small(1) by (simp add: unat_add_no_wrap word_less_nat_alt)
    then have "?p + step \<noteq> 0" by auto
    with ji show ?thesis using wait by (simp add: res materialize_pending)
  next
    case fire
    then have r: "cdic_increment_time_deferred step (j, s) =
        (j1\<lparr>pending_ns := 0, deadline_valid := False\<rparr>, advance_streaming (step + ?p) s)" by (simp add: res)
    moreover have "job_inv (j1\<lparr>pending_ns := 0, deadline_valid := False\<rparr>, advance_streaming (step + ?p) s)"
      using advance_streaming_inv [OF c] by (simp add: job_inv_def)
    ultimately show ?thesis by (simp add: materialize_pending add.commute)
  qed
  then show "materialize (cdic_increment_time_deferred step (j, s)) = cdic_increment_time step (materialize (j, s))"
    and "job_inv (cdic_increment_time_deferred step (j, s))" by (simp_all add: inc adv)
qed

lemma deferred_run:
  assumes "job_inv js" and "\<forall>n\<in>set steps. 0 < n \<and> unat n < 2 ^ 63"
  shows "materialize (fold cdic_increment_time_deferred steps js) = fold cdic_increment_time steps (materialize js) \<and>
    job_inv (fold cdic_increment_time_deferred steps js)"
  using assms
proof (induction steps arbitrary: js)
  case (Cons n steps)
  obtain j s where js: "js = (j, s)" by (cases js)
  note step = deferred_step [of j s n, folded js]
  from Cons.prems have "0 < n" "unat n < 2 ^ 63" by simp_all
  with Cons.IH [of "cdic_increment_time_deferred n js"] Cons.prems step show ?case by simp
qed simp

section \<open>The quiet batch\<close>

lemma deadline_after_quiet:
  assumes "ciap_inv (b_ciap s)" and "next_deadline (b_ciap s) \<noteq> UINT64_MAX" and "a < next_deadline (b_ciap s)"
  shows "next_deadline (b_ciap (advance_streaming a s)) = next_deadline (b_ciap s) - a"
proof -
  let ?c = "b_ciap s"
  have q: "quiet_for a ?c" using next_deadline_quiet(1) [OF assms] .
  have f: "ap_completion_pending (quiet_ciap a ?c) = ap_completion_pending ?c"
    "ap_completion_pending ?c \<Longrightarrow> ap_completion_delay_ns (quiet_ciap a ?c) = ap_completion_delay_ns ?c - a"
    "audio_active (quiet_ciap a ?c) = audio_active ?c"
    "audio_active ?c \<Longrightarrow> audio_remaining_ns (quiet_ciap a ?c) = audio_remaining_ns ?c - a"
    "data_running (quiet_ciap a ?c) = data_running ?c"
    "data_running ?c \<Longrightarrow> sector_elapsed_ns (quiet_ciap a ?c) = sector_elapsed_ns ?c + a"
    by (auto simp: quiet_ciap_def quiet_ap_def quiet_audio_def quiet_sector_def store_word_def)
  have mono: "x - a < y - a \<longleftrightarrow> x < y" if "a < x" "a < y" for x y :: u64
    using that by (simp add: word_less_nat_alt unat_sub word_le_nat_alt less_diff_iff)
  have run: "a < 13333333 - sector_elapsed_ns ?c" "13333333 - (sector_elapsed_ns ?c + a) = 13333333 - sector_elapsed_ns ?c - a"
    if "data_running ?c"
    using q that by (auto simp: quiet_for_def word_less_nat_alt unat_sub word_le_nat_alt)
  have small: "x - a < UINT64_MAX" if "a < x" "x < UINT64_MAX" for x :: u64
    using that by (simp add: word_less_nat_alt unat_sub word_le_nat_alt)
  have lt: "ap_completion_pending ?c \<Longrightarrow> a < ap_completion_delay_ns ?c" "audio_active ?c \<Longrightarrow> a < audio_remaining_ns ?c"
    using q by (simp_all add: quiet_for_def)
  have max: "ap_completion_pending ?c \<Longrightarrow> ap_completion_delay_ns ?c < UINT64_MAX"
    "audio_active ?c \<Longrightarrow> audio_remaining_ns ?c < UINT64_MAX"
    "data_running ?c \<Longrightarrow> 13333333 - sector_elapsed_ns ?c < UINT64_MAX"
    using assms(1) by (auto simp: ciap_inv_def timers_ok_def word_less_nat_alt word_le_nat_alt unat_sub)
  define x where "x = 13333333 - sector_elapsed_ns ?c"
  have fx: "data_running ?c \<Longrightarrow> 13333333 - sector_elapsed_ns (quiet_ciap a ?c) = x - a"
    using f(6) run(2) by (simp add: x_def)
  note runx = run(1) [folded x_def] and maxx = max(3) [folded x_def]
  have "next_deadline (quiet_ciap a ?c) = next_deadline ?c - a"
    using assms(2) lt runx max(1,2) maxx
    by (cases "ap_completion_pending ?c"; cases "audio_active ?c"; cases "data_running ?c")
      (simp_all add: next_deadline_def Let_def f(1-5) fx mono small flip: x_def)
  then show ?thesis by (simp add: advance_streaming_quiet [OF q] b_ciap_upd)
qed

definition streaming_batch :: "u64 \<Rightarrow> nat \<Rightarrow> 'a cd_board_scheme \<Rightarrow> 'a cd_board_scheme" where
  "streaming_batch q n s = (if n = 0 then s else cdic_increment_time (of_nat n * q) s)"

lemma streaming_quanta_unat:
  assumes "ciap_inv c"
  shows "unat (cdi_streaming_quiet_quanta m q 0 c) =
    (if next_deadline c = UINT64_MAX then unat m
     else min ((unat (next_deadline c) - 1) div unat q) (unat m))"
proof -
  let ?d = "next_deadline c"
  let ?n = "(?d - 1) div q"
  have ini: "ciap_initialized c" using assms by (simp add: ciap_inv_def)
  have um: "unat (ucast m :: u64) = unat m" using u32_less [of m] by (simp add: unsigned_ucast_eq take_bit_nat_eq_self)
  have un: "?d \<noteq> 0 \<Longrightarrow> unat ?n = (unat ?d - 1) div unat q" by (simp add: unat_div unat_minus_one)
  have down: "unat (ucast ?n :: u32) = unat ?n" if "?n < ucast m"
    using that u32_less [of m] by (simp add: word_less_nat_alt um unsigned_ucast_eq take_bit_nat_eq_self)
  show ?thesis
  proof (cases "?d = UINT64_MAX \<or> ?d = 0")
    case True
    then show ?thesis using ini by (auto simp: cdi_streaming_quiet_quanta_def Let_def)
  next
    case False
    then have z: "\<not> ?d \<le> 0" by simp
    have e: "cdi_streaming_quiet_quanta m q 0 c = (if ?n < ucast m then ucast ?n else m)"
      using ini False by (simp add: cdi_streaming_quiet_quanta_def Let_def)
    have "unat (cdi_streaming_quiet_quanta m q 0 c) = min (unat ?n) (unat m)"
      unfolding e using down by (simp add: word_less_nat_alt um min_def)
    then show ?thesis using False un by simp
  qed
qed

lemma increment_inv: "ciap_inv (b_ciap s) \<Longrightarrow> cdic_increment_time n s = advance_streaming n s"
  by (simp add: cdic_increment_time_def ensure_id ciap_inv_def)

lemma advance_0_idle: "next_deadline (b_ciap s) = UINT64_MAX \<Longrightarrow> ciap_inv (b_ciap s) \<Longrightarrow> advance_streaming n s = s"
  using next_deadline_quiet(2) idle_streaming by blast

interpretation ciap_quiet: quiet_device
  "\<lambda>s :: 'a cd_board_scheme. ciap_inv (b_ciap s)" "cdic_increment_time 1655"
  "\<lambda>s. unat (cdi_streaming_quiet_quanta m 1655 0 (b_ciap s))" "streaming_batch 1655"
  for m
proof (unfold_locales, goal_cases)
  case (1 s)
  then show ?case by (simp add: increment_inv advance_streaming_inv)
next
  case (2 s)
  let ?d = "next_deadline (b_ciap s)"
  show ?case
  proof (cases "?d = UINT64_MAX")
    case True
    then show ?thesis using 2 by (simp add: increment_inv advance_0_idle)
  next
    case False
    then have lt: "1655 < unat ?d" using 2 by (auto simp: streaming_quanta_unat min_def split: if_splits)
    then have "(1655 :: u64) < ?d" by (simp add: word_less_nat_alt)
    note nd = deadline_after_quiet [OF 2(1) False this]
    have ud: "unat (?d - 1655) = unat ?d - 1655" using lt by (simp add: unat_sub word_le_nat_alt)
    have "?d - 1655 \<noteq> UINT64_MAX"
    proof
      assume "?d - 1655 = UINT64_MAX"
      then have "unat (?d - 1655) = unat UINT64_MAX" by simp
      then show False using ud u64_less [of ?d] by simp
    qed
    moreover have "(unat ?d - 1) div 1655 = Suc ((unat ?d - 1655 - 1) div 1655)"
      using lt by (subst le_div_geq) simp_all
    ultimately show ?thesis
      using 2(1) False ud nd advance_streaming_inv [OF 2(1), of 1655]
      by (simp add: increment_inv streaming_quanta_unat min_def)
  qed
next
  case (3 s)
  then show ?case by (simp add: streaming_batch_def)
next
  case (4 s n)
  let ?d = "next_deadline (b_ciap s)"
  have inv: "ciap_inv (b_ciap (advance_streaming 1655 s))" using 4(1) by (rule advance_streaming_inv)
  show ?case
  proof (cases "?d = UINT64_MAX \<or> n = 0")
    case True
    then show ?thesis
      using 4 inv by (auto simp: streaming_batch_def increment_inv advance_0_idle)
  next
    case False
    then have d: "?d \<noteq> UINT64_MAX" "n \<noteq> 0" by auto
    then have "Suc n \<le> (unat ?d - 1) div 1655" using 4 by (simp add: streaming_quanta_unat)
    then have le: "Suc n * 1655 \<le> unat ?d - 1" by (simp add: less_eq_div_iff_mult_less_eq)
    then have "(1655 :: u64) < ?d" by (simp add: word_less_nat_alt)
    then have q: "quiet_for 1655 (b_ciap s)" by (rule next_deadline_quiet(1) [OF 4(1) d(1)])
    have "unat ?d \<le> 0x4000000000000" using next_deadline_quiet(3) [OF 4(1) d(1)] by (simp add: word_le_nat_alt)
    then have nb: "n * 1655 < 2 ^ 51" using le by simp
    have "unat (of_nat (n * 1655) :: u64) = n * 1655" using nb by (subst unat_of_nat) simp
    then have "unat (1655 :: u64) + unat (of_nat (n * 1655) :: u64) < 2 ^ 64" using nb by simp
    from advance_streaming_add [OF q this]
    have "advance_streaming (of_nat (n * 1655)) (advance_streaming 1655 s) = advance_streaming (1655 + of_nat (n * 1655)) s" .
    then show ?thesis
      using 4(1) inv d(2) by (simp add: streaming_batch_def increment_inv algebra_simps)
  qed
qed

section \<open>Buffer ownership\<close>

lemma write_bytes_outside:
  assumes "unat a + length bs < 2 ^ 32" and "unat x < unat a \<or> unat a + length bs \<le> unat x"
  shows "write_bytes a bs m x = m x"
  using assms
proof (induction bs arbitrary: a m)
  case (Cons b bs)
  then have a1: "unat (a + 1) = unat a + 1" by (simp add: unat_word_ariths)
  have "x \<noteq> a" using Cons.prems by auto
  moreover have "write_bytes (a + 1) bs (m(a := b)) x = (m(a := b)) x"
    using Cons.prems by (intro Cons.IH) (auto simp: a1)
  ultimately show ?case by simp
qed simp

lemma write_bytes_inside:
  assumes "unat a + length bs < 2 ^ 32" and "i < length bs"
  shows "write_bytes a bs m (a + of_nat i) = bs ! i"
  using assms
proof (induction bs arbitrary: a m i)
  case (Cons b bs)
  then have a1: "unat (a + 1) = unat a + 1" by (simp add: unat_word_ariths)
  show ?case
  proof (cases i)
    case 0
    then show ?thesis using Cons.prems write_bytes_outside [of "a + 1" bs a] by (simp add: a1)
  next
    case (Suc k)
    then show ?thesis using Cons.prems Cons.IH [of "a + 1" k] by (simp add: a1 add.assoc)
  qed
qed simp

definition data_base :: "bool \<Rightarrow> u32" where
  "data_base b = (if b then CIAP_DATA1 else CIAP_DATA0)"

definition owned :: "bool \<Rightarrow> CiapDevice \<Rightarrow> bool" where
  "owned b c \<longleftrightarrow> bit (read_word CIAP_BMAN c) (if b then 3 else 2)"

definition in_data_buffer :: "bool \<Rightarrow> u32 \<Rightarrow> bool" where
  "in_data_buffer b x \<longleftrightarrow> unat (data_base b) \<le> unat x \<and> unat x < unat (data_base b) + 2340"

lemma bman_data_bits:
  "w AND 0x0008 = 0 \<longleftrightarrow> \<not> bit (w :: u16) 3" "w AND 0x0004 = 0 \<longleftrightarrow> \<not> bit (w :: u16) 2"
  using and_exp_eq_0_iff [of w 3] and_exp_eq_0_iff [of w 2] by simp_all

lemma full_iff: "data_buffers_full c \<longleftrightarrow> owned False c \<and> owned True c"
proof -
  have "w AND 0x000C = 0x000C \<longleftrightarrow> bit w 2 \<and> bit w 3" for w :: u16 by (simp add: bitwise16)
  then show ?thesis by (simp add: data_buffers_full_def owned_def)
qed

text \<open>What a step may do to the data buffers: keep ownership and the bytes of every owned buffer.\<close>

definition keeps_owned :: "CiapDevice \<Rightarrow> CiapDevice \<Rightarrow> bool" where
  "keeps_owned c d \<longleftrightarrow> (\<forall>b. owned b c \<longrightarrow> owned b d \<and> (\<forall>x. in_data_buffer b x \<longrightarrow> memory d x = memory c x))"

lemma keeps_owned_trans: "keeps_owned c d \<Longrightarrow> keeps_owned d e \<Longrightarrow> keeps_owned c e"
  by (auto simp: keeps_owned_def)

lemma keeps_owned_memory: "memory d = memory c \<Longrightarrow> keeps_owned c d"
  by (simp add: keeps_owned_def owned_def read_word_def)

lemma keeps_owned_store:
  assumes "0x2584 \<le> unat a" and "unat a < 0x4000"
    and "a = CIAP_BMAN \<Longrightarrow> read_word CIAP_BMAN c AND v AND 0x000C = read_word CIAP_BMAN c AND 0x000C"
    and "a \<noteq> CIAP_BMAN \<Longrightarrow> unat a \<noteq> 0x2593 \<and> unat a \<noteq> 0x2595"
  shows "keeps_owned c (store_word a v c)"
proof -
  have a1: "unat (a + 1) = unat a + 1" using assms(2) by (simp add: unat_word_ariths)
  have mem: "in_data_buffer b x \<Longrightarrow> memory (store_word a v c) x = memory c x" for b x
    using assms(1) a1 by (auto simp: in_data_buffer_def data_base_def store_word_def split: if_splits)
  have "owned b (store_word a v c)" if "owned b c" for b
  proof (cases "a = CIAP_BMAN")
    case True
    have "bit w i \<Longrightarrow> i = 2 \<or> i = 3 \<Longrightarrow> w AND v AND 0x000C = w AND 0x000C \<Longrightarrow> bit v i" for w :: u16 and i
      by (auto simp: bitwise16)
    with that assms(3) [OF True] show ?thesis by (cases b) (auto simp: owned_def True reg_simps)
  next
    case False
    have "a \<noteq> 0x2593" "a \<noteq> 0x2595" using assms(4) [OF False] by auto
    then have "read_word CIAP_BMAN (store_word a v c) = read_word CIAP_BMAN c"
      using False by (intro read_store_other) (auto simp: eq_diff_eq [symmetric])
    then show ?thesis using that by (simp add: owned_def)
  qed
  with mem show ?thesis by (simp add: keeps_owned_def)
qed

lemma keeps_owned_irq:
  "keeps_owned c (b_ciap s) \<Longrightarrow> keeps_owned c (b_ciap (assert_interrupt_line s))"
  by (simp add: reg_simps)

lemma report_events_owned: "keeps_owned (b_ciap s) (b_ciap (report_file_events sector s))"
  by (auto simp: report_file_events_def Let_def reg_simps intro: keeps_owned_store keeps_owned_memory)

lemma locator_owned: "keeps_owned c (write_q_locator (if b then CIAP_QBUF1 else CIAP_QBUF0) lba c)"
proof -
  have len: "length (q_locator lba) = 10" by (simp add: q_locator_def Let_def)
  have "owned b' (write_q_locator (if b then CIAP_QBUF1 else CIAP_QBUF0) lba c) = owned b' c" for b'
    by (simp add: owned_def read_word_def write_q_locator_def write_bytes_outside len)
  moreover have "in_data_buffer b' x \<Longrightarrow>
      memory (write_q_locator (if b then CIAP_QBUF1 else CIAP_QBUF0) lba c) x = memory c x" for b' x
    using write_bytes_outside [of "if b then CIAP_QBUF1 else CIAP_QBUF0" "q_locator lba" x "memory c"]
    by (cases b; cases b') (simp_all add: write_q_locator_def len in_data_buffer_def data_base_def)
  ultimately show ?thesis by (simp add: keeps_owned_def)
qed

lemma and_or_same: "(w :: u16) AND (w OR v) AND m = w AND m"
  by (simp add: bit_eq_iff bit_simps) blast

lemma report_locator_owned: "keeps_owned (b_ciap s) (b_ciap (report_locator lba s))"
proof (cases "q_reporting (b_ciap s)")
  case False
  then show ?thesis by (simp add: report_locator_def keeps_owned_memory)
next
  case True
  let ?qi = "next_q_buffer (b_ciap s)" and ?c = "b_ciap s"
  let ?da = "?c\<lparr>locator_deliveries := locator_deliveries ?c + 1, next_q_buffer := \<not> ?qi\<rparr>"
  let ?db = "write_q_locator (if ?qi then CIAP_QBUF1 else CIAP_QBUF0) lba ?da"
  let ?v = "read_word CIAP_BMAN ?c OR (if ?qi then 0x0020 else 0x0010)"
  let ?dc = "store_word CIAP_BMAN ?v ?db"
  have len: "length (q_locator lba) = 10" by (simp add: q_locator_def Let_def)
  have bm: "read_word CIAP_BMAN ?db = read_word CIAP_BMAN ?c"
    by (simp add: read_word_def write_q_locator_def write_bytes_outside len)
  have 0: "keeps_owned ?c ?da" by (rule keeps_owned_memory) simp
  have 2: "keeps_owned ?db ?dc" by (rule keeps_owned_store) (simp_all add: bm and_or_same)
  have 3: "keeps_owned ?dc (store_word CIAP_ISR (read_word CIAP_ISR ?dc OR 0x0004) ?dc)"
    by (rule keeps_owned_store) simp_all
  from keeps_owned_trans [OF 0 keeps_owned_trans [OF locator_owned keeps_owned_trans [OF 2 3]]]
  show ?thesis using True by (cases ?qi) (simp_all add: report_locator_def Let_def reg_simps)
qed

lemma fill_owned:
  assumes "\<not> data_buffers_full c" and "length sector = 2340"
  shows "keeps_owned c (fill_data_buffer h sector c)"
proof -
  define b where "b = free_data_buffer c"
  have free: "\<not> owned b c"
    using assms(1) by (auto simp: b_def free_data_buffer_def owned_def bman_data_bits full_iff split: if_splits)
  define image where "image = (if h then take 12 sector @ replicate (2340 - 12) 0 else sector)"
  have len: "length image = 2340" using assms(2) by (simp add: image_def)
  define c1 where "c1 = c\<lparr>memory := write_bytes (data_base b) image (memory c), data_deliveries := data_deliveries c + 1\<rparr>"
  have out: "memory c1 x = memory c x" if "\<not> in_data_buffer b x" for x
  proof -
    have "unat x < unat (data_base b) \<or> unat (data_base b) + 2340 \<le> unat x"
      using that by (auto simp: in_data_buffer_def)
    moreover have "unat (data_base b) + 2340 < 2 ^ 32" by (simp add: data_base_def)
    ultimately have "write_bytes (data_base b) image (memory c) x = memory c x"
      by (intro write_bytes_outside) (simp_all add: len)
    then show ?thesis by (simp add: c1_def)
  qed
  have bm: "read_word CIAP_BMAN c1 = read_word CIAP_BMAN c"
    by (simp add: read_word_def out in_data_buffer_def data_base_def)
  have 1: "keeps_owned c c1"
    unfolding keeps_owned_def
  proof (intro allI impI conjI)
    fix b' assume o: "owned b' c"
    then show "owned b' c1" by (simp add: owned_def bm)
    fix x assume x: "in_data_buffer b' x"
    have "b' = (\<not> b)" using o free by (cases b; cases b') auto
    with x have "\<not> in_data_buffer b x" by (cases b) (auto simp: in_data_buffer_def data_base_def)
    then show "memory c1 x = memory c x" by (rule out)
  qed
  let ?c2 = "store_word CIAP_BMAN (read_word CIAP_BMAN c1 OR (if b then 0x0008 else 0x0004)) c1"
  have 2: "keeps_owned c1 ?c2" by (rule keeps_owned_store) (simp_all add: and_or_same)
  have 3: "keeps_owned ?c2 (?c2\<lparr>next_data_buffer := \<not> b\<rparr>)" by (rule keeps_owned_memory) simp
  from keeps_owned_trans [OF 1 keeps_owned_trans [OF 2 3]] show ?thesis
    by (simp add: fill_data_buffer_def Let_def c1_def b_def image_def data_base_def)
qed

lemma deliver_payload_owned:
  assumes "length sector = 2340"
  shows "keeps_owned (b_ciap s) (b_ciap (deliver_payload meta sector s))"
proof -
  let ?s2 = "\<lambda>s. upd_ciap (\<lambda>c. c\<lparr>drive_lba := drive_lba c + 1\<rparr>) s"
  have 2: "keeps_owned (b_ciap s) ((b_ciap s)\<lparr>drive_lba := drive_lba (b_ciap s) + 1\<rparr>)"
    by (rule keeps_owned_memory) simp
  let ?c = "(b_ciap s)\<lparr>drive_lba := drive_lba (b_ciap s) + 1\<rparr>"
  have held: "keeps_owned ?c (?c\<lparr>held_ticks := x\<rparr>)" for x by (rule keeps_owned_memory) simp
  have fill: "keeps_owned (b_ciap s) (store_word CIAP_ISR v (fill_data_buffer h sector ?c))"
    if "\<not> data_buffers_full ?c" for h v
    using 2 fill_owned [OF that assms, of h] keeps_owned_store [of CIAP_ISR "fill_data_buffer h sector ?c" v]
    by (auto intro: keeps_owned_trans)
  show ?thesis
    using fill keeps_owned_trans [OF 2 held]
    by (simp add: deliver_payload_def Let_def reg_simps)
qed

lemma deliver_keeps_owned:
  assumes "\<And>l bs. media_sector (b_media s) l = Some bs \<Longrightarrow> length bs = 2340"
  shows "keeps_owned (b_ciap s) (b_ciap (deliver_one_sector s))"
proof -
  have noted: "keeps_owned (b_ciap s) (b_ciap (upd_ciap (note_sector lba sector) s))" for lba sector
    by (simp add: b_ciap_upd note_sector_def keeps_owned_memory)
  have lba: "keeps_owned (b_ciap t) (b_ciap (upd_ciap (\<lambda>c. c\<lparr>drive_lba := drive_lba c + 1\<rparr>) t))" for t :: "'a cd_board_scheme"
    by (simp add: b_ciap_upd keeps_owned_memory)
  have stop: "keeps_owned (b_ciap s) (b_ciap (upd_ciap (\<lambda>c. c\<lparr>data_running := False\<rparr>) s))"
    by (simp add: b_ciap_upd keeps_owned_memory)
  have rep: "keeps_owned (b_ciap s) (b_ciap (report_locator lba (report_file_events sector (upd_ciap (note_sector lba sector) s))))" for lba sector
    using noted report_events_owned report_locator_owned by (meson keeps_owned_trans)
  show ?thesis
  proof (cases "\<not> drive_positioned (b_ciap s) \<or> \<not> media_present (b_media s)")
    case True
    then show ?thesis by (auto simp: deliver_one_sector_def keeps_owned_memory)
  next
    case False
    show ?thesis
    proof (cases "cdi_media_read_sector_body (drive_lba (b_ciap s)) (b_media s)")
      case None
      with False stop show ?thesis by (simp add: deliver_one_sector_def)
    next
      case (Some sector)
      with assms have len: "length sector = 2340" by (auto simp: cdi_media_read_sector_body_def split: if_splits)
      let ?lba = "drive_lba (b_ciap s)"
      note r = rep [of ?lba sector]
      show ?thesis
        using False Some keeps_owned_trans [OF r lba] keeps_owned_trans [OF r deliver_payload_owned [OF len]]
        by (simp add: deliver_one_sector_def Let_def)
    qed
  qed
qed

lemma media_upd [reg_simps]:
  "b_media (upd_ciap f s) = b_media s" "b_media (modify_word a g s) = b_media s"
  "b_media (assert_interrupt_line s) = b_media s"
  by (simp_all add: upd_ciap_def modify_word_def assert_interrupt_line_def Let_def)

lemma media_report:
  "b_media (report_file_events sector s) = b_media s" "b_media (report_locator lba s) = b_media s"
  by (simp_all add: report_file_events_def report_locator_def Let_def media_upd)

lemma media_payload: "b_media (deliver_payload meta sector s) = b_media s"
  by (simp add: deliver_payload_def Let_def media_upd)

lemma media_deliver [reg_simps]: "b_media (deliver_one_sector s) = b_media s"
  by (simp add: deliver_one_sector_def Let_def media_report media_payload media_upd split: option.split)

lemma media_start [reg_simps]: "b_media (start_audio_buffer s) = b_media s"
  by (simp add: start_audio_buffer_def Let_def reg_simps split: prod.split)

lemma media_consume [reg_simps]: "b_media (consume_audio_buffer s) = b_media s"
  by (simp add: consume_audio_buffer_def Let_def reg_simps request_ap_completion_def)

lemma media_refill: "b_media (snd (audio_refill n s)) = b_media s"
proof (induction n s rule: audio_refill.induct)
  case (1 n s)
  then show ?case by (subst audio_refill.simps) (simp add: reg_simps)
qed

lemma media_audio [reg_simps]: "b_media (advance_audio n s) = b_media s"
  using media_refill [of n s] by (cases "audio_refill n s") (simp add: advance_audio_def Let_def reg_simps)

lemma media_finish [reg_simps]: "b_media (finish_ap n s) = b_media s"
  by (simp add: finish_ap_def reg_simps)

lemma keeps_owned_refl: "keeps_owned c c"
  by (simp add: keeps_owned_memory)

lemma keeps_owned_fields: "keeps_owned c (f d) \<longleftrightarrow> keeps_owned c d" if "memory (f d) = memory d"
  using that by (simp add: keeps_owned_def owned_def read_word_def)

lemma modify_owned:
  assumes "a \<in> {CIAP_ISR, CIAP_ASTAT, CIAP_AP_POINTER}"
  shows "keeps_owned (b_ciap s) (b_ciap (modify_word a g s))"
  using assms by (auto simp: reg_simps intro!: keeps_owned_store)

lemma finish_ap_owned: "keeps_owned (b_ciap s) (b_ciap (finish_ap n s))"
proof -
  let ?u = "upd_ciap (\<lambda>c. c\<lparr>ap_completion_pending := False, ap_completion_delay_ns := 0\<rparr>) s"
  have "keeps_owned (b_ciap s) (b_ciap ?u)" by (simp add: b_ciap_upd keeps_owned_memory)
  then have "keeps_owned (b_ciap s) (b_ciap (modify_word CIAP_ISR f (modify_word CIAP_ASTAT g ?u)))" for f g
    using modify_owned [of CIAP_ASTAT ?u g] modify_owned [of CIAP_ISR "modify_word CIAP_ASTAT g ?u" f]
    by (auto intro: keeps_owned_trans)
  then show ?thesis by (simp add: finish_ap_def b_ciap_irq keeps_owned_refl) (simp add: b_ciap_upd keeps_owned_memory)
qed

lemma start_owned: "keeps_owned (b_ciap s) (b_ciap (start_audio_buffer s))"
proof -
  let ?s = "upd_ciap select_audio_buffer s"
  have sel: "memory (select_audio_buffer c) = memory c" for c by (simp add: select_audio_buffer_def Let_def)
  have 1: "keeps_owned (b_ciap s) (b_ciap ?s)" by (simp add: b_ciap_upd keeps_owned_memory sel)
  have 2: "keeps_owned (b_ciap s) (b_ciap (modify_word CIAP_ASTAT f (modify_word CIAP_AP_POINTER g
      (upd_ciap (\<lambda>c. c\<lparr>audio_remaining_ns := ns, audio_duration_ns := ns, audio_active := True\<rparr>) (?s\<lparr>b_audio := a\<rparr>)))))"
    for f g ns a
  proof -
    let ?t = "upd_ciap (\<lambda>c. c\<lparr>audio_remaining_ns := ns, audio_duration_ns := ns, audio_active := True\<rparr>) (?s\<lparr>b_audio := a\<rparr>)"
    have "keeps_owned (b_ciap s) (b_ciap ?t)" by (simp add: b_ciap_upd upd_ciap_def keeps_owned_memory sel)
    then show ?thesis
      using modify_owned [of CIAP_AP_POINTER ?t g] modify_owned [of CIAP_ASTAT "modify_word CIAP_AP_POINTER g ?t" f]
      by (auto intro: keeps_owned_trans)
  qed
  show ?thesis using 1 2 by (simp add: start_audio_buffer_def Let_def split: prod.split)
qed

lemma consume_owned: "keeps_owned (b_ciap s) (b_ciap (consume_audio_buffer s))"
proof -
  let ?b = "audio_buffer (b_ciap s)"
  let ?s1 = "modify_word CIAP_BMAN (\<lambda>w. w AND NOT (buffer_bit ?b)) s"
  let ?s2 = "upd_ciap (\<lambda>c. c\<lparr>audio_active := False, audio_remaining_ns := 0, audio_buffer := \<not> ?b\<rparr>) ?s1"
  let ?s3 = "modify_word CIAP_AP_POINTER (\<lambda>_. ucast (pointer_base (\<not> ?b))) ?s2"
  let ?s4 = "modify_word CIAP_ISR (\<lambda>w. w OR 0x0002) ?s3"
  have "w AND (w AND NOT (buffer_bit b)) AND 0x000C = w AND 0x000C" for w b
    by (cases b) (simp_all add: buffer_bit_def bitwise16)
  then have 1: "keeps_owned (b_ciap s) (b_ciap ?s1)" by (simp add: b_ciap_upd keeps_owned_store)
  have 2: "keeps_owned (b_ciap ?s1) (b_ciap ?s2)" by (simp add: b_ciap_upd(1) keeps_owned_memory)
  have 3: "keeps_owned (b_ciap ?s2) (b_ciap ?s3)" "keeps_owned (b_ciap ?s3) (b_ciap ?s4)"
    by (rule modify_owned, simp)+
  define s5 where "s5 = start_audio_buffer (assert_interrupt_line ?s4)"
  have "keeps_owned (b_ciap ?s4) (b_ciap s5)"
    using start_owned [of "assert_interrupt_line ?s4"] by (simp add: s5_def b_ciap_irq)
  then have 5: "keeps_owned (b_ciap s) (b_ciap s5)"
    using 1 2 3 keeps_owned_trans by blast
  have 6: "keeps_owned (b_ciap s) (b_ciap (modify_word CIAP_ASTAT g s5))" for g
    using 5 modify_owned [of CIAP_ASTAT s5 g] by (auto intro: keeps_owned_trans)
  have 7: "keeps_owned c (b_ciap (request_ap_completion (upd_ciap (\<lambda>c. c\<lparr>audio_playing := False, audio_finish_requested := False\<rparr>) t)))
      = keeps_owned c (b_ciap t)" for c and t :: "'a cd_board_scheme"
    by (simp add: request_ap_completion_def b_ciap_upd keeps_owned_def owned_def read_word_def)
  show ?thesis using 5 6 7 by (simp add: consume_audio_buffer_def Let_def s5_def)
qed

lemma refill_owned: "keeps_owned (b_ciap s) (b_ciap (snd (audio_refill n s)))"
proof (induction n s rule: audio_refill.induct)
  case (1 n s)
  then show ?case using consume_owned [of s]
    by (subst audio_refill.simps) (auto simp: keeps_owned_refl intro: keeps_owned_trans)
qed

lemma audio_owned: "keeps_owned (b_ciap s) (b_ciap (advance_audio n s))"
proof -
  obtain m t where r: "audio_refill n s = (m, t)" by (cases "audio_refill n s")
  have 1: "keeps_owned (b_ciap s) (b_ciap t)" using refill_owned [of s n] by (simp add: r)
  have "keeps_owned (b_ciap t) (b_ciap (modify_word CIAP_AP_POINTER g (upd_ciap (\<lambda>c. c\<lparr>audio_remaining_ns := x\<rparr>) t)))" for g x
    using modify_owned [of CIAP_AP_POINTER "upd_ciap (\<lambda>c. c\<lparr>audio_remaining_ns := x\<rparr>) t" g]
    by (auto simp: keeps_owned_def owned_def read_word_def b_ciap_upd(1))
  with 1 show ?thesis by (simp add: advance_audio_def r Let_def) (blast intro: keeps_owned_trans)
qed

lemma deliver_sectors_owned:
  assumes "\<And>l bs. media_sector (b_media s) l = Some bs \<Longrightarrow> length bs = 2340"
  shows "keeps_owned (b_ciap s) (b_ciap (deliver_sectors s))"
  using assms
proof (induction s rule: deliver_sectors.induct)
  case (1 s)
  let ?u = "upd_ciap (\<lambda>c. c\<lparr>sector_elapsed_ns := sector_elapsed_ns c - sector_period_ns\<rparr>) s"
  define s1 where "s1 = deliver_one_sector ?u"
  have "keeps_owned (b_ciap s) (b_ciap ?u)" by (simp add: b_ciap_upd keeps_owned_memory)
  moreover have "keeps_owned (b_ciap ?u) (b_ciap s1)"
    unfolding s1_def using 1(2) by (intro deliver_keeps_owned) (simp add: reg_simps)
  ultimately have k: "keeps_owned (b_ciap s) (b_ciap s1)" by (rule keeps_owned_trans)
  have m: "b_media s1 = b_media s" by (simp add: s1_def reg_simps)
  have u: "deliver_sectors s = (if sector_elapsed_ns (b_ciap s) \<ge> sector_period_ns
      then if data_running (b_ciap s1) then deliver_sectors s1 else s1 else s)"
    by (subst deliver_sectors.simps) (simp add: s1_def Let_def)
  show ?case
    using 1(1) [folded s1_def, OF _ refl] 1(2) k
    by (auto simp: u m keeps_owned_refl intro: keeps_owned_trans)
qed

lemma advance_streaming_owned:
  assumes "\<And>l bs. media_sector (b_media s) l = Some bs \<Longrightarrow> length bs = 2340"
  shows "keeps_owned (b_ciap s) (b_ciap (advance_streaming n s))"
proof -
  let ?t = "advance_audio n (finish_ap n s)"
  have 1: "keeps_owned (b_ciap s) (b_ciap ?t)"
    using finish_ap_owned audio_owned keeps_owned_trans by blast
  let ?u = "upd_ciap (\<lambda>c. c\<lparr>sector_elapsed_ns := sector_elapsed_ns c + n\<rparr>) ?t"
  have 2: "keeps_owned (b_ciap ?t) (b_ciap ?u)" by (simp add: b_ciap_upd keeps_owned_memory)
  have 3: "keeps_owned (b_ciap ?u) (b_ciap (deliver_sectors ?u))"
    using assms by (intro deliver_sectors_owned) (simp add: reg_simps)
  from 1 keeps_owned_trans [OF 1 keeps_owned_trans [OF 2 3]] show ?thesis
    by (simp add: advance_streaming_def Let_def)
qed

section \<open>Properties\<close>

text \<open>
C16: Deferring device time is unobservable: for every sequence of non-zero time steps, running the deferred
form (which only accumulates steps that end before the next completion, refill or sector) and then
publishing the pending time leaves exactly the CIAP, audio, interrupt and disc state that applying each
step immediately leaves.
\<close>
theorem deferred_streaming_refines:
  assumes "job_inv js" and "\<forall>n\<in>set steps. 0 < n \<and> unat n < 2 ^ 63"
  shows "materialize (fold cdic_increment_time_deferred steps js) = fold cdic_increment_time steps (materialize js)"
  using deferred_run [OF assms] by simp

text \<open>
For every number of 1655 ns quanta that \<open>cdi_streaming_quiet_quanta\<close> admits, one call with the summed
time equals that many single-quantum calls.
\<close>
theorem streaming_quiet_batch:
  assumes "ciap_inv (b_ciap s)" and "n \<le> unat (cdi_streaming_quiet_quanta maximum 1655 0 (b_ciap s))" and "0 < n"
  shows "(cdic_increment_time 1655 ^^ n) s = cdic_increment_time (of_nat n * 1655) s"
  using ciap_quiet.batch_eq_steps [OF assms(1,2)] assms(3) by (simp add: streaming_batch_def)

text \<open>
C17: No amount of device time overwrites a data buffer the host still owns: ownership bits that are set stay
set and all 2340 bytes of an owned buffer keep their value, whatever sectors, locators, audio completions
and refills happen meanwhile. The disc is assumed to return sector bodies of 2340 bytes.
\<close>
theorem owned_buffers_kept:
  assumes "\<And>l bs. media_sector (b_media s) l = Some bs \<Longrightarrow> length bs = 2340"
    and "ciap_initialized (b_ciap s)" and "owned b (b_ciap s)"
  shows "owned b (b_ciap (cdic_increment_time ns s)) \<and>
    (\<forall>x. in_data_buffer b x \<longrightarrow> memory (b_ciap (cdic_increment_time ns s)) x = memory (b_ciap s) x)"
proof -
  have "keeps_owned (b_ciap s) (b_ciap (cdic_increment_time ns s))"
    unfolding cdic_increment_time_def ensure_id [OF assms(2)] using assms(1) by (rule advance_streaming_owned)
  then show ?thesis using assms(3) by (auto simp: keeps_owned_def)
qed

section \<open>A concrete board\<close>

definition blank_audio :: CdiAudio where
  "blank_audio = \<lparr>previous = (\<lambda>_. (0, 0)), pcm_ring = (\<lambda>_. (0, 0)), write_index = 0, read_index = 0,
     sectors = 0, sample_frames = 0, pcm_hash = 0, dropped_frames = 0\<rparr>"

definition streaming_board :: cd_board where
  "streaming_board = \<lparr>b_irq = irq_reset, b_audio = blank_audio,
     b_ciap = (store_word CIAP_BMAN 0x0004 ciap_zero)\<lparr>ciap_initialized := True, data_running := True\<rparr>,
     b_media = \<lparr>media_present = True, media_generation = 1, media_sector = (\<lambda>_. Some (replicate 2340 0))\<rparr>\<rparr>"

definition fresh_job :: job_time where
  "fresh_job = \<lparr>pending_ns = 0, deadline_ns = 0, deadline_valid = False\<rparr>"

lemma streaming_board_inv: "ciap_inv (b_ciap streaming_board)"
  by (simp add: streaming_board_def ciap_inv_def timers_ok_def store_word_def ciap_zero_def)

theorem deferred_streaming_refines_witness:
  "materialize (fold cdic_increment_time_deferred [1655, 20000000] (fresh_job, streaming_board)) =
   fold cdic_increment_time [1655, 20000000] (materialize (fresh_job, streaming_board))"
proof -
  have "job_inv (fresh_job, streaming_board)" using streaming_board_inv by (simp add: job_inv_def fresh_job_def)
  then show ?thesis using deferred_streaming_refines [of "(fresh_job, streaming_board)" "[1655, 20000000]"] by simp
qed

theorem streaming_quiet_batch_witness:
  "(cdic_increment_time 1655 ^^ 3) streaming_board = cdic_increment_time (of_nat 3 * 1655) streaming_board"
proof -
  have d: "next_deadline (b_ciap streaming_board) = 13333333"
    by (simp add: next_deadline_def streaming_board_def store_word_def ciap_zero_def)
  have "3 \<le> unat (cdi_streaming_quiet_quanta 100 1655 0 (b_ciap streaming_board))"
    by (simp add: streaming_quanta_unat streaming_board_inv d)
  then show ?thesis using streaming_quiet_batch [OF streaming_board_inv, of 3 100] by simp
qed

theorem owned_buffers_kept_witness:
  "owned False (b_ciap (cdic_increment_time 20000000 streaming_board))"
proof -
  have "ciap_initialized (b_ciap streaming_board)" "owned False (b_ciap streaming_board)"
    by (simp_all add: streaming_board_def owned_def store_word_def read_word_def be16_def bit_simps)
  then show ?thesis
    using owned_buffers_kept [of streaming_board False 20000000] by (auto simp: streaming_board_def)
qed

end
