(* ===== verification/Ikat.thy ===== *)
theory Ikat
  imports Ciap_Stream Host_Input
begin

unbundle bit_operations_syntax

text \<open>
  The IKAT serial gate (\<^verbatim>\<open>runner/src/slave.c\<close>): four command/response channels, the drive commands of
  channel D, the deferred replies and the 25 ms pointer reports. The eight-byte channel buffers are lists,
  their lengths and positions naturals; the debug event ring is not modelled. A request to restart the
  main CPU is recorded in the board record, where the main loop picks it up.
\<close>

section \<open>State\<close>

record IkatChannel =
  ch_command :: "u8 list"
  ch_response :: "u8 list"
  ch_deferred :: "u8 list"
  command_length :: nat
  response_length :: nat
  response_position :: nat
  deferred_length :: nat
  deferred_pending :: bool
  deferred_ns :: u64

record IkatDevice =
  ikat_registers :: "nat \<Rightarrow> u8"
  channel :: "nat \<Rightarrow> IkatChannel"
  ikat_media_generation :: u64
  pointer_elapsed_ns :: u64
  previous_input :: u32
  pointer_repeat_count :: int
  seek_report_pending :: bool
  ready_report_pending :: bool
  ikat_initialized :: bool

record drive_board = cd_board +
  b_ikat :: IkatDevice
  b_input :: host_input
  boot_reset_requested :: bool

abbreviation (input) "CHANNEL_A \<equiv> 0 :: nat"
abbreviation (input) "CHANNEL_C \<equiv> 2 :: nat"
abbreviation (input) "CHANNEL_D \<equiv> 3 :: nat"
abbreviation (input) "REG_OUTPUT_A \<equiv> 4 :: nat"
abbreviation (input) "REG_STATUS_A \<equiv> 8 :: nat"
abbreviation (input) "REG_INTERRUPT_STATUS \<equiv> 12 :: nat"
abbreviation (input) "REG_INTERRUPT_MASK \<equiv> 13 :: nat"
abbreviation (input) "CDI_SLAVE_BASE \<equiv> 0x00310000 :: u32"

definition upd_ikat :: "(IkatDevice \<Rightarrow> IkatDevice) \<Rightarrow> 'a drive_board_scheme \<Rightarrow> 'a drive_board_scheme" where
  "upd_ikat f s = s\<lparr>b_ikat := f (b_ikat s)\<rparr>"

definition set_register :: "nat \<Rightarrow> u8 \<Rightarrow> IkatDevice \<Rightarrow> IkatDevice" where
  "set_register r v d = d\<lparr>ikat_registers := (ikat_registers d)(r := v)\<rparr>"

definition upd_channel :: "nat \<Rightarrow> (IkatChannel \<Rightarrow> IkatChannel) \<Rightarrow> IkatDevice \<Rightarrow> IkatDevice" where
  "upd_channel ch f d = d\<lparr>channel := (channel d)(ch := f (channel d ch))\<rparr>"

definition interrupt_bit :: "nat \<Rightarrow> u8" where
  "interrupt_bit ch = [0x02, 0x08, 0x20, 0x80] ! ch"

text \<open>\<open>memcpy\<close> of a prefix into a buffer.\<close>

definition copy_into :: "u8 list \<Rightarrow> u8 list \<Rightarrow> u8 list" where
  "copy_into bytes buf = bytes @ drop (length bytes) buf"

section \<open>Responses\<close>

definition response_remaining :: "nat \<Rightarrow> IkatDevice \<Rightarrow> nat" where
  "response_remaining ch d = response_length (channel d ch) - response_position (channel d ch)"

definition update_channel_status :: "nat \<Rightarrow> IkatDevice \<Rightarrow> IkatDevice" where
  "update_channel_status ch d =
     (let status = ikat_registers d (REG_STATUS_A + ch)
      in set_register (REG_STATUS_A + ch)
           (if response_remaining ch d \<noteq> 0 then status AND 0x01 else status OR 0x11) d)"

definition raise_channel_interrupt :: "nat \<Rightarrow> 'a drive_board_scheme \<Rightarrow> 'a drive_board_scheme" where
  "raise_channel_interrupt ch s =
     (let s1 = upd_ikat (\<lambda>d. set_register REG_INTERRUPT_STATUS
            (ikat_registers d REG_INTERRUPT_STATUS OR interrupt_bit ch) d) s
      in if ikat_registers (b_ikat s1) REG_INTERRUPT_MASK AND interrupt_bit ch \<noteq> 0
         then s1\<lparr>b_irq := cdi_irq_raise 2 (b_irq s1)\<rparr> else s1)"

definition publish_response :: "nat \<Rightarrow> u8 list \<Rightarrow> IkatDevice \<Rightarrow> IkatDevice" where
  "publish_response ch bytes d =
     (let bs = take 8 bytes
      in update_channel_status ch (upd_channel ch (\<lambda>q. q\<lparr>ch_response := copy_into bs (ch_response q),
           response_position := 0, response_length := length bs\<rparr>) d))"

definition publish_and_interrupt :: "nat \<Rightarrow> u8 list \<Rightarrow> 'a drive_board_scheme \<Rightarrow> 'a drive_board_scheme" where
  "publish_and_interrupt ch bytes s = raise_channel_interrupt ch (upd_ikat (publish_response ch bytes) s)"

definition defer_response :: "nat \<Rightarrow> u8 list \<Rightarrow> IkatDevice \<Rightarrow> IkatDevice" where
  "defer_response ch bytes =
     upd_channel ch (\<lambda>q. let bs = take 8 bytes in q\<lparr>ch_deferred := copy_into bs (ch_deferred q),
       deferred_length := length bs, deferred_pending := True, deferred_ns := 1000000\<rparr>)"

definition make_disc_status :: "media \<Rightarrow> u8 list" where
  "make_disc_status m = (if media_present m then [0xB0, 0x00, 0x02, 0x15] else [0xB0, 0x02, 0x10, 0x00])"

section \<open>Commands\<close>

definition channel_c_reply :: "u8 \<Rightarrow> u8 list option" where
  "channel_c_reply command =
     map_of [(0xF6, [0xA5, 0xF6, 0x01, 0xFF]), (0xF0, [0xA5, 0xF0, 0x7F]), (0xF3, [0xA5, 0xF3, 0x4D, 0x00]),
       (0xF4, [0xA5, 0xF4, 0x00]), (0xF7, [0xA5, 0xF7, 0x00]), (0xF8, [0xA5, 0xF8, 0x00])] command"

definition handle_channel_c :: "'a drive_board_scheme \<Rightarrow> 'a drive_board_scheme" where
  "handle_channel_c s =
     (let command = ch_command (channel (b_ikat s) CHANNEL_C) ! 0;
          s1 = upd_ikat (upd_channel CHANNEL_C (\<lambda>q. q\<lparr>command_length := 0\<rparr>)) s
      in if command = 0x88 then s1\<lparr>boot_reset_requested := True\<rparr>
         else case channel_c_reply command of
           Some reply \<Rightarrow> publish_and_interrupt CHANNEL_C reply s1
         | None \<Rightarrow> s1)"

definition four_byte_command :: "u8 \<Rightarrow> bool" where
  "four_byte_command command \<longleftrightarrow>
     command \<in> {0xA1, 0xA6, 0xB0, 0xB2, 0xC2, 0xC3, 0xC4, 0xC5, 0xE0, 0xE1}"

definition bcd_value :: "u8 \<Rightarrow> u32" where
  "bcd_value v = drop_bit 4 (ucast v) * 10 + (ucast v AND 0x0F)"

definition absolute_msf_lba :: "u8 list \<Rightarrow> u32" where
  "absolute_msf_lba command =
     (let minute = bcd_value (command ! 1); second = bcd_value (command ! 2); frame = bcd_value (command ! 3);
          absolute = (minute * 60 + second) * 75 + frame
      in if absolute \<ge> 150 then absolute - 150 else 0)"

definition play_request :: "u8 \<Rightarrow> 'a drive_board_scheme \<Rightarrow> 'a drive_board_scheme" where
  "play_request command s =
     (let s1 = (if command = 0xB0 then cdic_transport_resume s else s)
      in if seek_report_pending (b_ikat s1)
         then upd_ikat (\<lambda>d. defer_response CHANNEL_D [0xB0, 0x00, 0x02, 0x10]
                (d\<lparr>seek_report_pending := False, ready_report_pending := True\<rparr>)) s1
         else upd_ikat (defer_response CHANNEL_D (make_disc_status (b_media s1))) s1)"

definition dispatch_channel_d :: "u8 \<Rightarrow> u8 list \<Rightarrow> 'a drive_board_scheme \<Rightarrow> 'a drive_board_scheme" where
  "dispatch_channel_d command bytes s =
     (if command = 0xA1 \<or> command = 0xB0 then play_request command s
      else if command = 0xB1 then publish_and_interrupt CHANNEL_D [0xB1, 0x00, 0x02, 0x00] s
      else if command = 0xB2 then upd_ikat (defer_response CHANNEL_D [0xB2, 0x20, 0x00, 0x10]) s
      else if command = 0xC2 then upd_ikat (defer_response CHANNEL_D [0xC2, 0x00, 0x00, 0x00]) s
      else if command = 0xC3 then upd_ikat (defer_response CHANNEL_D [0xC3, 0x00, 0x00, 0x00]) s
      else if command = 0xC4 then upd_ikat (defer_response CHANNEL_D [0xC4, 0x00, 0x00, 0x00]) s
      else if command = 0xC5
      then upd_ikat (\<lambda>d. defer_response CHANNEL_D [0xC5, 0x00, 0x00, 0x00]
             (d\<lparr>seek_report_pending := False, ready_report_pending := False\<rparr>)) s
      else if command = 0xE0
      then upd_ikat (\<lambda>d. d\<lparr>seek_report_pending := True\<rparr>) (cdic_set_drive_position (absolute_msf_lba bytes) True s)
      else if command = 0xE1
      then upd_ikat (\<lambda>d. d\<lparr>seek_report_pending := True\<rparr>) (cdic_set_drive_position (absolute_msf_lba bytes) False s)
      else s)"

definition handle_channel_d :: "'a drive_board_scheme \<Rightarrow> 'a drive_board_scheme" where
  "handle_channel_d s =
     (let q = channel (b_ikat s) CHANNEL_D; command = ch_command q ! 0
      in if four_byte_command command \<and> command_length q < 4 then s
         else upd_ikat (upd_channel CHANNEL_D (\<lambda>q. q\<lparr>command_length := 0\<rparr>))
                (dispatch_channel_d command (ch_command q) s))"

definition empty_channel :: IkatChannel where
  "empty_channel = \<lparr>ch_command = replicate 8 0, ch_response = replicate 8 0, ch_deferred = replicate 8 0,
     command_length = 0, response_length = 0, response_position = 0, deferred_length = 0,
     deferred_pending = False, deferred_ns = 0\<rparr>"

definition initialize_ikat :: "'a drive_board_scheme \<Rightarrow> 'a drive_board_scheme" where
  "initialize_ikat s =
     s\<lparr>b_ikat := \<lparr>ikat_registers = (\<lambda>r. if 8 \<le> r \<and> r < 12 then 0x11 else 0), channel = (\<lambda>_. empty_channel),
        ikat_media_generation = media_generation (b_media s), pointer_elapsed_ns = 0, previous_input = 0,
        pointer_repeat_count = 0, seek_report_pending = False, ready_report_pending = False,
        ikat_initialized = True\<rparr>\<rparr>"

definition ikat_ensure_initialized :: "'a drive_board_scheme \<Rightarrow> 'a drive_board_scheme" where
  "ikat_ensure_initialized s = (if ikat_initialized (b_ikat s) then s else initialize_ikat s)"

section \<open>Pointer reports\<close>

definition pointer_speed :: "int \<Rightarrow> int" where
  "pointer_speed n = (let speed = n + (n mod 2) in if speed > 8 then 8 else speed)"

definition key_axis :: "u32 \<Rightarrow> u32 \<Rightarrow> u32 \<Rightarrow> int \<Rightarrow> int" where
  "key_axis input neg pos speed =
     (if input AND neg \<noteq> 0 then - speed else if input AND pos \<noteq> 0 then speed else 0)"

definition pointer_packet :: "u32 \<Rightarrow> int \<Rightarrow> int \<Rightarrow> u8 list" where
  "pointer_packet input x y =
     (let ex = (word_of_int x :: u8); ey = (word_of_int y :: u8)
      in [0x40 OR (if input AND CDI_INPUT_BTN1 \<noteq> 0 then 0x20 else 0)
            OR (if input AND CDI_INPUT_BTN2 \<noteq> 0 then 0x10 else 0)
            OR (drop_bit 4 ey AND 0x0C) OR (drop_bit 6 ex AND 0x03),
          ex AND 0x3F, ey AND 0x3F, 0])"

definition emit_pointer_packet :: "'a drive_board_scheme \<Rightarrow> 'a drive_board_scheme" where
  "emit_pointer_packet s =
     (let input = cdi_input_get (b_input s);
          directions = input AND 0x0F;
          buttons_changed = (input XOR previous_input (b_ikat s)) AND (CDI_INPUT_BTN1 OR CDI_INPUT_BTN2);
          n = (if directions \<noteq> 0 then pointer_repeat_count (b_ikat s) + 1 else 0);
          s1 = upd_ikat (\<lambda>d. d\<lparr>pointer_repeat_count := n\<rparr>) s;
          speed = pointer_speed n;
          kx = key_axis input CDI_INPUT_LEFT CDI_INPUT_RIGHT speed;
          ky = key_axis input CDI_INPUT_UP CDI_INPUT_DOWN speed;
          ((mx, my), inp) = cdi_input_take_relative (- 128 - kx) (127 - kx) (- 128 - ky) (127 - ky) (b_input s1);
          s2 = s1\<lparr>b_input := inp\<rparr>;
          x = kx + mx; y = ky + my;
          s3 = (if directions \<noteq> 0 \<or> x \<noteq> 0 \<or> y \<noteq> 0 \<or> buttons_changed \<noteq> 0
                then publish_and_interrupt CHANNEL_A (pointer_packet input x y) s2 else s2);
          s4 = upd_ikat (\<lambda>d. d\<lparr>previous_input := input\<rparr>) s3
      in s4\<lparr>b_input := cdi_input_acknowledge_mouse_buttons (b_input s4)\<rparr>)"

section \<open>Device time\<close>

lemma pointer_elapsed_upd [simp]:
  "pointer_elapsed_ns (set_register r v d) = pointer_elapsed_ns d"
  "pointer_elapsed_ns (upd_channel ch f d) = pointer_elapsed_ns d"
  by (simp_all add: set_register_def upd_channel_def)

lemma b_ikat_upd [simp]: "b_ikat (upd_ikat f s) = f (b_ikat s)"
  by (simp add: upd_ikat_def)

lemma publish_keeps_pointer [simp]:
  "pointer_elapsed_ns (b_ikat (publish_and_interrupt ch bytes s)) = pointer_elapsed_ns (b_ikat s)"
  by (simp add: publish_and_interrupt_def raise_channel_interrupt_def publish_response_def
      update_channel_status_def Let_def)

lemma emit_keeps_pointer [simp]:
  "pointer_elapsed_ns (b_ikat (emit_pointer_packet s)) = pointer_elapsed_ns (b_ikat s)"
  by (simp add: emit_pointer_packet_def Let_def split: prod.split)

function pointer_reports :: "'a drive_board_scheme \<Rightarrow> 'a drive_board_scheme" where
  "pointer_reports s =
     (if pointer_elapsed_ns (b_ikat s) \<ge> 25000000
      then pointer_reports (emit_pointer_packet
             (upd_ikat (\<lambda>d. d\<lparr>pointer_elapsed_ns := pointer_elapsed_ns d - 25000000\<rparr>) s))
      else s)"
  by pat_completeness auto
termination
proof (relation "measure (\<lambda>s. unat (pointer_elapsed_ns (b_ikat s)))", goal_cases)
  case (2 s)
  then have "unat (pointer_elapsed_ns (b_ikat s) - 25000000) = unat (pointer_elapsed_ns (b_ikat s)) - 25000000"
    "25000000 \<le> unat (pointer_elapsed_ns (b_ikat s))"
    by (simp_all add: unat_sub word_le_nat_alt)
  then show ?case by simp
qed simp

declare pointer_reports.simps [simp del]

definition check_media :: "'a drive_board_scheme \<Rightarrow> 'a drive_board_scheme" where
  "check_media s =
     (let generation = media_generation (b_media s)
      in if generation \<noteq> ikat_media_generation (b_ikat s)
         then publish_and_interrupt CHANNEL_D (make_disc_status (b_media s))
                (upd_ikat (\<lambda>d. d\<lparr>ikat_media_generation := generation\<rparr>) s)
         else s)"

definition deliver_deferred :: "nat \<Rightarrow> 'a drive_board_scheme \<Rightarrow> 'a drive_board_scheme" where
  "deliver_deferred ch s =
     (let q = channel (b_ikat s) ch;
          s1 = (if ch = CHANNEL_D \<and> ch_deferred q ! 0 = 0xC4 then cdic_transport_resume s else s);
          s2 = publish_and_interrupt ch (take (deferred_length q) (ch_deferred q)) s1;
          s3 = upd_ikat (upd_channel ch (\<lambda>q. q\<lparr>deferred_pending := False\<rparr>)) s2
      in if ch = CHANNEL_D \<and> ready_report_pending (b_ikat s3)
         then upd_ikat (\<lambda>d. defer_response CHANNEL_D [0xB0, 0x00, 0x02, 0x0E]
                (d\<lparr>ready_report_pending := False\<rparr>)) s3
         else s3)"

definition service_deferred :: "u64 \<Rightarrow> nat \<Rightarrow> 'a drive_board_scheme \<Rightarrow> 'a drive_board_scheme" where
  "service_deferred step ch s =
     (let q = channel (b_ikat s) ch
      in if \<not> deferred_pending q then s
         else if step < deferred_ns q
         then upd_ikat (upd_channel ch (\<lambda>q. q\<lparr>deferred_ns := deferred_ns q - step\<rparr>)) s
         else
           let s1 = upd_ikat (upd_channel ch (\<lambda>q. q\<lparr>deferred_ns := 0\<rparr>)) s
           in if response_remaining ch (b_ikat s1) = 0 then deliver_deferred ch s1 else s1)"

text \<open>\<open>step\<close> is the nanosecond count after the conversion to \<^verbatim>\<open>uint64_t\<close>.\<close>

definition slave_increment_time :: "u64 \<Rightarrow> 'a drive_board_scheme \<Rightarrow> 'a drive_board_scheme" where
  "slave_increment_time step s =
     (let s1 = check_media (ikat_ensure_initialized s);
          s2 = pointer_reports (upd_ikat (\<lambda>d. d\<lparr>pointer_elapsed_ns := pointer_elapsed_ns d + step\<rparr>) s1)
      in fold (service_deferred step) [0..<4] s2)"

definition slave_limit :: "IkatDevice \<Rightarrow> u64" where
  "slave_limit d =
     fold (\<lambda>ch limit. if deferred_pending (channel d ch) \<and> deferred_ns (channel d ch) < limit
                      then deferred_ns (channel d ch) else limit)
       [0..<4] (25000000 - pointer_elapsed_ns d)"

definition slave_quiet_quanta :: "u32 \<Rightarrow> u64 \<Rightarrow> 'a drive_board_scheme \<Rightarrow> u32" where
  "slave_quiet_quanta maximum quantum_ns s =
     (let d = b_ikat s; limit = slave_limit d
      in if \<not> ikat_initialized d \<or> media_generation (b_media s) \<noteq> ikat_media_generation d then 0
         else if limit = 0 then 0
         else let quiet = (limit - 1) div quantum_ns
              in if quiet < ucast maximum then ucast quiet else maximum)"

definition slave_advance_quiet :: "u64 \<Rightarrow> 'a drive_board_scheme \<Rightarrow> 'a drive_board_scheme" where
  "slave_advance_quiet ns s =
     upd_ikat (\<lambda>d. fold (\<lambda>ch d. if deferred_pending (channel d ch)
                 then upd_channel ch (\<lambda>q. q\<lparr>deferred_ns := deferred_ns q - ns\<rparr>) d else d) [0..<4]
            (d\<lparr>pointer_elapsed_ns := pointer_elapsed_ns d + ns\<rparr>)) s"

section \<open>Register access\<close>

definition ikat_read_register :: "nat \<Rightarrow> 'a drive_board_scheme \<Rightarrow> u8 \<times> 'a drive_board_scheme" where
  "ikat_read_register r s =
     (let ch = r - REG_OUTPUT_A; d = b_ikat s; q = channel d ch
      in if REG_OUTPUT_A \<le> r \<and> r \<le> 7 \<and> response_remaining ch d \<noteq> 0 then
           let v = ch_response q ! response_position q;
               d1 = set_register r v (upd_channel ch (\<lambda>q. q\<lparr>response_position := response_position q + 1\<rparr>) d);
               d2 = (if response_remaining ch d1 = 0
                     then set_register REG_INTERRUPT_STATUS
                            (ikat_registers d1 REG_INTERRUPT_STATUS AND NOT (interrupt_bit ch)) d1
                     else d1);
               d3 = update_channel_status ch d2
           in (ikat_registers d3 r, s\<lparr>b_ikat := d3\<rparr>)
         else (ikat_registers d r, s))"

definition push_command :: "u8 \<Rightarrow> IkatChannel \<Rightarrow> IkatChannel" where
  "push_command v q =
     (if command_length q < 8
      then q\<lparr>ch_command := (ch_command q)[command_length q := v], command_length := command_length q + 1\<rparr>
      else q)"

definition ikat_write_register :: "nat \<Rightarrow> u8 \<Rightarrow> 'a drive_board_scheme \<Rightarrow> 'a drive_board_scheme" where
  "ikat_write_register r v s =
     (if r = REG_INTERRUPT_MASK then
        let s1 = upd_ikat (set_register r v) s
        in if ikat_registers (b_ikat s1) REG_INTERRUPT_STATUS AND v \<noteq> 0
           then s1\<lparr>b_irq := cdi_irq_raise 2 (b_irq s1)\<rparr> else s1
      else if r \<le> 3 then
        let s1 = upd_ikat (\<lambda>d. upd_channel r (push_command v) (set_register r v d)) s
        in if r = CHANNEL_C then handle_channel_c s1
           else if r = CHANNEL_D then handle_channel_d s1
           else s1
      else s)"

text \<open>
  The address difference is taken modulo \<open>2 ^ 32\<close> and halved, so an address below the window gives a
  register number that is out of range.
\<close>

definition register_from_address :: "u32 \<Rightarrow> nat" where
  "register_from_address address = unat (drop_bit 1 (address - CDI_SLAVE_BASE))"

definition slave_read :: "u32 \<Rightarrow> 'a drive_board_scheme \<Rightarrow> u32 \<times> 'a drive_board_scheme" where
  "slave_read address s0 =
     (let s = ikat_ensure_initialized s0; r = register_from_address address
      in if r \<ge> 15 then (0, s) else apfst ucast (ikat_read_register r s))"

definition slave_write :: "u32 \<Rightarrow> u32 \<Rightarrow> 'a drive_board_scheme \<Rightarrow> 'a drive_board_scheme" where
  "slave_write address v s0 =
     (let s = ikat_ensure_initialized s0; r = register_from_address address
      in if r \<ge> 15 then s else ikat_write_register r (ucast v) s)"

end
