(* ===== verification/Ikat_Laws.thy ===== *)
theory Ikat_Laws
  imports Ikat Ciap_Laws
begin

unbundle bit_operations_syntax

text \<open>
  Laws of the IKAT model: which channels an operation can touch, the read-out of a reply, protection of
  unread replies, the seek handshake, pointer reports and the quiet contract.
\<close>

section \<open>Frame lemmas\<close>

lemma set_register_fields [simp]:
  "channel (set_register r v d) = channel d"
  "ikat_registers (set_register r v d) = (ikat_registers d)(r := v)"
  "ikat_media_generation (set_register r v d) = ikat_media_generation d"
  "previous_input (set_register r v d) = previous_input d"
  "pointer_repeat_count (set_register r v d) = pointer_repeat_count d"
  "seek_report_pending (set_register r v d) = seek_report_pending d"
  "ready_report_pending (set_register r v d) = ready_report_pending d"
  "ikat_initialized (set_register r v d) = ikat_initialized d"
  by (simp_all add: set_register_def)

lemma upd_channel_fields [simp]:
  "channel (upd_channel ch f d) = (channel d)(ch := f (channel d ch))"
  "ikat_registers (upd_channel ch f d) = ikat_registers d"
  "ikat_media_generation (upd_channel ch f d) = ikat_media_generation d"
  "previous_input (upd_channel ch f d) = previous_input d"
  "pointer_repeat_count (upd_channel ch f d) = pointer_repeat_count d"
  "seek_report_pending (upd_channel ch f d) = seek_report_pending d"
  "ready_report_pending (upd_channel ch f d) = ready_report_pending d"
  "ikat_initialized (upd_channel ch f d) = ikat_initialized d"
  by (simp_all add: upd_channel_def)

lemma upd_ikat_board [simp]:
  "b_media (upd_ikat f s) = b_media s" "b_ciap (upd_ikat f s) = b_ciap s" "b_input (upd_ikat f s) = b_input s"
  "b_irq (upd_ikat f s) = b_irq s" "b_audio (upd_ikat f s) = b_audio s"
  by (simp_all add: upd_ikat_def)

lemma b_ikat_ciap [simp]:
  "b_ikat (upd_ciap f s) = b_ikat s" "b_ikat (ciap_ensure_initialized s) = b_ikat s"
  "b_ikat (cdic_transport_resume s) = b_ikat s" "b_ikat (cdic_set_drive_position lba audio s) = b_ikat s"
  by (simp_all add: upd_ciap_def ciap_ensure_initialized_def initialize_ciap_def cdic_transport_resume_def
      cdic_set_drive_position_def)

lemma b_media_ciap [simp]:
  "b_media (ciap_ensure_initialized s) = b_media s" "b_media (cdic_transport_resume s) = b_media s"
  "b_media (cdic_set_drive_position lba audio s) = b_media s"
  by (simp_all add: upd_ciap_def ciap_ensure_initialized_def initialize_ciap_def cdic_transport_resume_def
      cdic_set_drive_position_def)

lemma channel_status [simp]:
  "channel (update_channel_status ch d) = channel d"
  "ikat_media_generation (update_channel_status ch d) = ikat_media_generation d"
  "seek_report_pending (update_channel_status ch d) = seek_report_pending d"
  "ready_report_pending (update_channel_status ch d) = ready_report_pending d"
  "ikat_initialized (update_channel_status ch d) = ikat_initialized d"
  by (simp_all add: update_channel_status_def Let_def)

definition published :: "u8 list \<Rightarrow> IkatChannel \<Rightarrow> IkatChannel" where
  "published bytes q = q\<lparr>ch_response := copy_into (take 8 bytes) (ch_response q), response_position := 0,
     response_length := length (take 8 bytes)\<rparr>"

lemma publish_response_fields [simp]:
  "channel (publish_response ch bytes d) = (channel d)(ch := published bytes (channel d ch))"
  "ikat_media_generation (publish_response ch bytes d) = ikat_media_generation d"
  "seek_report_pending (publish_response ch bytes d) = seek_report_pending d"
  "ready_report_pending (publish_response ch bytes d) = ready_report_pending d"
  "ikat_initialized (publish_response ch bytes d) = ikat_initialized d"
  by (simp_all add: publish_response_def published_def Let_def)

lemma raise_fields [simp]:
  "channel (b_ikat (raise_channel_interrupt ch s)) = channel (b_ikat s)"
  "ikat_media_generation (b_ikat (raise_channel_interrupt ch s)) = ikat_media_generation (b_ikat s)"
  "seek_report_pending (b_ikat (raise_channel_interrupt ch s)) = seek_report_pending (b_ikat s)"
  "ready_report_pending (b_ikat (raise_channel_interrupt ch s)) = ready_report_pending (b_ikat s)"
  "ikat_initialized (b_ikat (raise_channel_interrupt ch s)) = ikat_initialized (b_ikat s)"
  "b_media (raise_channel_interrupt ch s) = b_media s" "b_ciap (raise_channel_interrupt ch s) = b_ciap s"
  "b_input (raise_channel_interrupt ch s) = b_input s"
  by (simp_all add: raise_channel_interrupt_def Let_def)

lemma publish_fields [simp]:
  "channel (b_ikat (publish_and_interrupt ch bytes s)) =
     (channel (b_ikat s))(ch := published bytes (channel (b_ikat s) ch))"
  "ikat_media_generation (b_ikat (publish_and_interrupt ch bytes s)) = ikat_media_generation (b_ikat s)"
  "seek_report_pending (b_ikat (publish_and_interrupt ch bytes s)) = seek_report_pending (b_ikat s)"
  "ready_report_pending (b_ikat (publish_and_interrupt ch bytes s)) = ready_report_pending (b_ikat s)"
  "ikat_initialized (b_ikat (publish_and_interrupt ch bytes s)) = ikat_initialized (b_ikat s)"
  "b_media (publish_and_interrupt ch bytes s) = b_media s" "b_ciap (publish_and_interrupt ch bytes s) = b_ciap s"
  "b_input (publish_and_interrupt ch bytes s) = b_input s"
  by (simp_all add: publish_and_interrupt_def)

lemma published_fields [simp]:
  "ch_command (published bytes q) = ch_command q" "command_length (published bytes q) = command_length q"
  "ch_deferred (published bytes q) = ch_deferred q" "deferred_length (published bytes q) = deferred_length q"
  "deferred_pending (published bytes q) = deferred_pending q" "deferred_ns (published bytes q) = deferred_ns q"
  by (simp_all add: published_def)

text \<open>Everything the drive side of the gate keeps apart from the channels and the pointer state.\<close>

definition drive_view :: "'a drive_board_scheme \<Rightarrow> u64 \<times> bool \<times> bool \<times> bool \<times> media \<times> CiapDevice" where
  "drive_view s = (ikat_media_generation (b_ikat s), seek_report_pending (b_ikat s),
     ready_report_pending (b_ikat s), ikat_initialized (b_ikat s), b_media s, b_ciap s)"

lemma emit_other_channels:
  "ch \<noteq> 0 \<Longrightarrow> channel (b_ikat (emit_pointer_packet s)) ch = channel (b_ikat s) ch"
  by (simp add: emit_pointer_packet_def Let_def split: prod.split)

lemma emit_drive_view: "drive_view (emit_pointer_packet s) = drive_view s"
  by (simp add: emit_pointer_packet_def drive_view_def Let_def split: prod.split)

lemma pointer_reports_frame:
  "(ch \<noteq> 0 \<longrightarrow> channel (b_ikat (pointer_reports s)) ch = channel (b_ikat s) ch) \<and>
   drive_view (pointer_reports s) = drive_view s"
proof (induction s rule: pointer_reports.induct)
  case (1 s)
  show ?case
  proof (cases "pointer_elapsed_ns (b_ikat s) \<ge> 25000000")
    case True
    with 1 show ?thesis
      by (subst (1 2) pointer_reports.simps)
        (simp add: emit_other_channels emit_drive_view, simp add: drive_view_def)
  next
    case False
    then show ?thesis by (subst (1 2) pointer_reports.simps) simp
  qed
qed

lemma service_other_channels:
  "ch' \<noteq> ch \<Longrightarrow> channel (b_ikat (service_deferred n ch s)) ch' = channel (b_ikat s) ch'"
  by (simp add: service_deferred_def deliver_deferred_def defer_response_def Let_def)

lemma fold_service_others:
  "ch \<notin> set chs \<Longrightarrow> channel (b_ikat (fold (service_deferred n) chs s)) ch = channel (b_ikat s) ch"
  by (induction chs arbitrary: s) (simp_all add: service_other_channels)

lemma service_keeps:
  "ikat_initialized (b_ikat (service_deferred n ch s)) = ikat_initialized (b_ikat s)"
  "ikat_media_generation (b_ikat (service_deferred n ch s)) = ikat_media_generation (b_ikat s)"
  "b_media (service_deferred n ch s) = b_media s"
  by (simp_all add: service_deferred_def deliver_deferred_def defer_response_def Let_def)

lemma fold_service_keeps:
  "ikat_initialized (b_ikat (fold (service_deferred n) chs s)) = ikat_initialized (b_ikat s)"
  "ikat_media_generation (b_ikat (fold (service_deferred n) chs s)) = ikat_media_generation (b_ikat s)"
  "b_media (fold (service_deferred n) chs s) = b_media s"
  by (induction chs arbitrary: s) (simp_all add: service_keeps)

section \<open>Gate invariant\<close>

definition channel_ok :: "IkatChannel \<Rightarrow> bool" where
  "channel_ok q \<longleftrightarrow> length (ch_command q) = 8 \<and> length (ch_response q) = 8 \<and> length (ch_deferred q) = 8 \<and>
     command_length q \<le> 8 \<and> response_length q \<le> 8 \<and> response_position q \<le> response_length q \<and>
     deferred_length q \<le> 8 \<and> (deferred_pending q \<longrightarrow> 0 < deferred_length q \<and> deferred_ns q \<le> 1000000)"

text \<open>The status register and the interrupt-status bit of a channel say whether reply bytes are unread.\<close>

definition gate_ok :: "IkatDevice \<Rightarrow> nat \<Rightarrow> bool" where
  "gate_ok d ch \<longleftrightarrow> channel_ok (channel d ch) \<and>
     ikat_registers d (8 + ch) = (if response_remaining ch d = 0 then 0x11 else 0x01) \<and>
     (bit (ikat_registers d 12) (2 * ch + 1) \<longleftrightarrow> response_remaining ch d \<noteq> 0)"

definition ikat_ok :: "IkatDevice \<Rightarrow> bool" where
  "ikat_ok d \<longleftrightarrow> (\<forall>ch < 4. gate_ok d ch) \<and> pointer_elapsed_ns d < 25000000"

lemma interrupt_bit_exp:
  assumes "ch < 4"
  shows "interrupt_bit ch = 2 ^ (2 * ch + 1)"
proof -
  from assms consider "ch = 0" | "ch = 1" | "ch = 2" | "ch = 3" by linarith
  then show ?thesis by cases (simp_all add: interrupt_bit_def)
qed

lemma bit_interrupt_bit: "ch < 4 \<Longrightarrow> bit (interrupt_bit ch) n \<longleftrightarrow> n = 2 * ch + 1"
  by (auto simp only: interrupt_bit_exp bit_exp_iff possible_bit_word) simp

lemma and_interrupt_bit: "ch < 4 \<Longrightarrow> w AND interrupt_bit ch \<noteq> 0 \<longleftrightarrow> bit w (2 * ch + 1)"
  by (simp only: interrupt_bit_exp and_exp_eq_0_iff_not_bit) simp

lemma gate_frame:
  assumes "gate_ok d ch" and "ikat_registers e (8 + ch) = ikat_registers d (8 + ch)"
    and "bit (ikat_registers e 12) (2 * ch + 1) = bit (ikat_registers d 12) (2 * ch + 1)"
    and "response_length (channel e ch) = response_length (channel d ch)"
    and "response_position (channel e ch) = response_position (channel d ch)"
    and "channel_ok (channel e ch)"
  shows "gate_ok e ch"
  using assms by (simp add: gate_ok_def response_remaining_def)

lemma remaining_simps [simp]:
  "response_remaining ch (set_register r v d) = response_remaining ch d"
  "response_remaining ch (update_channel_status c d) = response_remaining ch d"
  by (simp_all add: response_remaining_def)

lemma update_status_registers [simp]:
  "ikat_registers (update_channel_status ch d) = (ikat_registers d)(8 + ch :=
     (if response_remaining ch d \<noteq> 0 then ikat_registers d (8 + ch) AND 0x01 else ikat_registers d (8 + ch) OR 0x11))"
  by (simp add: update_channel_status_def Let_def)

lemma pointer_status [simp]: "pointer_elapsed_ns (update_channel_status ch d) = pointer_elapsed_ns d"
  by (simp add: update_channel_status_def Let_def)

lemma raise_registers [simp]:
  "ikat_registers (b_ikat (raise_channel_interrupt ch s)) =
     (ikat_registers (b_ikat s))(12 := ikat_registers (b_ikat s) 12 OR interrupt_bit ch)"
  by (simp add: raise_channel_interrupt_def Let_def)

lemma published_ok: "channel_ok q \<Longrightarrow> channel_ok (published bytes q)"
  by (simp add: channel_ok_def published_def copy_into_def)

lemma published_remaining:
  "response_length (published bytes q) - response_position (published bytes q) = min (length bytes) 8"
  by (simp add: published_def)

lemma gate_publish:
  assumes "ch < 4" "ch' < 4" and "gate_ok (b_ikat s) ch'" and "bytes \<noteq> []"
  shows "gate_ok (b_ikat (publish_and_interrupt ch bytes s)) ch'"
proof (cases "ch' = ch")
  case True
  have "ikat_registers (b_ikat s) (8 + ch) \<in> {0x11, 0x01}"
    using assms True by (auto simp: gate_ok_def)
  then have "ikat_registers (b_ikat s) (8 + ch) AND 1 = 1" by auto
  with assms True show ?thesis
    by (simp add: gate_ok_def publish_and_interrupt_def publish_response_def response_remaining_def Let_def
        bit_or_iff bit_interrupt_bit)
      (auto simp: channel_ok_def copy_into_def)
next
  case False
  with assms show ?thesis
    by (intro gate_frame [OF assms(3)])
      (simp_all add: publish_and_interrupt_def publish_response_def Let_def bit_or_iff bit_interrupt_bit gate_ok_def)
qed

lemma ok_publish:
  "ikat_ok (b_ikat s) \<Longrightarrow> ch < 4 \<Longrightarrow> bytes \<noteq> [] \<Longrightarrow> ikat_ok (b_ikat (publish_and_interrupt ch bytes s))"
  by (simp add: ikat_ok_def gate_publish)

lemma ok_frame:
  assumes "ikat_ok d" and "ikat_registers e = ikat_registers d" and "pointer_elapsed_ns e = pointer_elapsed_ns d"
    and "\<And>ch. ch < 4 \<Longrightarrow> response_length (channel e ch) = response_length (channel d ch) \<and>
      response_position (channel e ch) = response_position (channel d ch) \<and>
      (channel_ok (channel d ch) \<longrightarrow> channel_ok (channel e ch))"
  shows "ikat_ok e"
  using assms by (auto simp: ikat_ok_def gate_ok_def response_remaining_def)

lemma defer_channel:
  "channel (defer_response ch bytes d) = (channel d)(ch := (channel d ch)\<lparr>ch_deferred :=
     copy_into (take 8 bytes) (ch_deferred (channel d ch)), deferred_length := length (take 8 bytes),
     deferred_pending := True, deferred_ns := 1000000\<rparr>)"
  by (simp add: defer_response_def Let_def)

lemma ok_defer: "ikat_ok d \<Longrightarrow> bytes \<noteq> [] \<Longrightarrow> ikat_ok (defer_response ch bytes d)"
  by (erule ok_frame) (auto simp: defer_channel channel_ok_def copy_into_def, simp_all add: defer_response_def)

lemma gate_flags [simp]:
  "gate_ok (d\<lparr>seek_report_pending := x\<rparr>) = gate_ok d" "gate_ok (d\<lparr>ready_report_pending := x\<rparr>) = gate_ok d"
  "gate_ok (d\<lparr>ikat_media_generation := g\<rparr>) = gate_ok d" "gate_ok (d\<lparr>previous_input := i\<rparr>) = gate_ok d"
  "gate_ok (d\<lparr>pointer_repeat_count := n\<rparr>) = gate_ok d" "gate_ok (d\<lparr>pointer_elapsed_ns := p\<rparr>) = gate_ok d"
  by (simp_all add: fun_eq_iff gate_ok_def response_remaining_def)

lemma ok_flags [simp]:
  "ikat_ok (d\<lparr>seek_report_pending := x\<rparr>) = ikat_ok d" "ikat_ok (d\<lparr>ready_report_pending := x\<rparr>) = ikat_ok d"
  "ikat_ok (d\<lparr>ikat_media_generation := g\<rparr>) = ikat_ok d" "ikat_ok (d\<lparr>previous_input := i\<rparr>) = ikat_ok d"
  "ikat_ok (d\<lparr>pointer_repeat_count := n\<rparr>) = ikat_ok d"
  by (simp_all add: ikat_ok_def gate_ok_def response_remaining_def)

lemma gate_emit: "ch < 4 \<Longrightarrow> gate_ok (b_ikat s) ch \<Longrightarrow> gate_ok (b_ikat (emit_pointer_packet s)) ch"
  by (simp add: emit_pointer_packet_def pointer_packet_def gate_publish Let_def split: prod.split)

lemma ok_pointer: "ikat_ok d \<Longrightarrow> x < 25000000 \<Longrightarrow> ikat_ok (d\<lparr>pointer_elapsed_ns := x\<rparr>)"
  by (simp add: ikat_ok_def gate_ok_def response_remaining_def)

lemma ok_pointer_reports:
  assumes "ikat_ok ((b_ikat s)\<lparr>pointer_elapsed_ns := 0\<rparr>)"
  shows "ikat_ok (b_ikat (pointer_reports s))"
  using assms
proof (induction s rule: pointer_reports.induct)
  case (1 s)
  let ?s = "upd_ikat (\<lambda>d. d\<lparr>pointer_elapsed_ns := pointer_elapsed_ns d - 25000000\<rparr>) s"
  from 1(2) have emit: "ikat_ok ((b_ikat (emit_pointer_packet ?s))\<lparr>pointer_elapsed_ns := 0\<rparr>)"
    by (simp add: ikat_ok_def gate_emit)
  show ?case
  proof (cases "pointer_elapsed_ns (b_ikat s) \<ge> 25000000")
    case True
    with 1(1) [OF True emit] show ?thesis by (subst pointer_reports.simps) simp
  next
    case False
    with 1(2) show ?thesis
      by (simp add: pointer_reports.simps [of s] ikat_ok_def)
  qed
qed

lemma ok_service:
  assumes "ikat_ok (b_ikat s)" and "ch < 4"
  shows "ikat_ok (b_ikat (service_deferred n ch s))"
proof -
  let ?q = "channel (b_ikat s) ch"
  from assms have q: "channel_ok ?q" by (auto simp: ikat_ok_def gate_ok_def)
  have ns: "deferred_ns ?q - n \<le> 1000000" if "n < deferred_ns ?q" "deferred_ns ?q \<le> 1000000"
    using word_sub_le [of n "deferred_ns ?q"] that by (meson order.strict_implies_order order_trans)
  have sub: "ikat_ok (b_ikat (upd_ikat (upd_channel ch (\<lambda>q. q\<lparr>deferred_ns := deferred_ns q - n\<rparr>)) s))"
    if "n < deferred_ns ?q"
    using assms(1) by (rule ok_frame) (use ns that in \<open>auto simp: channel_ok_def\<close>)
  let ?s1 = "upd_ikat (upd_channel ch (\<lambda>q. q\<lparr>deferred_ns := 0\<rparr>)) s"
  have s1: "ikat_ok (b_ikat ?s1)"
    using assms(1) by (rule ok_frame) (auto simp: channel_ok_def)
  have "ikat_ok (b_ikat (deliver_deferred ch ?s1))" if "deferred_pending ?q"
  proof -
    have bytes: "take (deferred_length ?q) (ch_deferred ?q) \<noteq> []" using q that by (auto simp: channel_ok_def)
    have pub: "ikat_ok (b_ikat (upd_ikat (upd_channel ch (\<lambda>q. q\<lparr>deferred_pending := False\<rparr>))
        (publish_and_interrupt ch (take (deferred_length ?q) (ch_deferred ?q)) t)))"
      if "ikat_ok (b_ikat t)" for t :: "'a drive_board_scheme"
      using ok_publish [OF that \<open>ch < 4\<close> bytes]
      unfolding b_ikat_upd by (rule ok_frame) (auto simp: channel_ok_def)
    from s1 have "ikat_ok (b_ikat (cdic_transport_resume ?s1))" by simp
    from pub [OF s1] pub [OF this] show ?thesis
      by (auto simp: deliver_deferred_def Let_def intro!: ok_defer)
  qed
  with assms sub s1 show ?thesis by (simp add: service_deferred_def Let_def)
qed

lemma ok_fold_service:
  "ikat_ok (b_ikat s) \<Longrightarrow> set chs \<subseteq> {..<4} \<Longrightarrow> ikat_ok (b_ikat (fold (service_deferred n) chs s))"
  by (induction chs arbitrary: s) (simp_all add: ok_service)

lemma ok_initialize: "ikat_ok (b_ikat (initialize_ikat s))"
proof -
  have "gate_ok (b_ikat (initialize_ikat s)) ch" if "ch < 4" for ch
    using that by (simp add: initialize_ikat_def gate_ok_def channel_ok_def empty_channel_def response_remaining_def)
  then show ?thesis by (simp add: ikat_ok_def initialize_ikat_def)
qed

lemma ok_ensure:
  "(ikat_initialized (b_ikat s) \<longrightarrow> ikat_ok (b_ikat s)) \<Longrightarrow> ikat_ok (b_ikat (ikat_ensure_initialized s))"
  by (simp add: ikat_ensure_initialized_def ok_initialize)

lemma ensure_initialized [simp]: "ikat_initialized (b_ikat (ikat_ensure_initialized s))"
  by (simp add: ikat_ensure_initialized_def initialize_ikat_def)

lemma ok_increment:
  assumes "ikat_initialized (b_ikat s) \<longrightarrow> ikat_ok (b_ikat s)"
  shows "ikat_ok (b_ikat (slave_increment_time n s))"
proof -
  from assms have "ikat_ok (b_ikat (check_media (ikat_ensure_initialized s)))"
    by (simp add: check_media_def ok_ensure ok_publish make_disc_status_def Let_def)
  then have "ikat_ok (b_ikat (pointer_reports (upd_ikat (\<lambda>d. d\<lparr>pointer_elapsed_ns := pointer_elapsed_ns d + n\<rparr>)
      (check_media (ikat_ensure_initialized s)))))"
    by (intro ok_pointer_reports) (simp add: ok_pointer)
  then show ?thesis
    using ok_fold_service [where chs = "[0..<4]"] by (simp add: slave_increment_time_def Let_def lessThan_atLeast0)
qed

lemma ok_read:
  assumes "ikat_ok (b_ikat s)"
  shows "ikat_ok (b_ikat (snd (ikat_read_register r s)))"
proof (cases "4 \<le> r \<and> r \<le> 7 \<and> response_remaining (r - 4) (b_ikat s) \<noteq> 0")
  case True
  let ?d = "b_ikat s" and ?e = "b_ikat (snd (ikat_read_register r s))"
  define ch where "ch = r - 4"
  with True have ch: "ch < 4" "r = 4 + ch" "response_remaining ch ?d \<noteq> 0" by auto
  have chans: "channel ?e = (channel ?d)(ch := (channel ?d ch)\<lparr>response_position := response_position (channel ?d ch) + 1\<rparr>)"
    using ch by (simp add: ikat_read_register_def Let_def)
  have rest: "pointer_elapsed_ns ?e = pointer_elapsed_ns ?d"
    using ch by (simp add: ikat_read_register_def Let_def)
  have "gate_ok ?e c" if "c < 4" for c
  proof -
    from assms that have ok: "gate_ok ?d c" by (simp add: ikat_ok_def)
    show ?thesis
    proof (cases "c = ch")
      case False
      then show ?thesis using ch that
        by (intro gate_frame [OF ok])
          (use ok chans in \<open>auto simp: gate_ok_def ikat_read_register_def Let_def bit_and_iff bit_not_iff bit_interrupt_bit\<close>)
    next
      case True
      from ok True ch have reg: "ikat_registers ?d (8 + ch) = 1" "bit (ikat_registers ?d 12) (2 * ch + 1)"
        and q: "channel_ok (channel ?d ch)" by (auto simp: gate_ok_def)
      from q chans ch have "channel_ok (channel ?e ch)" by (auto simp: channel_ok_def response_remaining_def)
      with reg chans ch True show ?thesis
        by (simp add: gate_ok_def response_remaining_def)
          (simp add: ikat_read_register_def Let_def response_remaining_def bit_and_iff bit_not_iff bit_interrupt_bit)
    qed
  qed
  with assms rest show ?thesis by (simp add: ikat_ok_def)
next
  case False
  with assms show ?thesis by (auto simp: ikat_read_register_def Let_def)
qed

lemma ok_channel_c:
  assumes "ikat_ok (b_ikat s)"
  shows "ikat_ok (b_ikat (handle_channel_c s))"
proof -
  have "ikat_ok (b_ikat (upd_ikat (upd_channel 2 (\<lambda>q. q\<lparr>command_length := 0\<rparr>)) s))"
    unfolding b_ikat_upd using assms by (rule ok_frame) (auto simp: channel_ok_def)
  then show ?thesis
    by (auto simp: handle_channel_c_def channel_c_reply_def Let_def intro!: ok_publish split: option.split if_splits)
qed

lemma ok_dispatch: "ikat_ok (b_ikat s) \<Longrightarrow> ikat_ok (b_ikat (dispatch_channel_d c bytes s))"
  by (simp add: dispatch_channel_d_def play_request_def make_disc_status_def ok_publish ok_defer Let_def)

lemma ok_channel_d:
  assumes "ikat_ok (b_ikat s)"
  shows "ikat_ok (b_ikat (handle_channel_d s))"
proof -
  let ?t = "dispatch_channel_d (ch_command (channel (b_ikat s) 3) ! 0) (ch_command (channel (b_ikat s) 3)) s"
  have "ikat_ok (b_ikat (upd_ikat (upd_channel 3 (\<lambda>q. q\<lparr>command_length := 0\<rparr>)) ?t))"
    unfolding b_ikat_upd using ok_dispatch [OF assms] by (rule ok_frame) (auto simp: channel_ok_def)
  with assms show ?thesis by (simp add: handle_channel_d_def Let_def)
qed

lemma ok_write:
  assumes "ikat_ok (b_ikat s)"
  shows "ikat_ok (b_ikat (ikat_write_register r v s))"
proof -
  have push: "ikat_ok (b_ikat (upd_ikat (\<lambda>d. upd_channel r (push_command v) (set_register r v d)) s))" if "r \<le> 3"
    using assms that by (auto simp: ikat_ok_def gate_ok_def response_remaining_def channel_ok_def push_command_def)
  have reg: "ikat_ok (b_ikat (upd_ikat (set_register 13 v) s))"
    using assms by (auto simp: ikat_ok_def gate_ok_def)
  show ?thesis
    using assms push reg by (auto simp: ikat_write_register_def Let_def intro!: ok_channel_c ok_channel_d)
qed

section \<open>Reachable gate states\<close>

text \<open>
  Everything that can happen to the gate: bus reads and writes, device time, and changes of the rest of the
  board (disc, host input, CD interface) between them.
\<close>

inductive ikat_reachable :: "'a drive_board_scheme \<Rightarrow> bool" where
  power_on: "\<not> ikat_initialized (b_ikat s) \<Longrightarrow> ikat_reachable s"
| bus_read: "ikat_reachable s \<Longrightarrow> ikat_reachable (snd (slave_read address s))"
| bus_write: "ikat_reachable s \<Longrightarrow> ikat_reachable (slave_write address v s)"
| device_time: "ikat_reachable s \<Longrightarrow> ikat_reachable (slave_increment_time n s)"
| board_change: "ikat_reachable s \<Longrightarrow> b_ikat s' = b_ikat s \<Longrightarrow> ikat_reachable s'"

lemma reachable_ok: "ikat_reachable s \<Longrightarrow> ikat_initialized (b_ikat s) \<longrightarrow> ikat_ok (b_ikat s)"
proof (induction rule: ikat_reachable.induct)
  case (bus_read s address)
  then show ?case by (simp add: slave_read_def ok_ensure ok_read Let_def)
next
  case (bus_write s address v)
  then show ?case by (simp add: slave_write_def ok_ensure ok_write Let_def)
next
  case (device_time s n)
  then show ?case by (simp add: ok_increment)
qed simp_all

lemma reachable_gate: "ikat_reachable s \<Longrightarrow> ikat_initialized (b_ikat s) \<Longrightarrow> ch < 4 \<Longrightarrow> gate_ok (b_ikat s) ch"
  using reachable_ok [of s] by (simp add: ikat_ok_def)

definition unread :: "IkatChannel \<Rightarrow> u8 list" where
  "unread q = drop (response_position q) (take (response_length q) (ch_response q))"

lemma unread_empty: "gate_ok d ch \<Longrightarrow> unread (channel d ch) = [] \<longleftrightarrow> response_remaining ch d = 0"
  by (auto simp: gate_ok_def channel_ok_def unread_def response_remaining_def)

lemma unread_published: "channel_ok q \<Longrightarrow> unread (published bytes q) = take 8 bytes"
  by (simp add: unread_def published_def copy_into_def min_def)

lemma unread_flags [simp]:
  "unread (q\<lparr>deferred_ns := n\<rparr>) = unread q" "unread (q\<lparr>deferred_pending := p\<rparr>) = unread q"
  "unread (q\<lparr>command_length := k\<rparr>) = unread q" "unread (q\<lparr>ch_deferred := bs\<rparr>) = unread q"
  "unread (q\<lparr>deferred_length := k\<rparr>) = unread q" "unread (q\<lparr>ch_command := bs\<rparr>) = unread q"
  by (simp_all add: unread_def)

text \<open>
C18: In every reachable state of the gate, for each of the four channels, the channel's status register and
its bit of the interrupt-status register say exactly whether reply bytes are still unread, and every buffer
index stays within its eight-byte buffer.
\<close>
theorem gate_registers_reflect_unread:
  assumes "ikat_reachable s" and "ikat_initialized (b_ikat s)" and "ch < 4"
  shows "ikat_registers (b_ikat s) (REG_STATUS_A + ch) =
      (if unread (channel (b_ikat s) ch) = [] then 0x11 else 0x01) \<and>
    (ikat_registers (b_ikat s) REG_INTERRUPT_STATUS AND interrupt_bit ch \<noteq> 0 \<longleftrightarrow>
      unread (channel (b_ikat s) ch) \<noteq> []) \<and>
    channel_ok (channel (b_ikat s) ch)"
proof -
  from assms have "gate_ok (b_ikat s) ch" by (simp add: reachable_gate)
  then show ?thesis
    using assms(3) by (simp add: unread_empty and_interrupt_bit) (simp add: gate_ok_def)
qed

section \<open>Reading a reply\<close>

fun slave_reads :: "nat \<Rightarrow> u32 \<Rightarrow> 'a drive_board_scheme \<Rightarrow> u32 list \<times> 'a drive_board_scheme" where
  "slave_reads 0 address s = ([], s)"
| "slave_reads (Suc n) address s =
     (let (v, s1) = slave_read address s; (vs, s2) = slave_reads n address s1 in (v # vs, s2))"

definition output_address :: "nat \<Rightarrow> u32" where
  "output_address ch = CDI_SLAVE_BASE + 2 * (4 + of_nat ch)"

lemma register_output:
  assumes "ch < 4"
  shows "register_from_address (output_address ch) = 4 + ch"
proof -
  from assms consider "ch = 0" | "ch = 1" | "ch = 2" | "ch = 3" by linarith
  then show ?thesis by cases (simp_all add: register_from_address_def output_address_def)
qed

declare slave_reads.simps(2) [simp del]

lemma read_one:
  assumes "ikat_ok (b_ikat s)" "ikat_initialized (b_ikat s)" "ch < 4" "unread (channel (b_ikat s) ch) = b # bs"
  shows "\<exists>s'. slave_read (output_address ch) s = (ucast b, s') \<and> ikat_ok (b_ikat s') \<and>
    ikat_initialized (b_ikat s') \<and> unread (channel (b_ikat s') ch) = bs \<and>
    (\<forall>c. c \<noteq> ch \<longrightarrow> channel (b_ikat s') c = channel (b_ikat s) c)"
proof -
  let ?d = "b_ikat s" and ?r = "ikat_read_register (4 + ch) s"
  let ?q = "channel ?d ch"
  from assms have "gate_ok ?d ch" by (simp add: ikat_ok_def)
  with assms have rem: "response_remaining ch ?d \<noteq> 0" and q: "channel_ok ?q"
    using unread_empty [of ?d ch] by (auto simp: gate_ok_def)
  from q rem have "unread ?q = ch_response ?q ! response_position ?q #
      drop (Suc (response_position ?q)) (take (response_length ?q) (ch_response ?q))"
    by (simp add: unread_def channel_ok_def response_remaining_def Cons_nth_drop_Suc [symmetric])
  with assms have b: "ch_response ?q ! response_position ?q = b"
    and bs: "drop (Suc (response_position ?q)) (take (response_length ?q) (ch_response ?q)) = bs" by simp_all
  have "slave_read (output_address ch) s = apfst ucast ?r"
    using assms by (simp add: slave_read_def register_output ikat_ensure_initialized_def)
  moreover have "fst ?r = b" using rem assms(3) b
    by (simp add: ikat_read_register_def Let_def)
  moreover have "unread (channel (b_ikat (snd ?r)) ch) = bs" using rem assms(3) bs
    by (simp add: ikat_read_register_def Let_def unread_def)
  moreover have "ikat_initialized (b_ikat (snd ?r))" "\<forall>c. c \<noteq> ch \<longrightarrow> channel (b_ikat (snd ?r)) c = channel ?d c"
    using rem assms(2,3) by (simp_all add: ikat_read_register_def Let_def)
  ultimately show ?thesis using ok_read [OF assms(1), of "4 + ch"]
    by (intro exI [of _ "snd ?r"]) (simp add: prod_eq_iff)
qed

lemma read_all:
  assumes "ikat_ok (b_ikat s)" "ikat_initialized (b_ikat s)" "ch < 4" "unread (channel (b_ikat s) ch) = bs"
  shows "\<exists>s'. slave_reads (length bs) (output_address ch) s = (map ucast bs, s') \<and> ikat_ok (b_ikat s') \<and>
    ikat_initialized (b_ikat s') \<and> unread (channel (b_ikat s') ch) = [] \<and>
    (\<forall>c. c \<noteq> ch \<longrightarrow> channel (b_ikat s') c = channel (b_ikat s) c)"
  using assms
proof (induction bs arbitrary: s)
  case (Cons b bs)
  from read_one [OF Cons.prems] obtain s1 where s1: "slave_read (output_address ch) s = (ucast b, s1)"
    "ikat_ok (b_ikat s1)" "ikat_initialized (b_ikat s1)" "unread (channel (b_ikat s1) ch) = bs"
    "\<forall>c. c \<noteq> ch \<longrightarrow> channel (b_ikat s1) c = channel (b_ikat s) c" by blast
  from Cons.IH [OF s1(2,3) Cons.prems(3) s1(4)] s1 show ?case by (auto simp: slave_reads.simps(2))
qed simp

text \<open>
C19: A reply published on a channel is read back byte for byte, in order, from the channel's output register;
after the last byte the channel's interrupt-status bit is clear, its status register reports no data, and no
other channel has changed.
\<close>
theorem reply_read_out:
  assumes "ikat_reachable s" and "ikat_initialized (b_ikat s)" and "ch < 4" and "bytes \<noteq> []" and "length bytes \<le> 8"
  shows "\<exists>s'. slave_reads (length bytes) (output_address ch) (publish_and_interrupt ch bytes s) = (map ucast bytes, s') \<and>
    ikat_registers (b_ikat s') REG_INTERRUPT_STATUS AND interrupt_bit ch = 0 \<and>
    ikat_registers (b_ikat s') (REG_STATUS_A + ch) = 0x11 \<and>
    (\<forall>c. c \<noteq> ch \<longrightarrow> channel (b_ikat s') c = channel (b_ikat s) c)"
proof -
  let ?p = "publish_and_interrupt ch bytes s"
  from assms reachable_ok have ok: "ikat_ok (b_ikat s)" by blast
  with assms have p: "ikat_ok (b_ikat ?p)" "ikat_initialized (b_ikat ?p)" by (simp_all add: ok_publish)
  have "unread (channel (b_ikat ?p) ch) = bytes"
    using ok assms(3,5) by (simp add: unread_published ikat_ok_def gate_ok_def)
  from read_all [OF p assms(3) this] obtain s' where s': "slave_reads (length bytes) (output_address ch) ?p = (map ucast bytes, s')"
    "ikat_ok (b_ikat s')" "unread (channel (b_ikat s') ch) = []"
    "\<forall>c. c \<noteq> ch \<longrightarrow> channel (b_ikat s') c = channel (b_ikat ?p) c" by blast
  then have "gate_ok (b_ikat s') ch" using assms(3) by (simp add: ikat_ok_def)
  with s' assms(3) have "response_remaining ch (b_ikat s') = 0" by (simp add: unread_empty)
  with s' \<open>gate_ok (b_ikat s') ch\<close> assms(3) show ?thesis
    using and_interrupt_bit [of ch "ikat_registers (b_ikat s') 12"]
    by (intro exI [of _ s']) (auto simp: gate_ok_def)
qed

section \<open>Deferred replies\<close>

text \<open>What one pass of the deferred loop does to the channel it serves.\<close>

definition serviced :: "u64 \<Rightarrow> bool \<Rightarrow> IkatChannel \<Rightarrow> IkatChannel" where
  "serviced n ready q =
     (if \<not> deferred_pending q then q
      else if n < deferred_ns q then q\<lparr>deferred_ns := deferred_ns q - n\<rparr>
      else if response_length q - response_position q \<noteq> 0 then q\<lparr>deferred_ns := 0\<rparr>
      else
        let q1 = (published (take (deferred_length q) (ch_deferred q)) (q\<lparr>deferred_ns := 0\<rparr>))\<lparr>deferred_pending := False\<rparr>
        in if ready
           then q1\<lparr>ch_deferred := copy_into [0xB0, 0x00, 0x02, 0x0E] (ch_deferred q1), deferred_length := 4,
                  deferred_pending := True, deferred_ns := 1000000\<rparr>
           else q1)"

lemma service_channel:
  "channel (b_ikat (service_deferred n ch s)) ch =
     serviced n (ch = 3 \<and> ready_report_pending (b_ikat s)) (channel (b_ikat s) ch)"
  by (simp add: service_deferred_def deliver_deferred_def serviced_def defer_channel response_remaining_def Let_def)

lemma service_ready:
  "ch \<noteq> 3 \<Longrightarrow> ready_report_pending (b_ikat (service_deferred n ch s)) = ready_report_pending (b_ikat s)"
  by (simp add: service_deferred_def deliver_deferred_def Let_def)

lemma check_media_same:
  "ikat_initialized (b_ikat s) \<Longrightarrow> media_generation (b_media s) = ikat_media_generation (b_ikat s) \<Longrightarrow>
   check_media (ikat_ensure_initialized s) = s"
  by (simp add: check_media_def ikat_ensure_initialized_def)

lemma increment_channel:
  assumes "ikat_initialized (b_ikat s)" "media_generation (b_media s) = ikat_media_generation (b_ikat s)"
    and "0 < ch" "ch < 4"
  shows "channel (b_ikat (slave_increment_time n s)) ch =
    serviced n (ch = 3 \<and> ready_report_pending (b_ikat s)) (channel (b_ikat s) ch)"
proof -
  let ?t = "pointer_reports (upd_ikat (\<lambda>d. d\<lparr>pointer_elapsed_ns := pointer_elapsed_ns d + n\<rparr>) s)"
  have t: "channel (b_ikat ?t) ch = channel (b_ikat s) ch" "ready_report_pending (b_ikat ?t) = ready_report_pending (b_ikat s)"
    using pointer_reports_frame [of ch "upd_ikat (\<lambda>d. d\<lparr>pointer_elapsed_ns := pointer_elapsed_ns d + n\<rparr>) s"] assms
    by (simp_all add: drive_view_def)
  have loop: "slave_increment_time n s = service_deferred n 3 (service_deferred n 2 (service_deferred n 1 (service_deferred n 0 ?t)))"
    using assms by (simp add: slave_increment_time_def check_media_same Let_def upt_rec numeral_eq_Suc)
  from assms consider "ch = 1" | "ch = 2" | "ch = 3" by linarith
  then show ?thesis using t loop
    by cases (simp_all add: service_other_channels service_channel service_ready)
qed

text \<open>
C20: Passing time never loses an unread reply on channels B, C and D: while bytes are unread and the disc has
not changed, no deferred or unsolicited report is published over them, and a pending one stays queued with
its bytes intact.
\<close>
theorem unread_reply_kept:
  assumes "ikat_reachable s" and "ikat_initialized (b_ikat s)"
    and "media_generation (b_media s) = ikat_media_generation (b_ikat s)"
    and "0 < ch" and "ch < 4" and "unread (channel (b_ikat s) ch) \<noteq> []"
  shows "unread (channel (b_ikat (slave_increment_time n s)) ch) = unread (channel (b_ikat s) ch) \<and>
    deferred_pending (channel (b_ikat (slave_increment_time n s)) ch) = deferred_pending (channel (b_ikat s) ch) \<and>
    ch_deferred (channel (b_ikat (slave_increment_time n s)) ch) = ch_deferred (channel (b_ikat s) ch)"
proof -
  from assms have "gate_ok (b_ikat s) ch" by (simp add: reachable_gate)
  with assms have "response_length (channel (b_ikat s) ch) - response_position (channel (b_ikat s) ch) \<noteq> 0"
    by (simp add: unread_empty response_remaining_def)
  with assms show ?thesis by (simp add: increment_channel serviced_def)
qed

section \<open>The seek handshake\<close>

abbreviation (input) "command_address \<equiv> 0x00310006 :: u32"

lemma ucast_byte_back: "ucast (ucast (v :: u8) :: u32) = v"
  by (rule bit_word_eqI) (simp add: bit_unsigned_iff)

definition write_commands :: "u8 list \<Rightarrow> 'a drive_board_scheme \<Rightarrow> 'a drive_board_scheme" where
  "write_commands bytes s = fold (\<lambda>v. slave_write command_address (ucast v)) bytes s"

lemma write_command:
  "ikat_initialized (b_ikat s) \<Longrightarrow> slave_write command_address (ucast v) s =
     handle_channel_d (upd_ikat (\<lambda>d. upd_channel 3 (push_command v) (set_register 3 v d)) s)"
  by (simp add: slave_write_def ikat_ensure_initialized_def register_from_address_def ikat_write_register_def
      ucast_byte_back)

text \<open>The state in which a command byte has been stored but not yet acted on.\<close>

definition stored :: "u8 list \<Rightarrow> nat \<Rightarrow> 'a drive_board_scheme \<Rightarrow> 'a drive_board_scheme \<Rightarrow> bool" where
  "stored cmd k s t \<longleftrightarrow>
     channel (b_ikat t) = (channel (b_ikat s))(3 := (channel (b_ikat s) 3)\<lparr>ch_command := cmd, command_length := k\<rparr>) \<and>
     drive_view t = drive_view s"

lemma stored_write:
  assumes "stored cmd k s t" "ikat_initialized (b_ikat s)" "k < 3" "length cmd = 8" "four_byte_command (cmd[k := v] ! 0)"
  shows "stored (cmd[k := v]) (Suc k) s (slave_write command_address (ucast v) t)"
proof -
  from assms have "ikat_initialized (b_ikat t)" by (simp add: stored_def drive_view_def)
  with assms show ?thesis
    by (simp add: write_command handle_channel_d_def Let_def push_command_def stored_def drive_view_def)
qed

lemma stored_dispatch:
  assumes "stored cmd 3 s t" "ikat_initialized (b_ikat s)" "length cmd = 8"
  shows "\<exists>u. stored (cmd[3 := v]) 4 s u \<and> slave_write command_address (ucast v) t =
    upd_ikat (upd_channel 3 (\<lambda>q. q\<lparr>command_length := 0\<rparr>)) (dispatch_channel_d (cmd ! 0) (cmd[3 := v]) u)"
proof -
  let ?u = "upd_ikat (\<lambda>d. upd_channel 3 (push_command v) (set_register 3 v d)) t"
  from assms have "ikat_initialized (b_ikat t)" by (simp add: stored_def drive_view_def)
  with assms have "slave_write command_address (ucast v) t =
      upd_ikat (upd_channel 3 (\<lambda>q. q\<lparr>command_length := 0\<rparr>)) (dispatch_channel_d (cmd ! 0) (cmd[3 := v]) ?u)"
    by (simp add: write_command handle_channel_d_def Let_def push_command_def stored_def)
  moreover from assms have "stored (cmd[3 := v]) 4 s ?u"
    by (simp add: push_command_def stored_def drive_view_def)
  ultimately show ?thesis by blast
qed

lemma four_writes:
  assumes "ikat_initialized (b_ikat s)" "command_length (channel (b_ikat s) 3) = 0"
    "length (ch_command (channel (b_ikat s) 3)) = 8" "four_byte_command c"
  shows "\<exists>u cmd. stored cmd 4 s u \<and> length cmd = 8 \<and> cmd ! 1 = a \<and> cmd ! 2 = b \<and> cmd ! 3 = e \<and>
    write_commands [c, a, b, e] s =
      upd_ikat (upd_channel 3 (\<lambda>q. q\<lparr>command_length := 0\<rparr>)) (dispatch_channel_d c cmd u)"
proof -
  let ?c0 = "ch_command (channel (b_ikat s) 3)"
  have "(channel (b_ikat s) 3)\<lparr>command_length := 0\<rparr> = channel (b_ikat s) 3"
    using assms(2) by (intro IkatChannel.equality) simp_all
  then have "stored ?c0 0 s s" by (simp add: stored_def)
  from stored_write [OF this assms(1) _ assms(3), of c] assms
  have w: "stored (?c0[0 := c]) 1 s (slave_write command_address (ucast c) s)" by simp
  from stored_write [OF w assms(1), of a] assms
  have x: "stored (?c0[0 := c, 1 := a]) 2 s (write_commands [c, a] s)" by (simp add: write_commands_def numeral_2_eq_2)
  from stored_write [OF x assms(1), of b] assms
  have y: "stored (?c0[0 := c, 1 := a, 2 := b]) 3 s (write_commands [c, a, b] s)"
    by (simp add: write_commands_def numeral_3_eq_3)
  from stored_dispatch [OF y assms(1), of e] assms show ?thesis
    by (auto simp: write_commands_def intro!: exI [of _ "?c0[0 := c, 1 := a, 2 := b, 3 := e]"])
qed

lemma reachable_commands:
  "ikat_reachable s \<Longrightarrow> ikat_initialized (b_ikat s) \<Longrightarrow>
   ikat_reachable (write_commands bs s) \<and> ikat_initialized (b_ikat (write_commands bs s))"
proof (induction bs arbitrary: s)
  case (Cons b bs)
  have "ikat_initialized (b_ikat (slave_write a v t))" for a v and t :: "'a drive_board_scheme"
    using ensure_initialized [of t]
    by (simp add: slave_write_def ikat_write_register_def handle_channel_c_def handle_channel_d_def
        dispatch_channel_d_def play_request_def defer_response_def Let_def split: option.split)
  with Cons show ?case by (simp add: write_commands_def ikat_reachable.bus_write)
qed (simp add: write_commands_def)

lemma seek_command:
  assumes "ikat_initialized (b_ikat s)" "command_length (channel (b_ikat s) 3) = 0"
    "length (ch_command (channel (b_ikat s) 3)) = 8"
    and t_def: "t = write_commands [0xE1, a, b, e] s"
  shows "drive_lba (b_ciap t) = absolute_msf_lba [0xE1, a, b, e] \<and> drive_positioned (b_ciap t) \<and>
    \<not> audio_positioned (b_ciap t) \<and> seek_report_pending (b_ikat t) \<and> ikat_initialized (b_ikat t) \<and>
    b_media t = b_media s \<and> ikat_media_generation (b_ikat t) = ikat_media_generation (b_ikat s) \<and>
    unread (channel (b_ikat t) 3) = unread (channel (b_ikat s) 3) \<and> command_length (channel (b_ikat t) 3) = 0 \<and>
    length (ch_command (channel (b_ikat t) 3)) = 8"
proof -
  from four_writes [OF assms(1-3), of "0xE1" a b e] obtain u cmd where u: "stored cmd 4 s u" "length cmd = 8"
    "cmd ! 1 = a" "cmd ! 2 = b" "cmd ! 3 = e"
    "t = upd_ikat (upd_channel 3 (\<lambda>q. q\<lparr>command_length := 0\<rparr>)) (dispatch_channel_d 0xE1 cmd u)"
    by (auto simp: four_byte_command_def t_def)
  from u(3-5) have "absolute_msf_lba cmd = absolute_msf_lba [0xE1, a, b, e]"
    by (simp add: absolute_msf_lba_def)
  with u assms(1) show ?thesis
    by (simp add: dispatch_channel_d_def stored_def drive_view_def cdic_set_drive_position_def reg_simps Let_def)
qed

lemma play_after_seek:
  assumes "ikat_initialized (b_ikat s)" "command_length (channel (b_ikat s) 3) = 0"
    "length (ch_command (channel (b_ikat s) 3)) = 8" "seek_report_pending (b_ikat s)"
    and t_def: "t = write_commands [0xB0, a, b, e] s"
  shows "ready_report_pending (b_ikat t) \<and> ikat_initialized (b_ikat t) \<and> b_media t = b_media s \<and>
    ikat_media_generation (b_ikat t) = ikat_media_generation (b_ikat s) \<and>
    unread (channel (b_ikat t) 3) = unread (channel (b_ikat s) 3) \<and> deferred_pending (channel (b_ikat t) 3) \<and>
    deferred_ns (channel (b_ikat t) 3) = 1000000 \<and>
    take (deferred_length (channel (b_ikat t) 3)) (ch_deferred (channel (b_ikat t) 3)) = [0xB0, 0x00, 0x02, 0x10]"
proof -
  from four_writes [OF assms(1-3), of "0xB0" a b e] obtain u cmd where u: "stored cmd 4 s u" "length cmd = 8"
    "t = upd_ikat (upd_channel 3 (\<lambda>q. q\<lparr>command_length := 0\<rparr>)) (dispatch_channel_d 0xB0 cmd u)"
    by (auto simp: four_byte_command_def t_def)
  with assms(1,4) show ?thesis
    by (simp add: dispatch_channel_d_def play_request_def stored_def drive_view_def defer_channel copy_into_def Let_def)
      (simp add: defer_response_def)
qed

lemma deferred_published:
  assumes "ikat_reachable s" "ikat_initialized (b_ikat s)"
    "media_generation (b_media s) = ikat_media_generation (b_ikat s)" "unread (channel (b_ikat s) 3) = []"
    "deferred_pending (channel (b_ikat s) 3)" "deferred_ns (channel (b_ikat s) 3) \<le> n"
  shows "unread (channel (b_ikat (slave_increment_time n s)) 3) =
      take (deferred_length (channel (b_ikat s) 3)) (ch_deferred (channel (b_ikat s) 3))"
    and "ready_report_pending (b_ikat s) \<Longrightarrow> deferred_pending (channel (b_ikat (slave_increment_time n s)) 3) \<and>
      take (deferred_length (channel (b_ikat (slave_increment_time n s)) 3))
        (ch_deferred (channel (b_ikat (slave_increment_time n s)) 3)) = [0xB0, 0x00, 0x02, 0x0E]"
proof -
  let ?q = "channel (b_ikat s) 3"
  from assms have g: "gate_ok (b_ikat s) 3" by (simp add: reachable_gate)
  then have q: "channel_ok ?q" and rem: "response_length ?q - response_position ?q = 0"
    using assms(4) by (simp_all add: unread_empty response_remaining_def) (simp add: gate_ok_def)
  then have bytes: "length (take (deferred_length ?q) (ch_deferred ?q)) \<le> 8" by (simp add: channel_ok_def)
  from q have "channel_ok (?q\<lparr>deferred_ns := 0\<rparr>)" by (simp add: channel_ok_def)
  from assms(6) have due: "\<not> n < deferred_ns ?q" by simp
  from unread_published [OF \<open>channel_ok (?q\<lparr>deferred_ns := 0\<rparr>)\<close>] assms(1-5) due rem bytes q
  show "unread (channel (b_ikat (slave_increment_time n s)) 3) = take (deferred_length ?q) (ch_deferred ?q)"
    by (simp add: increment_channel serviced_def Let_def channel_ok_def)
  from assms(1-5) due rem show "ready_report_pending (b_ikat s) \<Longrightarrow>
      deferred_pending (channel (b_ikat (slave_increment_time n s)) 3) \<and>
      take (deferred_length (channel (b_ikat (slave_increment_time n s)) 3))
        (ch_deferred (channel (b_ikat (slave_increment_time n s)) 3)) = [0xB0, 0x00, 0x02, 0x0E]"
    by (simp add: increment_channel serviced_def Let_def copy_into_def)
qed

lemma increment_keeps:
  assumes "ikat_initialized (b_ikat s)" "media_generation (b_media s) = ikat_media_generation (b_ikat s)"
  shows "ikat_initialized (b_ikat (slave_increment_time n s)) \<and> b_media (slave_increment_time n s) = b_media s \<and>
    ikat_media_generation (b_ikat (slave_increment_time n s)) = ikat_media_generation (b_ikat s)"
  using assms pointer_reports_frame [of 0 "upd_ikat (\<lambda>d. d\<lparr>pointer_elapsed_ns := pointer_elapsed_ns d + n\<rparr>) s"]
  by (simp add: slave_increment_time_def check_media_same Let_def fold_service_keeps drive_view_def)

definition deferred_view :: "IkatChannel \<Rightarrow> u8 list \<times> nat \<times> bool \<times> u64" where
  "deferred_view q = (ch_deferred q, deferred_length q, deferred_pending q, deferred_ns q)"

lemma read_keeps:
  assumes "ikat_initialized (b_ikat s)"
  shows "b_media (snd (slave_read a s)) = b_media s"
    "ikat_media_generation (b_ikat (snd (slave_read a s))) = ikat_media_generation (b_ikat s)"
    "ikat_initialized (b_ikat (snd (slave_read a s)))"
    "deferred_view (channel (b_ikat (snd (slave_read a s))) ch) = deferred_view (channel (b_ikat s) ch)"
  using assms
  by (simp_all add: slave_read_def ikat_ensure_initialized_def ikat_read_register_def deferred_view_def Let_def)

lemma reads_keep:
  assumes "ikat_initialized (b_ikat s)" "ikat_reachable s" "slave_reads n a s = (vs, t)"
  shows "b_media t = b_media s \<and> ikat_media_generation (b_ikat t) = ikat_media_generation (b_ikat s) \<and>
   ikat_initialized (b_ikat t) \<and> ikat_reachable t \<and>
   deferred_view (channel (b_ikat t) ch) = deferred_view (channel (b_ikat s) ch)"
  using assms
proof (induction n arbitrary: s vs)
  case (Suc n)
  then obtain ws where "slave_reads n a (snd (slave_read a s)) = (ws, t)" by (auto simp: slave_reads.simps(2) split: prod.splits)
  with Suc.IH [OF _ _ this] Suc.prems read_keeps [OF Suc.prems(1), of a] ikat_reachable.bus_read [of s a]
  show ?case by simp
qed simp

text \<open>
C21: The seek handshake: after a data seek (E1) and a play request (B0) written to channel D, the drive is at
the addressed block; once the controller delay has passed the first reply is the busy report ($10), and after
it has been read out and another delay the unsolicited on-target report ($0E) follows.
\<close>
theorem seek_handshake:
  assumes "ikat_reachable s" and "ikat_initialized (b_ikat s)"
    and "media_generation (b_media s) = ikat_media_generation (b_ikat s)"
    and "command_length (channel (b_ikat s) CHANNEL_D) = 0" and "unread (channel (b_ikat s) CHANNEL_D) = []"
    and "1000000 \<le> n1" and "1000000 \<le> n2"
  shows "let s1 = write_commands [0xE1, m, sc, f] s; s2 = write_commands [0xB0, x, y, z] s1;
      s3 = slave_increment_time n1 s2; s4 = snd (slave_reads 4 (output_address CHANNEL_D) s3);
      s5 = slave_increment_time n2 s4
    in drive_lba (b_ciap s1) = absolute_msf_lba [0xE1, m, sc, f] \<and>
      unread (channel (b_ikat s3) CHANNEL_D) = [0xB0, 0x00, 0x02, 0x10] \<and>
      unread (channel (b_ikat s4) CHANNEL_D) = [] \<and>
      unread (channel (b_ikat s5) CHANNEL_D) = [0xB0, 0x00, 0x02, 0x0E]"
proof -
  define s1 where "s1 = write_commands [0xE1, m, sc, f] s"
  define s2 where "s2 = write_commands [0xB0, x, y, z] s1"
  define s3 where "s3 = slave_increment_time n1 s2"
  define s4 where "s4 = snd (slave_reads 4 (output_address 3) s3)"
  from reachable_gate [OF assms(1,2), of 3] have "length (ch_command (channel (b_ikat s) 3)) = 8"
    by (simp add: gate_ok_def channel_ok_def)
  note a = seek_command [OF assms(2,4) this s1_def]
  then have r1: "ikat_reachable s1" "ikat_initialized (b_ikat s1)" using assms reachable_commands s1_def by blast+
  from a r1 have b: "ready_report_pending (b_ikat s2)" "b_media s2 = b_media s1"
      "ikat_media_generation (b_ikat s2) = ikat_media_generation (b_ikat s1)"
      "unread (channel (b_ikat s2) 3) = unread (channel (b_ikat s1) 3)" "deferred_pending (channel (b_ikat s2) 3)"
      "deferred_ns (channel (b_ikat s2) 3) = 1000000"
      "take (deferred_length (channel (b_ikat s2) 3)) (ch_deferred (channel (b_ikat s2) 3)) = [0xB0, 0x00, 0x02, 0x10]"
    using play_after_seek [OF r1(2) _ _ _ s2_def] by auto
  have r2: "ikat_reachable s2" "ikat_initialized (b_ikat s2)" using r1 reachable_commands s2_def by blast+
  have g2: "media_generation (b_media s2) = ikat_media_generation (b_ikat s2)" using a b assms(3) by simp
  have u2: "unread (channel (b_ikat s2) 3) = []" using a b assms(5) by simp
  from deferred_published [OF r2 g2 u2 b(5), of n1] b assms(6)
  have c: "unread (channel (b_ikat s3) 3) = [0xB0, 0x00, 0x02, 0x10]" "deferred_pending (channel (b_ikat s3) 3)"
    "take (deferred_length (channel (b_ikat s3) 3)) (ch_deferred (channel (b_ikat s3) 3)) = [0xB0, 0x00, 0x02, 0x0E]"
    by (simp_all add: s3_def)
  have r3: "ikat_reachable s3" "ikat_initialized (b_ikat s3)" "media_generation (b_media s3) = ikat_media_generation (b_ikat s3)"
    using r2 g2 increment_keeps [OF r2(2) g2, of n1] by (simp_all add: s3_def ikat_reachable.device_time)
  have four: "length [0xB0, 0x00, 0x02, 0x10 :: u8] = 4" by simp
  from read_all [OF _ r3(2) _ c(1), unfolded four] reachable_ok [OF r3(1)] r3(2) obtain vs where reads: "slave_reads 4 (output_address 3) s3 = (vs, s4)"
    and u4: "unread (channel (b_ikat s4) 3) = []" by (auto simp: s4_def)
  from reads_keep [OF r3(2,1) reads, of 3] c r3
  have d: "ikat_reachable s4" "ikat_initialized (b_ikat s4)" "media_generation (b_media s4) = ikat_media_generation (b_ikat s4)"
    "deferred_pending (channel (b_ikat s4) 3)"
    "take (deferred_length (channel (b_ikat s4) 3)) (ch_deferred (channel (b_ikat s4) 3)) = [0xB0, 0x00, 0x02, 0x0E]"
    by (simp_all add: deferred_view_def)
  with reachable_gate [OF d(1,2), of 3] have "deferred_ns (channel (b_ikat s4) 3) \<le> 1000000"
    by (simp add: gate_ok_def channel_ok_def)
  with assms(7) have "deferred_ns (channel (b_ikat s4) 3) \<le> n2" by (rule order_trans [rotated])
  from deferred_published(1) [OF d(1-3) u4 d(4) this] d(5) a c u4 show ?thesis
    unfolding Let_def s1_def [symmetric] s2_def [symmetric] s3_def [symmetric] s4_def [symmetric] by simp
qed

section \<open>A concrete board\<close>

definition cold_ikat :: IkatDevice where
  "cold_ikat = \<lparr>ikat_registers = (\<lambda>_. 0), channel = (\<lambda>_. empty_channel), ikat_media_generation = 0,
     pointer_elapsed_ns = 0, previous_input = 0, pointer_repeat_count = 0, seek_report_pending = False,
     ready_report_pending = False, ikat_initialized = False\<rparr>"

definition cold_drive :: drive_board where
  "cold_drive = cd_board.extend streaming_board (drive_board.fields cold_ikat idle_input False)"

definition idle_drive :: drive_board where
  "idle_drive = initialize_ikat cold_drive"

lemma idle_drive_reachable: "ikat_reachable idle_drive"
proof -
  have off: "\<not> ikat_initialized (b_ikat cold_drive)"
    by (simp add: cold_drive_def cold_ikat_def drive_board.defs cd_board.defs)
  then have "snd (slave_read 0x00310020 cold_drive) = idle_drive"
    by (simp add: slave_read_def register_from_address_def ikat_ensure_initialized_def idle_drive_def)
  then show ?thesis using ikat_reachable.bus_read [OF ikat_reachable.power_on [OF off], of "0x00310020"] by simp
qed

lemma idle_drive_state:
  "ikat_initialized (b_ikat idle_drive)" "channel (b_ikat idle_drive) = (\<lambda>_. empty_channel)"
  "media_generation (b_media idle_drive) = ikat_media_generation (b_ikat idle_drive)"
  by (simp_all add: idle_drive_def initialize_ikat_def)

theorem gate_registers_reflect_unread_witness:
  "ikat_registers (b_ikat idle_drive) 11 = 0x11"
  using gate_registers_reflect_unread [OF idle_drive_reachable idle_drive_state(1), of 3]
  by (simp add: idle_drive_state unread_def empty_channel_def)

theorem reply_read_out_witness:
  "fst (slave_reads 3 (output_address 2) (publish_and_interrupt 2 [0xA5, 0xF0, 0x7F] idle_drive)) = [0xA5, 0xF0, 0x7F]"
proof -
  have len: "length [0xA5, 0xF0, 0x7F :: u8] = 3" by simp
  obtain s' where "slave_reads 3 (output_address 2) (publish_and_interrupt 2 [0xA5, 0xF0, 0x7F] idle_drive) =
      (map ucast [0xA5, 0xF0, 0x7F :: u8], s')"
    using reply_read_out [OF idle_drive_reachable idle_drive_state(1), of 2 "[0xA5, 0xF0, 0x7F]", unfolded len]
    by auto
  then show ?thesis by simp
qed

theorem seek_handshake_witness:
  "let s1 = write_commands [0xE1, 0x00, 0x02, 0x16] idle_drive; s2 = write_commands [0xB0, 0, 0, 0] s1;
     s3 = slave_increment_time 1000000 s2
   in drive_lba (b_ciap s1) = 16 \<and> unread (channel (b_ikat s3) CHANNEL_D) = [0xB0, 0x00, 0x02, 0x10]"
  using seek_handshake [OF idle_drive_reachable idle_drive_state(1,3), of "1000000" "1000000" "0x00" "0x02" "0x16" 0 0 0]
  by (simp add: idle_drive_state unread_def empty_channel_def absolute_msf_lba_def bcd_value_def Let_def)

lemma status_query:
  "channel (b_ikat (slave_write command_address 0xB1 idle_drive)) 3 =
     published [0xB1, 0x00, 0x02, 0x00] (empty_channel\<lparr>ch_command := (replicate 8 0)[0 := 0xB1], command_length := 0\<rparr>) \<and>
   drive_view (slave_write command_address 0xB1 idle_drive) = drive_view idle_drive"
  using write_command [OF idle_drive_state(1), of "0xB1"]
  by (simp add: idle_drive_state handle_channel_d_def four_byte_command_def push_command_def
      dispatch_channel_d_def published_def empty_channel_def drive_view_def Let_def)

theorem unread_reply_kept_witness:
  "unread (channel (b_ikat (slave_increment_time 2000000 (slave_write command_address 0xB1 idle_drive))) 3) =
     [0xB1, 0x00, 0x02, 0x00]"
proof -
  let ?s = "slave_write command_address 0xB1 idle_drive"
  have "unread (channel (b_ikat ?s) 3) = [0xB1, 0x00, 0x02, 0x00]"
    using status_query by (simp add: unread_published channel_ok_def empty_channel_def)
  moreover have "ikat_initialized (b_ikat ?s)" "media_generation (b_media ?s) = ikat_media_generation (b_ikat ?s)"
    using status_query idle_drive_state by (auto simp: drive_view_def)
  ultimately show ?thesis
    using unread_reply_kept [OF ikat_reachable.bus_write [OF idle_drive_reachable], of command_address "0xB1" 3 2000000]
    by simp
qed

end
