(* ===== verification/Ikat_Time.thy ===== *)
theory Ikat_Time
  imports Ikat_Laws
begin

unbundle bit_operations_syntax

text \<open>
  Time and motion at the IKAT gate: the quiet contract of the board's idle job, the pointer reports and
  the drive addressing.
\<close>

section \<open>Quiet prefixes\<close>

definition ikat_idle_inv :: "'a drive_board_scheme \<Rightarrow> bool" where
  "ikat_idle_inv s \<longleftrightarrow> ikat_initialized (b_ikat s) \<and> ikat_ok (b_ikat s) \<and>
     media_generation (b_media s) = ikat_media_generation (b_ikat s)"

definition channel_limit :: "IkatDevice \<Rightarrow> nat \<Rightarrow> nat \<Rightarrow> nat" where
  "channel_limit d ch l = (if deferred_pending (channel d ch) then min (unat (deferred_ns (channel d ch))) l else l)"

definition nat_limit :: "IkatDevice \<Rightarrow> nat" where
  "nat_limit d = fold (channel_limit d) [0..<4] (25000000 - unat (pointer_elapsed_ns d))"

lemma fold_limit_unat:
  "unat (fold (\<lambda>ch limit. if deferred_pending (channel d ch) \<and> deferred_ns (channel d ch) < limit
      then deferred_ns (channel d ch) else limit) chs x) = fold (channel_limit d) chs (unat x)"
proof (induction chs arbitrary: x)
  case (Cons c chs)
  have "unat (if deferred_pending (channel d c) \<and> deferred_ns (channel d c) < x then deferred_ns (channel d c) else x) =
      channel_limit d c (unat x)"
    by (auto simp: channel_limit_def word_less_nat_alt)
  then show ?case by (simp only: fold_simps Cons.IH)
qed simp

lemma slave_limit_unat: "ikat_ok d \<Longrightarrow> unat (slave_limit d) = nat_limit d"
proof -
  assume "ikat_ok d"
  then have "pointer_elapsed_ns d \<le> 25000000" by (simp add: ikat_ok_def order_less_imp_le)
  then have "unat (25000000 - pointer_elapsed_ns d) = 25000000 - unat (pointer_elapsed_ns d)"
    by (simp add: unat_sub)
  then show ?thesis by (simp only: slave_limit_def nat_limit_def fold_limit_unat)
qed

lemma less_fold_limit:
  "n < fold (channel_limit d) chs x \<longleftrightarrow>
     n < x \<and> (\<forall>ch\<in>set chs. deferred_pending (channel d ch) \<longrightarrow> n < unat (deferred_ns (channel d ch)))"
  by (induction chs arbitrary: x) (auto simp: channel_limit_def)

text \<open>What a quiet time step does to the device.\<close>

definition age_channel :: "u64 \<Rightarrow> nat \<Rightarrow> IkatDevice \<Rightarrow> IkatDevice" where
  "age_channel n ch d = (if deferred_pending (channel d ch)
     then upd_channel ch (\<lambda>q. q\<lparr>deferred_ns := deferred_ns q - n\<rparr>) d else d)"

lemma advance_quiet_age:
  "slave_advance_quiet n s =
     upd_ikat (\<lambda>d. fold (age_channel n) [0..<4] (d\<lparr>pointer_elapsed_ns := pointer_elapsed_ns d + n\<rparr>)) s"
  by (simp add: slave_advance_quiet_def age_channel_def [abs_def])

lemma age_fields [simp]:
  "pointer_elapsed_ns (age_channel n ch d) = pointer_elapsed_ns d"
  "ikat_registers (age_channel n ch d) = ikat_registers d"
  "ikat_initialized (age_channel n ch d) = ikat_initialized d"
  "ikat_media_generation (age_channel n ch d) = ikat_media_generation d"
  "deferred_pending (channel (age_channel n ch d) c) = deferred_pending (channel d c)"
  "c \<noteq> ch \<Longrightarrow> channel (age_channel n ch d) c = channel d c"
  by (simp_all add: age_channel_def)

lemma fold_age_fields [simp]:
  "pointer_elapsed_ns (fold (age_channel n) chs d) = pointer_elapsed_ns d"
  "ikat_initialized (fold (age_channel n) chs d) = ikat_initialized d"
  "ikat_media_generation (fold (age_channel n) chs d) = ikat_media_generation d"
  "deferred_pending (channel (fold (age_channel n) chs d) c) = deferred_pending (channel d c)"
  "c \<notin> set chs \<Longrightarrow> channel (fold (age_channel n) chs d) c = channel d c"
  by (induction chs arbitrary: d) simp_all

lemma fold_age_ns:
  "distinct chs \<Longrightarrow> c \<in> set chs \<Longrightarrow> deferred_pending (channel d c) \<Longrightarrow>
   deferred_ns (channel (fold (age_channel n) chs d) c) = deferred_ns (channel d c) - n"
  by (induction chs arbitrary: d) (auto simp: age_channel_def)

lemma service_age:
  "(deferred_pending (channel (b_ikat s) ch) \<longrightarrow> n < deferred_ns (channel (b_ikat s) ch)) \<Longrightarrow>
   service_deferred n ch s = upd_ikat (age_channel n ch) s"
  by (simp add: service_deferred_def age_channel_def upd_ikat_def)

lemma fold_service_age:
  assumes "distinct chs"
    and "\<forall>ch\<in>set chs. deferred_pending (channel (b_ikat s) ch) \<longrightarrow> n < deferred_ns (channel (b_ikat s) ch)"
  shows "fold (service_deferred n) chs s = upd_ikat (fold (age_channel n) chs) s"
  using assms
proof (induction chs arbitrary: s)
  case (Cons c chs)
  then have "service_deferred n c s = upd_ikat (age_channel n c) s" by (simp add: service_age)
  moreover have "\<forall>ch\<in>set chs. channel (b_ikat (upd_ikat (age_channel n c) s)) ch = channel (b_ikat s) ch"
    using Cons.prems by (auto simp: age_channel_def)
  ultimately show ?case using Cons.IH [of "upd_ikat (age_channel n c) s"] Cons.prems
    by (simp add: upd_ikat_def)
qed (simp add: upd_ikat_def)

lemma increment_quiet:
  assumes "ikat_idle_inv s" and "unat n < nat_limit (b_ikat s)"
  shows "slave_increment_time n s = slave_advance_quiet n s"
proof -
  let ?s = "upd_ikat (\<lambda>d. d\<lparr>pointer_elapsed_ns := pointer_elapsed_ns d + n\<rparr>) s"
  from assms(2) have lim: "unat n < 25000000 - unat (pointer_elapsed_ns (b_ikat s))"
    "\<forall>ch<4. deferred_pending (channel (b_ikat s) ch) \<longrightarrow> n < deferred_ns (channel (b_ikat s) ch)"
    by (simp_all add: nat_limit_def less_fold_limit word_less_nat_alt)
  then have "unat (pointer_elapsed_ns (b_ikat s) + n) < 25000000"
    by (subst unat_add_no_wrap) simp_all
  then have "\<not> 25000000 \<le> pointer_elapsed_ns (b_ikat ?s)" by (simp add: word_le_nat_alt)
  then have p: "pointer_reports ?s = ?s" by (simp add: pointer_reports.simps [of ?s])
  have "fold (service_deferred n) [0..<4] ?s = upd_ikat (fold (age_channel n) [0..<4]) ?s"
    using lim by (intro fold_service_age) auto
  with p assms(1) show ?thesis
    by (simp add: slave_increment_time_def check_media_same ikat_idle_inv_def advance_quiet_age Let_def)
      (simp add: upd_ikat_def)
qed

lemma fold_limit_cong:
  "(\<And>c. c \<in> set chs \<Longrightarrow> channel_limit d c = channel_limit e c) \<Longrightarrow>
   fold (channel_limit d) chs x = fold (channel_limit e) chs x"
  by (induction chs arbitrary: x) simp_all

lemma fold_limit_sub:
  assumes "\<And>c. c \<in> set chs \<Longrightarrow> deferred_pending (channel e c) = deferred_pending (channel d c) \<and>
      (deferred_pending (channel d c) \<longrightarrow> unat (deferred_ns (channel e c)) = unat (deferred_ns (channel d c)) - k)"
  shows "fold (channel_limit e) chs (x - k) = fold (channel_limit d) chs x - k"
  using assms
proof (induction chs arbitrary: x)
  case (Cons c chs)
  have "channel_limit e c (x - k) = channel_limit d c x - k"
    using Cons.prems [of c] by (auto simp: channel_limit_def)
  with Cons show ?case by simp
qed simp

lemma limit_after_quiet:
  assumes "ikat_ok (b_ikat s)" and "unat n < nat_limit (b_ikat s)"
  shows "nat_limit (b_ikat (slave_advance_quiet n s)) = nat_limit (b_ikat s) - unat n"
proof -
  let ?d = "b_ikat s" and ?e = "b_ikat (slave_advance_quiet n s)"
  from assms(2) have lim: "unat n < 25000000 - unat (pointer_elapsed_ns ?d)"
    "\<And>ch. ch < 4 \<Longrightarrow> deferred_pending (channel ?d ch) \<Longrightarrow> n < deferred_ns (channel ?d ch)"
    by (simp_all add: nat_limit_def less_fold_limit word_less_nat_alt)
  have ptr: "25000000 - unat (pointer_elapsed_ns ?e) = 25000000 - unat (pointer_elapsed_ns ?d) - unat n"
    using lim(1) by (simp add: advance_quiet_age unat_add_no_wrap)
  have "unat (deferred_ns (channel ?e c)) = unat (deferred_ns (channel ?d c)) - unat n"
    if "c < 4" "deferred_pending (channel ?d c)" for c
    using lim(2) [OF that] that by (simp add: advance_quiet_age fold_age_ns unat_sub order_less_imp_le)
  then have "fold (channel_limit ?e) [0..<4] (25000000 - unat (pointer_elapsed_ns ?d) - unat n) =
      fold (channel_limit ?d) [0..<4] (25000000 - unat (pointer_elapsed_ns ?d)) - unat n"
    by (intro fold_limit_sub) (simp add: advance_quiet_age)
  with ptr show ?thesis by (simp add: nat_limit_def)
qed

definition aged :: "u64 \<Rightarrow> IkatChannel \<Rightarrow> IkatChannel" where
  "aged n q = (if deferred_pending q then q\<lparr>deferred_ns := deferred_ns q - n\<rparr> else q)"

lemma fold_age_eq:
  "distinct chs \<Longrightarrow> fold (age_channel n) chs d =
     d\<lparr>channel := (\<lambda>c. if c \<in> set chs then aged n (channel d c) else channel d c)\<rparr>"
proof (induction chs arbitrary: d)
  case (Cons c chs)
  then have "fold (age_channel n) (c # chs) d = (age_channel n c d)\<lparr>channel := (\<lambda>x. if x \<in> set chs
      then aged n (channel (age_channel n c d) x) else channel (age_channel n c d) x)\<rparr>" by simp
  also have "\<dots> = d\<lparr>channel := (\<lambda>x. if x \<in> set (c # chs) then aged n (channel d x) else channel d x)\<rparr>"
    using Cons.prems
    by (intro IkatDevice.equality) (auto simp: fun_eq_iff age_channel_def upd_channel_def aged_def)
  finally show ?case .
qed simp

lemma slave_advance_add: "slave_advance_quiet b (slave_advance_quiet a s) = slave_advance_quiet (a + b) s"
  by (simp add: advance_quiet_age fold_age_eq upd_ikat_def aged_def add.assoc if_distrib cong: if_cong)
    (simp add: fun_eq_iff aged_def diff_diff_eq)

lemma quanta_unat:
  assumes "ikat_idle_inv s"
  shows "unat (slave_quiet_quanta m q s) = min ((nat_limit (b_ikat s) - 1) div unat q) (unat m)"
proof -
  let ?l = "slave_limit (b_ikat s)"
  let ?n = "(?l - 1) div q"
  have l: "unat ?l = nat_limit (b_ikat s)" using assms by (simp add: slave_limit_unat ikat_idle_inv_def)
  have um: "unat (ucast m :: u64) = unat m" using u32_less [of m] by (simp add: unsigned_ucast_eq take_bit_nat_eq_self)
  have down: "unat (ucast ?n :: u32) = unat ?n" if "?n < ucast m"
    using that u32_less [of m] by (simp add: word_less_nat_alt um unsigned_ucast_eq take_bit_nat_eq_self)
  show ?thesis
  proof (cases "?l = 0")
    case True
    with assms l show ?thesis by (auto simp: slave_quiet_quanta_def ikat_idle_inv_def Let_def)
  next
    case False
    then have "unat ?n = (nat_limit (b_ikat s) - 1) div unat q" by (simp add: unat_div unat_minus_one l)
    moreover have "slave_quiet_quanta m q s = (if ?n < ucast m then ucast ?n else m)"
      using assms False by (simp add: slave_quiet_quanta_def ikat_idle_inv_def Let_def)
    ultimately show ?thesis using down by (simp add: word_less_nat_alt um min_def)
  qed
qed

lemma idle_inv_step:
  assumes "ikat_idle_inv s"
  shows "ikat_idle_inv (slave_increment_time n s)"
  using assms increment_keeps [of s n] ok_increment [of s n] by (simp add: ikat_idle_inv_def)

lemma limit_bound: "nat_limit d \<le> 25000000"
  using less_fold_limit [of 25000000 d "[0..<4]" "25000000 - unat (pointer_elapsed_ns d)"]
  by (auto simp: nat_limit_def not_less)

interpretation ikat_quiet: quiet_device
  "ikat_idle_inv :: 'a drive_board_scheme \<Rightarrow> bool" "slave_increment_time 1655"
  "\<lambda>s. unat (slave_quiet_quanta m 1655 s)" "\<lambda>n. slave_advance_quiet (of_nat n * 1655)"
  for m
proof (unfold_locales, goal_cases)
  case (1 s)
  then show ?case by (simp add: idle_inv_step)
next
  case (2 s)
  let ?l = "nat_limit (b_ikat s)"
  from 2 have lt: "1655 < ?l" by (auto simp: quanta_unat min_def split: if_splits)
  then have "nat_limit (b_ikat (slave_increment_time 1655 s)) = ?l - 1655"
    using 2(1) by (simp add: increment_quiet limit_after_quiet ikat_idle_inv_def)
  moreover have "(?l - 1) div 1655 = Suc ((?l - 1655 - 1) div 1655)"
    using lt by (subst le_div_geq) simp_all
  ultimately show ?case using 2(1) by (simp add: quanta_unat idle_inv_step min_def)
next
  case (3 s)
  have "fold (age_channel 0) chs d = d" for chs d
    by (induction chs arbitrary: d) (simp_all add: age_channel_def upd_channel_def)
  then show ?case by (simp add: advance_quiet_age upd_ikat_def)
next
  case (4 s n)
  let ?l = "nat_limit (b_ikat s)"
  from 4 have "Suc n \<le> (?l - 1) div 1655" by (simp add: quanta_unat)
  then have "Suc n * 1655 \<le> ?l - 1" by (simp add: less_eq_div_iff_mult_less_eq)
  then have "unat (1655 :: u64) < ?l" by simp
  with 4(1) show ?case by (simp add: increment_quiet slave_advance_add algebra_simps)
qed

text \<open>
C22: For every number of 1655 ns quanta that \<open>slave_quiet_quanta\<close> admits, the batched update of the pointer
phase and the pending reply delays equals that many full device-time calls.
\<close>
theorem slave_quiet_batch:
  assumes "ikat_reachable s" and "ikat_initialized (b_ikat s)"
    and "media_generation (b_media s) = ikat_media_generation (b_ikat s)"
    and "n \<le> unat (slave_quiet_quanta maximum 1655 s)"
  shows "slave_advance_quiet (of_nat n * 1655) s = (slave_increment_time 1655 ^^ n) s"
  using assms reachable_ok [OF assms(1)] by (intro ikat_quiet.batch_eq_steps) (simp_all add: ikat_idle_inv_def)

theorem slave_quiet_batch_witness:
  "slave_advance_quiet (of_nat 2 * 1655) idle_drive = (slave_increment_time 1655 ^^ 2) idle_drive"
proof -
  have inv: "ikat_idle_inv idle_drive"
    using reachable_ok [OF idle_drive_reachable] idle_drive_state by (simp add: ikat_idle_inv_def)
  have "nat_limit (b_ikat idle_drive) = 25000000"
    using less_fold_limit [of 24999999 "b_ikat idle_drive" "[0..<4]" 25000000] limit_bound [of "b_ikat idle_drive"]
    by (simp add: nat_limit_def idle_drive_state empty_channel_def)
      (simp add: idle_drive_def initialize_ikat_def)
  then have "2 \<le> unat (slave_quiet_quanta 100 1655 idle_drive)" by (simp add: quanta_unat [OF inv])
  then show ?thesis using slave_quiet_batch [OF idle_drive_reachable idle_drive_state(1,3)] by blast
qed

section \<open>Drive addressing\<close>

lemma bcd_all: "list_all (\<lambda>n. bcd_value (to_bcd (of_nat n)) = of_nat n) [0..<100]"
  by code_simp

lemma bcd_to_bcd:
  assumes "v < 100"
  shows "bcd_value (to_bcd v) = v"
proof -
  from assms have "unat v < 100" by (simp add: word_less_nat_alt)
  moreover have "\<And>n. n < 100 \<Longrightarrow> bcd_value (to_bcd (of_nat n)) = of_nat n"
    using bcd_all by (simp add: list_all_iff)
  ultimately have "bcd_value (to_bcd (of_nat (unat v))) = of_nat (unat v)" by blast
  then show ?thesis by simp
qed

text \<open>
C23: The block address the drive reports in a Q locator as minute, second and frame is the address a seek to
that minute, second and frame positions the drive at, for every block of a 100-minute disc.
\<close>
theorem locator_seek_roundtrip:
  assumes "lba < 449850"
  shows "absolute_msf_lba (c # take 3 (drop 3 (q_locator lba))) = lba"
proof -
  define r where "r = lba + 150"
  have ur: "unat r = unat lba + 150" "unat r < 450000"
    using assms by (simp_all add: r_def word_less_nat_alt unat_word_ariths)
  have parts: "r div 4500 < 100" "r div 75 mod 60 < 100" "r mod 75 < 100"
    using ur(2) by (simp_all add: word_less_nat_alt unat_div unat_mod less_mult_imp_div_less)
  have "r div 75 div 60 = r div 4500"
    by (simp add: word_unat_eq_iff unat_div flip: div_mult2_eq)
  then have "(r div 4500 * 60 + r div 75 mod 60) * 75 + r mod 75 = r"
    using div_mult_mod_eq [of "r div 75" 60] div_mult_mod_eq [of r 75] by simp
  moreover have "150 \<le> r" "r - 150 = lba" using ur by (simp_all add: word_le_nat_alt r_def)
  ultimately show ?thesis
    using parts by (simp add: absolute_msf_lba_def q_locator_def bcd_to_bcd Let_def flip: r_def)
qed

theorem locator_seek_roundtrip_witness: "absolute_msf_lba (0xE1 # take 3 (drop 3 (q_locator 0))) = 0"
  using locator_seek_roundtrip [of 0 "0xE1"] by simp

section \<open>Pointer reports\<close>

text \<open>How the guest's driver reads a report: header bits for the buttons and the top two bits of each axis.\<close>

definition decode_pointer :: "u8 list \<Rightarrow> bool \<times> bool \<times> int \<times> int" where
  "decode_pointer p = (bit (p ! 0) 5, bit (p ! 0) 4,
     sint (push_bit 6 (p ! 0) OR p ! 1), sint (push_bit 4 (p ! 0 AND 0x0C) OR p ! 2))"

lemma sint_byte: "- 128 \<le> x \<Longrightarrow> x \<le> 127 \<Longrightarrow> sint (word_of_int x :: u8) = x"
  by (simp add: sint_sbintrunc' signed_take_bit_int_eq_self)

lemma and_bit_u32: "(w :: u32) AND 0x10 \<noteq> 0 \<longleftrightarrow> bit w 4" "w AND 0x20 \<noteq> 0 \<longleftrightarrow> bit w 5"
  using and_exp_eq_0_iff [of w 4] and_exp_eq_0_iff [of w 5] by simp_all

lemma decode_packet:
  assumes "- 128 \<le> x" "x \<le> 127" "- 128 \<le> y" "y \<le> 127"
  shows "decode_pointer (pointer_packet input x y) = (bit input 4, bit input 5, x, y)"
proof -
  have ex: "push_bit 6 (pointer_packet input x y ! 0) OR pointer_packet input x y ! 1 = word_of_int x"
    by (simp add: pointer_packet_def Let_def bitwise8)
  have ey: "push_bit 4 (pointer_packet input x y ! 0 AND 0x0C) OR pointer_packet input x y ! 2 = word_of_int y"
    by (simp add: pointer_packet_def Let_def bitwise8)
  have "bit (pointer_packet input x y ! 0) 5 = bit input 4" "bit (pointer_packet input x y ! 0) 4 = bit input 5"
    by (simp_all add: pointer_packet_def Let_def bit_simps and_bit_u32)
  then show ?thesis unfolding decode_pointer_def ex ey using assms by (simp add: sint_byte)
qed

definition report_speed :: "'a drive_board_scheme \<Rightarrow> int" where
  "report_speed s = pointer_speed (if cdi_input_get (b_input s) AND 0x0F \<noteq> 0 then pointer_repeat_count (b_ikat s) + 1 else 0)"

definition key_motion :: "'a drive_board_scheme \<Rightarrow> int \<times> int" where
  "key_motion s = (key_axis (cdi_input_get (b_input s)) CDI_INPUT_LEFT CDI_INPUT_RIGHT (report_speed s),
     key_axis (cdi_input_get (b_input s)) CDI_INPUT_UP CDI_INPUT_DOWN (report_speed s))"

definition must_report :: "'a drive_board_scheme \<Rightarrow> int \<Rightarrow> int \<Rightarrow> bool" where
  "must_report s x y \<longleftrightarrow> cdi_input_get (b_input s) AND 0x0F \<noteq> 0 \<or> x \<noteq> 0 \<or> y \<noteq> 0 \<or>
     (cdi_input_get (b_input s) XOR previous_input (b_ikat s)) AND (CDI_INPUT_BTN1 OR CDI_INPUT_BTN2) \<noteq> 0"

lemma ack_relative [simp]:
  "relative_x (cdi_input_acknowledge_mouse_buttons i) = relative_x i"
  "relative_y (cdi_input_acknowledge_mouse_buttons i) = relative_y i"
  by (simp_all add: cdi_input_acknowledge_mouse_buttons_def)

lemma emit_cases:
  fixes s :: "'a drive_board_scheme"
  defines "x \<equiv> fst (key_motion s) + fst (take_axis (relative_x (b_input s)) (- 128 - fst (key_motion s)) (127 - fst (key_motion s)))"
    and "y \<equiv> snd (key_motion s) + fst (take_axis (relative_y (b_input s)) (- 128 - snd (key_motion s)) (127 - snd (key_motion s)))"
  shows "relative_x (b_input (emit_pointer_packet s)) = relative_x (b_input s) - (x - fst (key_motion s)) \<and>
    relative_y (b_input (emit_pointer_packet s)) = relative_y (b_input s) - (y - snd (key_motion s)) \<and>
    channel (b_ikat (emit_pointer_packet s)) 0 =
      (if must_report s x y then published (pointer_packet (cdi_input_get (b_input s)) x y) (channel (b_ikat s) 0)
       else channel (b_ikat s) 0)"
  unfolding x_def y_def
  by (simp add: emit_pointer_packet_def cdi_input_take_relative_def key_motion_def report_speed_def must_report_def
      Let_def split: prod.split) (auto dest: take_axis_conserves)

text \<open>
C24: A pointer report loses no motion: the displacement the guest decodes from the report is exactly the key
displacement plus the amount taken out of the relative-motion accumulators, always fits the signed byte of the
report, and the button bits are the reported button state; when nothing is reported the accumulators keep
their contents.
\<close>
theorem pointer_report_exact:
  fixes s :: "'a drive_board_scheme"
  assumes "ikat_reachable s" and "ikat_initialized (b_ikat s)"
  shows "\<exists>x y. x = fst (key_motion s) + relative_x (b_input s) - relative_x (b_input (emit_pointer_packet s)) \<and>
    y = snd (key_motion s) + relative_y (b_input s) - relative_y (b_input (emit_pointer_packet s)) \<and>
    - 128 \<le> x \<and> x \<le> 127 \<and> - 128 \<le> y \<and> y \<le> 127 \<and>
    (if must_report s x y
     then decode_pointer (unread (channel (b_ikat (emit_pointer_packet s)) CHANNEL_A)) =
       (bit (cdi_input_get (b_input s)) 4, bit (cdi_input_get (b_input s)) 5, x, y)
     else unread (channel (b_ikat (emit_pointer_packet s)) CHANNEL_A) = unread (channel (b_ikat s) CHANNEL_A) \<and>
       relative_x (b_input (emit_pointer_packet s)) = relative_x (b_input s) \<and>
       relative_y (b_input (emit_pointer_packet s)) = relative_y (b_input s))"
proof -
  let ?k = "key_motion s" and ?i = "b_input s"
  define x where "x = fst ?k + fst (take_axis (relative_x ?i) (- 128 - fst ?k) (127 - fst ?k))"
  define y where "y = snd ?k + fst (take_axis (relative_y ?i) (- 128 - snd ?k) (127 - snd ?k))"
  note e = emit_cases [of s, folded x_def y_def]
  have r: "- 128 \<le> x" "x \<le> 127" "- 128 \<le> y" "y \<le> 127"
    using take_axis_range [of "- 128 - fst ?k" "127 - fst ?k" "relative_x ?i"]
      take_axis_range [of "- 128 - snd ?k" "127 - snd ?k" "relative_y ?i"] by (simp_all add: x_def y_def)
  have "channel_ok (channel (b_ikat s) 0)" using reachable_gate [OF assms, of 0] by (simp add: gate_ok_def)
  then have "unread (published (pointer_packet (cdi_input_get ?i) x y) (channel (b_ikat s) 0)) =
      pointer_packet (cdi_input_get ?i) x y"
    by (simp add: unread_published pointer_packet_def Let_def)
  moreover have "\<not> must_report s x y \<Longrightarrow> fst ?k = 0 \<and> snd ?k = 0 \<and> x = 0 \<and> y = 0"
    by (auto simp: must_report_def key_motion_def report_speed_def pointer_speed_def key_axis_def)
  ultimately show ?thesis using e r
    by (intro exI [of _ x] exI [of _ y]) (auto simp: decode_packet)
qed

theorem pointer_report_exact_witness:
  "173 \<le> relative_x (b_input (emit_pointer_packet (idle_drive\<lparr>b_input := idle_input\<lparr>relative_x := 300\<rparr>\<rparr>)))"
proof -
  let ?s = "idle_drive\<lparr>b_input := idle_input\<lparr>relative_x := 300\<rparr>\<rparr>"
  have "ikat_reachable ?s" using idle_drive_reachable by (rule ikat_reachable.board_change) simp
  moreover have "fst (key_motion ?s) = 0"
    by (simp add: key_motion_def key_axis_def cdi_input_get_def idle_input_def)
  ultimately show ?thesis using pointer_report_exact [of ?s] idle_drive_state(1) by auto
qed

end
