(* ===== verification/M68k_Alu.thy ===== *)
theory M68k_Alu
  imports Cdi_Prelude "HOL-Library.Signed_Division"
begin

unbundle bit_operations_syntax

text \<open>
  The register-level half of the interpreter (\<^verbatim>\<open>runner/src/m68k_interp.c\<close>, \<^verbatim>\<open>runner/src/m68k_arith.c\<close>):
  the CPU state of \<^verbatim>\<open>cdi_runtime.h\<close>, operand sizes, condition codes, the shift engine, extended and packed
  decimal arithmetic and division. Operands are 32-bit words masked to their size at the point of use, as in
  the C code; \<^verbatim>\<open>int\<close> temporaries of the decimal routines are integers.
\<close>

section \<open>CPU state\<close>

record M68KState =
  reg_D :: "nat \<Rightarrow> u32"
  reg_A :: "nat \<Rightarrow> u32"
  SR :: u16
  PC :: u32
  USP :: u32
  SSP :: u32

abbreviation (input) "SR_C \<equiv> 0x0001 :: u16"
abbreviation (input) "SR_V \<equiv> 0x0002 :: u16"
abbreviation (input) "SR_Z \<equiv> 0x0004 :: u16"
abbreviation (input) "SR_N \<equiv> 0x0008 :: u16"
abbreviation (input) "SR_X \<equiv> 0x0010 :: u16"
abbreviation (input) "SR_S \<equiv> 0x2000 :: u16"

definition set_D :: "nat \<Rightarrow> u32 \<Rightarrow> M68KState \<Rightarrow> M68KState" where
  "set_D r v c = c\<lparr>reg_D := (reg_D c)(r := v)\<rparr>"

definition set_A :: "nat \<Rightarrow> u32 \<Rightarrow> M68KState \<Rightarrow> M68KState" where
  "set_A r v c = c\<lparr>reg_A := (reg_A c)(r := v)\<rparr>"

lemma set_regs [simp]:
  "reg_D (set_D r v c) = (reg_D c)(r := v)" "reg_A (set_D r v c) = reg_A c" "SR (set_D r v c) = SR c"
  "PC (set_D r v c) = PC c" "USP (set_D r v c) = USP c" "SSP (set_D r v c) = SSP c"
  "reg_A (set_A r v c) = (reg_A c)(r := v)" "reg_D (set_A r v c) = reg_D c" "SR (set_A r v c) = SR c"
  "PC (set_A r v c) = PC c" "USP (set_A r v c) = USP c" "SSP (set_A r v c) = SSP c"
  by (simp_all add: set_D_def set_A_def)

definition m68k_set_sr :: "u16 \<Rightarrow> M68KState \<Rightarrow> M68KState" where
  "m68k_set_sr new_sr c =
     (let old = SR c; c1 = c\<lparr>SR := new_sr\<rparr>
      in if (old XOR new_sr) AND SR_S \<noteq> 0
         then if old AND SR_S \<noteq> 0
              then set_A 7 (USP c1) (c1\<lparr>SSP := reg_A c1 7\<rparr>)
              else set_A 7 (SSP c1) (c1\<lparr>USP := reg_A c1 7\<rparr>)
         else c1)"

section \<open>Operand sizes\<close>

datatype M68KSize = M68K_SIZE_B | M68K_SIZE_W | M68K_SIZE_L

fun szmask :: "M68KSize \<Rightarrow> u32" where
  "szmask M68K_SIZE_B = 0xFF"
| "szmask M68K_SIZE_L = 0xFFFFFFFF"
| "szmask M68K_SIZE_W = 0xFFFF"

fun szbits :: "M68KSize \<Rightarrow> nat" where
  "szbits M68K_SIZE_B = 8"
| "szbits M68K_SIZE_L = 32"
| "szbits M68K_SIZE_W = 16"

fun szbytes :: "M68KSize \<Rightarrow> u32" where
  "szbytes M68K_SIZE_B = 1"
| "szbytes M68K_SIZE_L = 4"
| "szbytes M68K_SIZE_W = 2"

fun keepmask :: "M68KSize \<Rightarrow> u32" where
  "keepmask M68K_SIZE_B = 0xFFFFFF00"
| "keepmask M68K_SIZE_W = 0xFFFF0000"
| "keepmask M68K_SIZE_L = 0"

definition store_dn :: "nat \<Rightarrow> u32 \<Rightarrow> M68KSize \<Rightarrow> M68KState \<Rightarrow> M68KState" where
  "store_dn r v sz c =
     (if sz = M68K_SIZE_L then set_D r v c
      else set_D r ((reg_D c r AND keepmask sz) OR (v AND szmask sz)) c)"

fun sext :: "u32 \<Rightarrow> M68KSize \<Rightarrow> u32" where
  "sext v M68K_SIZE_B = scast (ucast v :: u8)"
| "sext v M68K_SIZE_W = scast (ucast v :: u16)"
| "sext v M68K_SIZE_L = v"

section \<open>Condition codes\<close>

definition flag :: "bool \<Rightarrow> u16 \<Rightarrow> u16" where
  "flag b v = (if b then v else 0)"

definition flags_logic :: "u32 \<Rightarrow> M68KSize \<Rightarrow> M68KState \<Rightarrow> M68KState" where
  "flags_logic v sz c =
     (let fv = v AND szmask sz
      in c\<lparr>SR := (SR c AND NOT 0x0F) OR flag (fv = 0) SR_Z OR flag (drop_bit (szbits sz - 1) fv \<noteq> 0) SR_N\<rparr>)"

definition flags_add :: "u32 \<Rightarrow> u32 \<Rightarrow> u32 \<Rightarrow> M68KSize \<Rightarrow> M68KState \<Rightarrow> M68KState" where
  "flags_add a b r sz c =
     (let m = szmask sz; sb = push_bit (szbits sz - 1) 1; fa = a AND m; fb = b AND m; fr = r AND m
      in c\<lparr>SR := (SR c AND NOT 0x1F) OR flag (fr = 0) SR_Z OR flag (drop_bit (szbits sz - 1) fr \<noteq> 0) SR_N
         OR flag ((ucast fa :: u64) + ucast fb > ucast m) (SR_C OR SR_X)
         OR flag ((fa XOR fb) AND sb = 0 \<and> (fa XOR fr) AND sb \<noteq> 0) SR_V\<rparr>)"

definition flags_sub :: "u32 \<Rightarrow> u32 \<Rightarrow> u32 \<Rightarrow> M68KSize \<Rightarrow> M68KState \<Rightarrow> M68KState" where
  "flags_sub a b r sz c =
     (let m = szmask sz; sb = push_bit (szbits sz - 1) 1; fa = a AND m; fb = b AND m; fr = r AND m
      in c\<lparr>SR := (SR c AND NOT 0x1F) OR flag (fr = 0) SR_Z OR flag (drop_bit (szbits sz - 1) fr \<noteq> 0) SR_N
         OR flag (fb > fa) (SR_C OR SR_X)
         OR flag ((fa XOR fb) AND sb \<noteq> 0 \<and> (fa XOR fr) AND sb \<noteq> 0) SR_V\<rparr>)"

definition flags_cmp :: "u32 \<Rightarrow> u32 \<Rightarrow> u32 \<Rightarrow> M68KSize \<Rightarrow> M68KState \<Rightarrow> M68KState" where
  "flags_cmp a b r sz c =
     (let m = szmask sz; sb = push_bit (szbits sz - 1) 1; fa = a AND m; fb = b AND m; fr = r AND m
      in c\<lparr>SR := (SR c AND NOT 0x0F) OR flag (fr = 0) SR_Z OR flag (drop_bit (szbits sz - 1) fr \<noteq> 0) SR_N
         OR flag (fb > fa) SR_C
         OR flag ((fa XOR fb) AND sb \<noteq> 0 \<and> (fa XOR fr) AND sb \<noteq> 0) SR_V\<rparr>)"

definition add_sub :: "bool \<Rightarrow> M68KSize \<Rightarrow> u32 \<Rightarrow> u32 \<Rightarrow> M68KState \<Rightarrow> u32 \<times> M68KState" where
  "add_sub isadd sz a b c =
     (if isadd then (a + b, flags_add a b (a + b) sz c) else (a - b, flags_sub a b (a - b) sz c))"

definition eval_cond :: "u16 \<Rightarrow> M68KState \<Rightarrow> bool" where
  "eval_cond cc cpu =
     (let s = SR cpu; C = bit s 0; V = bit s 1; Z = bit s 2; N = bit s 3; k = cc AND 0xF
      in if k = 0x0 then True
         else if k = 0x1 then False
         else if k = 0x2 then \<not> C \<and> \<not> Z
         else if k = 0x3 then C \<or> Z
         else if k = 0x4 then \<not> C
         else if k = 0x5 then C
         else if k = 0x6 then \<not> Z
         else if k = 0x7 then Z
         else if k = 0x8 then \<not> V
         else if k = 0x9 then V
         else if k = 0xA then \<not> N
         else if k = 0xB then N
         else if k = 0xC then N = V
         else if k = 0xD then N \<noteq> V
         else if k = 0xE then \<not> Z \<and> N = V
         else Z \<or> N \<noteq> V)"

section \<open>Shifts and rotates\<close>

datatype shift_op = LSL | LSR | ASL | ASR | ROL | ROR | ROXL | ROXR

text \<open>What one case of the switch of \<open>do_shift\<close> leaves in \<open>res\<close>, \<open>c\<close> and \<open>v\<close>.\<close>

definition shift_left_result :: "M68KSize \<Rightarrow> nat \<Rightarrow> u32 \<Rightarrow> u32" where
  "shift_left_result sz cnt sv =
     (if 0 < cnt \<and> cnt < szbits sz then push_bit cnt sv AND szmask sz else if cnt = 0 then sv else 0)"

definition shift_left_carry :: "M68KSize \<Rightarrow> nat \<Rightarrow> u32 \<Rightarrow> u32" where
  "shift_left_carry sz cnt sv =
     (if 0 < cnt \<and> cnt \<le> szbits sz then drop_bit (szbits sz - cnt) sv AND 1 else 0)"

definition asl_overflow :: "M68KSize \<Rightarrow> nat \<Rightarrow> u32 \<Rightarrow> bool" where
  "asl_overflow sz cnt sv =
     (if 0 < cnt then
        if cnt \<ge> szbits sz then sv \<noteq> 0
        else let top = drop_bit (szbits sz - 1 - cnt) sv; allm = push_bit (cnt + 1) 1 - 1 in top \<noteq> 0 \<and> top \<noteq> allm
      else False)"

definition rox_result :: "bool \<Rightarrow> M68KSize \<Rightarrow> nat \<Rightarrow> u32 \<Rightarrow> bool \<Rightarrow> u64" where
  "rox_result left sz cnt sv x =
     (let bits = szbits sz; period = bits + 1; cc = cnt mod period;
          wide = (ucast sv :: u64) OR push_bit bits (of_bool x);
          widemask = push_bit period 1 - 1
      in (if left then push_bit cc wide OR (if cc \<noteq> 0 then drop_bit (period - cc) wide else 0)
          else drop_bit cc wide OR (if cc \<noteq> 0 then push_bit (period - cc) wide else 0)) AND widemask)"

fun shift_engine :: "shift_op \<Rightarrow> M68KSize \<Rightarrow> nat \<Rightarrow> u32 \<Rightarrow> bool \<Rightarrow> u32 \<times> u32 \<times> bool" where
  "shift_engine LSL sz cnt sv x = (shift_left_result sz cnt sv, shift_left_carry sz cnt sv, False)"
| "shift_engine LSR sz cnt sv x =
     (if 0 < cnt \<and> cnt < szbits sz then drop_bit cnt sv else if cnt = 0 then sv else 0,
      if 0 < cnt \<and> cnt \<le> szbits sz then drop_bit (cnt - 1) sv AND 1 else 0, False)"
| "shift_engine ASL sz cnt sv x =
     (shift_left_result sz cnt sv, shift_left_carry sz cnt sv, asl_overflow sz cnt sv)"
| "shift_engine ASR sz cnt sv x =
     (if 0 < cnt \<and> cnt < szbits sz then signed_drop_bit cnt (sext sv sz) AND szmask sz
      else if cnt = 0 then sv else if sint (sext sv sz) < 0 then szmask sz else 0,
      if cnt = 0 then 0 else if cnt < szbits sz then drop_bit (cnt - 1) sv AND 1
      else drop_bit (szbits sz - 1) sv AND 1, False)"
| "shift_engine ROL sz cnt sv x =
     (let cc = cnt mod szbits sz;
          res = (if cc \<noteq> 0 then (push_bit cc sv OR drop_bit (szbits sz - cc) sv) AND szmask sz else sv)
      in (res, if cnt \<noteq> 0 then res AND 1 else 0, False))"
| "shift_engine ROR sz cnt sv x =
     (let cc = cnt mod szbits sz;
          res = (if cc \<noteq> 0 then (drop_bit cc sv OR push_bit (szbits sz - cc) sv) AND szmask sz else sv)
      in (res, if cnt \<noteq> 0 then drop_bit (szbits sz - 1) res AND 1 else 0, False))"
| "shift_engine ROXL sz cnt sv x =
     (let rot = rox_result True sz cnt sv x
      in (ucast (rot AND ucast (szmask sz)), ucast (drop_bit (szbits sz) rot AND 1), False))"
| "shift_engine ROXR sz cnt sv x =
     (let rot = rox_result False sz cnt sv x
      in (ucast (rot AND ucast (szmask sz)), ucast (drop_bit (szbits sz) rot AND 1), False))"

definition touches_x :: "shift_op \<Rightarrow> bool" where
  "touches_x mn \<longleftrightarrow> mn \<noteq> ROL \<and> mn \<noteq> ROR"

text \<open>The SR tail of \<open>do_shift\<close>; \<open>keep_x\<close> is the register-count-zero case.\<close>

definition shift_sr :: "shift_op \<Rightarrow> bool \<Rightarrow> M68KSize \<Rightarrow> u32 \<Rightarrow> u32 \<Rightarrow> bool \<Rightarrow> u16 \<Rightarrow> u16" where
  "shift_sr mn keep_x sz res c v sr =
     (let zn = flag (res = 0) SR_Z OR flag (drop_bit (szbits sz - 1) res AND 1 \<noteq> 0) SR_N
      in if \<not> touches_x mn then (sr AND NOT 0x0F) OR zn OR flag (c \<noteq> 0) SR_C
         else if keep_x then (sr AND NOT 0x0F) OR zn
         else (sr AND NOT 0x1F) OR zn OR flag (c \<noteq> 0) (SR_C OR SR_X) OR flag v SR_V)"

definition shift_count :: "bool \<Rightarrow> nat \<Rightarrow> nat \<Rightarrow> M68KState \<Rightarrow> nat" where
  "shift_count reg_count creg imm_count cpu = (if reg_count then unat (reg_D cpu creg AND 63) else imm_count)"

definition do_shift :: "shift_op \<Rightarrow> nat \<Rightarrow> M68KSize \<Rightarrow> bool \<Rightarrow> nat \<Rightarrow> nat \<Rightarrow> M68KState \<Rightarrow> M68KState" where
  "do_shift mn dreg sz reg_count creg imm_count cpu =
     (let cnt = shift_count reg_count creg imm_count cpu;
          sv = reg_D cpu dreg AND szmask sz;
          (res, c, v) = shift_engine mn sz cnt sv (bit (SR cpu) 4);
          cpu1 = store_dn dreg res sz cpu
      in cpu1\<lparr>SR := shift_sr mn (reg_count \<and> cnt = 0) sz res c v (SR cpu1)\<rparr>)"

text \<open>
  The overflow test of a long ASL by 31 places shifts \<^verbatim>\<open>1u\<close> by 32 places, which C leaves undefined; that one case
  has the outcome \<open>Undefined\<close>.
\<close>

definition shift_undefined :: "shift_op \<Rightarrow> M68KSize \<Rightarrow> nat \<Rightarrow> bool" where
  "shift_undefined mn sz cnt \<longleftrightarrow> mn = ASL \<and> sz = M68K_SIZE_L \<and> cnt = 31"

text \<open>The one-bit shift of a word in memory.\<close>

fun mem_shift_result :: "shift_op \<Rightarrow> u32 \<Rightarrow> bool \<Rightarrow> u32 \<times> u32 \<times> bool" where
  "mem_shift_result LSL sv x = (push_bit 1 sv AND 0xFFFF, drop_bit 15 sv AND 1, False)"
| "mem_shift_result LSR sv x = (drop_bit 1 sv, sv AND 1, False)"
| "mem_shift_result ASL sv x =
     (let res = push_bit 1 sv AND 0xFFFF in (res, drop_bit 15 sv AND 1, sv AND 0x8000 \<noteq> res AND 0x8000))"
| "mem_shift_result ASR sv x = (signed_drop_bit 1 (sext sv M68K_SIZE_W) AND 0xFFFF, sv AND 1, False)"
| "mem_shift_result ROL sv x = ((push_bit 1 sv OR drop_bit 15 sv) AND 0xFFFF, drop_bit 15 sv AND 1, False)"
| "mem_shift_result ROR sv x = ((drop_bit 1 sv OR push_bit 15 sv) AND 0xFFFF, sv AND 1, False)"
| "mem_shift_result ROXL sv x = ((push_bit 1 sv OR of_bool x) AND 0xFFFF, drop_bit 15 sv AND 1, False)"
| "mem_shift_result ROXR sv x = ((drop_bit 1 sv OR push_bit 15 (of_bool x)) AND 0xFFFF, sv AND 1, False)"

section \<open>Division\<close>

datatype M68kDivideStatus = M68K_DIVIDE_OK | M68K_DIVIDE_BY_ZERO | M68K_DIVIDE_OVERFLOW

text \<open>Result status, packed remainder and quotient (on success) and condition codes.\<close>

definition pack_division :: "u16 \<Rightarrow> u16 \<Rightarrow> M68kDivideStatus \<times> u32 \<times> u16" where
  "pack_division quotient_bits remainder_bits =
     (M68K_DIVIDE_OK, push_bit 16 (ucast remainder_bits) OR ucast quotient_bits,
      flag (quotient_bits = 0) SR_Z OR flag (quotient_bits AND 0x8000 \<noteq> 0) SR_N)"

definition m68k_divide_word :: "u32 \<Rightarrow> u16 \<Rightarrow> bool \<Rightarrow> M68kDivideStatus \<times> u32 \<times> u16" where
  "m68k_divide_word dividend divisor signed_operation =
     (if divisor = 0 then (M68K_DIVIDE_BY_ZERO, 0, 0)
      else if signed_operation then
        let quotient = sint dividend sdiv sint divisor
        in if quotient < - 32768 \<or> quotient > 32767 then (M68K_DIVIDE_OVERFLOW, 0, SR_N OR SR_V)
           else pack_division (word_of_int quotient) (word_of_int (sint dividend smod sint divisor))
      else
        let quotient = dividend div ucast divisor
        in if quotient > 0xFFFF then (M68K_DIVIDE_OVERFLOW, 0, SR_N OR SR_V)
           else pack_division (ucast quotient) (ucast (dividend mod ucast divisor)))"

definition do_div :: "nat \<Rightarrow> u32 \<Rightarrow> bool \<Rightarrow> M68KState \<Rightarrow> M68KState" where
  "do_div dr src16 is_signed c =
     (let (status, result, ccr) = m68k_divide_word (reg_D c dr) (ucast src16) is_signed;
          c1 = c\<lparr>SR := (SR c AND NOT (SR_N OR SR_Z OR SR_V OR SR_C)) OR ccr\<rparr>
      in if status = M68K_DIVIDE_OK then set_D dr result c1 else c1)"

section \<open>Extended and packed decimal arithmetic\<close>

text \<open>The arithmetic core of ADDX and SUBX: result and new SR; Z is sticky.\<close>

definition addx_subx :: "bool \<Rightarrow> M68KSize \<Rightarrow> u32 \<Rightarrow> u32 \<Rightarrow> u16 \<Rightarrow> u32 \<times> u16" where
  "addx_subx is_add sz a b sr =
     (let x = (of_bool (bit sr 4) :: u64); sign = push_bit (szbits sz - 1) 1;
          full = (if is_add then ucast a + ucast b + x else ucast a - ucast b - x);
          r = ucast full AND szmask sz;
          carry = (if is_add then bit full (szbits sz) else bit full 63);
          v = (if is_add then (a XOR b) AND sign = 0 \<and> (a XOR r) AND sign \<noteq> 0
               else (a XOR b) AND sign \<noteq> 0 \<and> (a XOR r) AND sign \<noteq> 0)
      in (r, (sr AND NOT 0x1F) OR flag (r = 0 \<and> bit sr 2) SR_Z OR flag (drop_bit (szbits sz - 1) r \<noteq> 0) SR_N
            OR flag carry (SR_C OR SR_X) OR flag v SR_V))"

definition do_bcd_flags :: "u8 \<Rightarrow> bool \<Rightarrow> u16 \<Rightarrow> u16" where
  "do_bcd_flags r carry sr =
     (let zold = bit sr 2;
          s1 = sr AND NOT SR_V;
          s2 = (if r \<noteq> 0 then s1 AND NOT SR_Z else if zold then s1 OR SR_Z else s1);
          s3 = s2 AND NOT (SR_C OR SR_X OR SR_N)
      in s3 OR flag (r AND 0x80 \<noteq> 0) SR_N OR flag carry (SR_C OR SR_X))"

definition bcd_add :: "u8 \<Rightarrow> u8 \<Rightarrow> bool \<Rightarrow> u8 \<times> bool" where
  "bcd_add a b x =
     (let lo = unat (a AND 0xF) + unat (b AND 0xF) + of_bool x;
          adj_lo = (if lo > 9 then 6 else 0);
          hi = unat (drop_bit 4 a) + unat (drop_bit 4 b) + (lo + adj_lo) div 16;
          adj_hi = (if hi > 9 then 6 else 0);
          full = hi * 16 + adj_hi * 16 + (lo + adj_lo) mod 16
      in (of_nat full, bit full 8))"

definition bcd_sub :: "u8 \<Rightarrow> u8 \<Rightarrow> bool \<Rightarrow> u8 \<times> bool" where
  "bcd_sub a b x =
     (let lo = uint (a AND 0xF) - uint (b AND 0xF) - of_bool x;
          adj_lo = (if lo < 0 then 6 else 0);
          hi = uint (drop_bit 4 a) - uint (drop_bit 4 b) - of_bool (lo < 0);
          adj_hi = (if hi < 0 then 6 else 0);
          full = (hi mod 256) * 16 - adj_hi * 16 + (lo - adj_lo) mod 16
      in (word_of_int full, hi < 0))"

end
