(* ===== verification/M68k_Alu_Laws.thy ===== *)
theory M68k_Alu_Laws
  imports M68k_Alu
begin

unbundle bit_operations_syntax

text \<open>
  Laws of the interpreter's arithmetic: what the condition codes mean for the numbers an operand stands for,
  division, decimal arithmetic, multi-word arithmetic, and the shift engine against shifting by one place at a time.
\<close>

section \<open>The numbers an operand stands for\<close>

definition uval :: "M68KSize \<Rightarrow> u32 \<Rightarrow> int" where
  "uval sz v = uint (v AND szmask sz)"

definition sval :: "M68KSize \<Rightarrow> u32 \<Rightarrow> int" where
  "sval sz v = sint (sext v sz)"

definition extent :: "M68KSize \<Rightarrow> int" where
  "extent sz = 2 ^ szbits sz"

definition sign_bit :: "M68KSize \<Rightarrow> u32 \<Rightarrow> bool" where
  "sign_bit sz v \<longleftrightarrow> bit v (szbits sz - 1)"

lemma extent_simps [simp]: "extent M68K_SIZE_B = 256" "extent M68K_SIZE_W = 65536" "extent M68K_SIZE_L = 4294967296"
  by (simp_all add: extent_def)

lemma szmask_mask: "szmask sz = mask (szbits sz)"
  by (cases sz) (simp_all add: mask_eq_exp_minus_1)

lemma szbits_range: "0 < szbits sz" "szbits sz \<le> 32" "szbits sz - 1 < szbits sz" "szbits sz - 1 < 32"
  by (cases sz; simp)+

lemma uval_mod: "uval sz v = uint v mod extent sz"
  by (simp add: uval_def szmask_mask extent_def take_bit_eq_mod [symmetric] flip: take_bit_eq_mask)
    (simp add: unsigned_take_bit_eq)

lemma uval_range: "0 \<le> uval sz v" "uval sz v < extent sz"
  by (simp_all add: uval_mod extent_def)

lemma odd_div_half: "0 \<le> x \<Longrightarrow> x < 2 * h \<Longrightarrow> odd (x div h) \<longleftrightarrow> h \<le> x" for x h :: int
proof -
  assume x: "0 \<le> x" "x < 2 * h"
  have "x div h = (if h \<le> x then 1 else 0)"
    using x by (auto intro: div_pos_pos_trivial simp: div_pos_geq)
  then show ?thesis by simp
qed

lemma extent_half: "extent sz = 2 * 2 ^ (szbits sz - 1)" "extent sz div 2 = 2 ^ (szbits sz - 1)"
  by (cases sz; simp)+

lemma sign_bit_uval: "sign_bit sz v \<longleftrightarrow> extent sz div 2 \<le> uval sz v"
proof -
  have *: "bit (v AND szmask sz) (szbits sz - 1) \<longleftrightarrow> bit v (szbits sz - 1)"
    using szbits_range [of sz] by (simp add: szmask_mask bit_simps)
  have "bit (uval sz v) (szbits sz - 1) \<longleftrightarrow> sign_bit sz v"
    using * szbits_range [of sz] by (auto simp: uval_def sign_bit_def bit_uint_iff)
  moreover have "bit (uval sz v) (szbits sz - 1) \<longleftrightarrow> odd (uval sz v div 2 ^ (szbits sz - 1))"
    by (simp add: bit_iff_odd)
  moreover have "odd (uval sz v div 2 ^ (szbits sz - 1)) \<longleftrightarrow> extent sz div 2 \<le> uval sz v"
    using uval_range [of sz v] by (simp add: extent_half odd_div_half)
  ultimately show ?thesis by simp
qed

lemma sint_scast_up: "LENGTH('a) \<le> LENGTH('b) \<Longrightarrow> sint (scast (w :: 'a::len word) :: 'b::len word) = sint w"
  by (rule sint_up_scast) (simp add: is_up)

lemma sext_signed: "sint (sext v sz) = signed_take_bit (szbits sz - 1) (uint v)"
  by (cases sz) (simp_all add: sint_scast_up, simp_all add: sint_uint unsigned_ucast_eq signed_take_bit_take_bit min_def)

lemma sval_uval: "sval sz v = (if extent sz div 2 \<le> uval sz v then uval sz v - extent sz else uval sz v)"
proof -
  have "sval sz v = take_bit (szbits sz) (uint v) - 2 ^ szbits sz * of_bool (bit (uint v) (szbits sz - 1))"
    using szbits_range [of sz] by (simp add: sval_def sext_signed signed_take_bit_eq_take_bit_minus)
  moreover have "bit (uint v) (szbits sz - 1) \<longleftrightarrow> extent sz div 2 \<le> uval sz v"
    using szbits_range [of sz] by (simp add: sign_bit_def bit_uint_iff flip: sign_bit_uval)
  ultimately show ?thesis
    by (simp add: uval_mod extent_def take_bit_eq_mod)
qed

section \<open>Flags in terms of those numbers\<close>

lemma drop_sign: "drop_bit (szbits sz - 1) (v AND szmask sz) \<noteq> 0 \<longleftrightarrow> sign_bit sz v"
proof -
  have "drop_bit (szbits sz - 1) (v AND szmask sz) = of_bool (sign_bit sz v)"
    by (rule bit_word_eqI) (cases sz; auto simp: szmask_mask bit_simps sign_bit_def less_Suc_eq_le)
  then show ?thesis by simp
qed

lemma xor_sign:
  "((a AND szmask sz) XOR (b AND szmask sz)) AND push_bit (szbits sz - 1) 1 = 0 \<longleftrightarrow> sign_bit sz a = sign_bit sz b"
  using szbits_range [of sz] unfolding and_push_one_eq_0_iff by (auto simp: szmask_mask bit_simps sign_bit_def)

lemma masked_zero: "v AND szmask sz = 0 \<longleftrightarrow> uval sz v = 0"
  by (simp add: uval_def uint_0_iff)

lemma masked_less: "a AND szmask sz < b AND szmask sz \<longleftrightarrow> uval sz a < uval sz b"
  by (simp add: uval_def word_less_def)

lemma uval_minus: "uval sz (a - b) = (uval sz a - uval sz b) mod extent sz"
  by (cases sz) (simp_all add: uval_mod uint_word_ariths mod_simps mod_mod_cancel)

lemma uval_plus: "uval sz (a + b) = (uval sz a + uval sz b) mod extent sz"
  by (cases sz) (simp_all add: uval_mod uint_word_ariths mod_simps mod_mod_cancel)

lemma carry_uval: "(ucast (a AND szmask sz) :: u64) + ucast (b AND szmask sz) > ucast (szmask sz) \<longleftrightarrow>
    extent sz \<le> uval sz a + uval sz b"
proof -
  have r: "uval sz a < 4294967296" "uval sz b < 4294967296" "0 \<le> uval sz a" "0 \<le> uval sz b"
    using uval_range [of sz a] uval_range [of sz b] by (cases sz; simp)+
  have "uint ((ucast (a AND szmask sz) :: u64) + ucast (b AND szmask sz)) = uval sz a + uval sz b"
    using r by (simp add: uint_word_ariths unsigned_ucast_eq flip: uval_def) (simp add: take_bit_eq_mod)
  moreover have "uint (ucast (szmask sz) :: u64) = extent sz - 1"
    by (cases sz) (simp_all add: unsigned_ucast_eq take_bit_eq_mod)
  ultimately show ?thesis by (simp add: word_less_def) linarith
qed

lemmas flag_values = drop_sign xor_sign masked_zero masked_less carry_uval

lemma flag_bit: "bit (flag b v) n \<longleftrightarrow> b \<and> bit v n"
  by (simp add: flag_def)

text \<open>The five condition codes after the flag helpers.\<close>

lemma flags_add_bits:
  "bit (SR (flags_add a b r sz c)) 0 \<longleftrightarrow> extent sz \<le> uval sz a + uval sz b"
  "bit (SR (flags_add a b r sz c)) 1 \<longleftrightarrow> sign_bit sz a = sign_bit sz b \<and> sign_bit sz a \<noteq> sign_bit sz r"
  "bit (SR (flags_add a b r sz c)) 2 \<longleftrightarrow> uval sz r = 0"
  "bit (SR (flags_add a b r sz c)) 3 \<longleftrightarrow> sign_bit sz r"
  "bit (SR (flags_add a b r sz c)) 4 \<longleftrightarrow> extent sz \<le> uval sz a + uval sz b"
  unfolding flags_add_def Let_def flag_values by (simp_all add: bit_simps flag_bit)

lemma flags_sub_bits:
  "bit (SR (flags_sub a b r sz c)) 0 \<longleftrightarrow> uval sz a < uval sz b"
  "bit (SR (flags_sub a b r sz c)) 1 \<longleftrightarrow> sign_bit sz a \<noteq> sign_bit sz b \<and> sign_bit sz a \<noteq> sign_bit sz r"
  "bit (SR (flags_sub a b r sz c)) 2 \<longleftrightarrow> uval sz r = 0"
  "bit (SR (flags_sub a b r sz c)) 3 \<longleftrightarrow> sign_bit sz r"
  "bit (SR (flags_sub a b r sz c)) 4 \<longleftrightarrow> uval sz a < uval sz b"
  unfolding flags_sub_def Let_def flag_values by (simp_all add: bit_simps flag_bit)

lemma flags_cmp_bits:
  "bit (SR (flags_cmp a b r sz c)) 0 \<longleftrightarrow> uval sz a < uval sz b"
  "bit (SR (flags_cmp a b r sz c)) 1 \<longleftrightarrow> sign_bit sz a \<noteq> sign_bit sz b \<and> sign_bit sz a \<noteq> sign_bit sz r"
  "bit (SR (flags_cmp a b r sz c)) 2 \<longleftrightarrow> uval sz r = 0"
  "bit (SR (flags_cmp a b r sz c)) 3 \<longleftrightarrow> sign_bit sz r"
  "bit (SR (flags_cmp a b r sz c)) 4 \<longleftrightarrow> bit (SR c) 4"
  unfolding flags_cmp_def Let_def flag_values by (simp_all add: bit_simps flag_bit)

text \<open>Modular results without the modulus, and signed overflow.\<close>

lemma mod_up: "0 \<le> x + m \<Longrightarrow> x < 0 \<Longrightarrow> x mod m = x + m" for x m :: int
  using mod_add_self2 [of x m] mod_pos_pos_trivial [of "x + m" m] by simp

lemma mod_down: "m \<le> x \<Longrightarrow> x < 2 * m \<Longrightarrow> x mod m = x - m" for x m :: int
  using minus_mod_self2 [of x m] mod_pos_pos_trivial [of "x - m" m] by simp

lemma uval_minus_cases:
  "uval sz (a - b) = (if uval sz b \<le> uval sz a then uval sz a - uval sz b else uval sz a - uval sz b + extent sz)"
  using uval_range [of sz a] uval_range [of sz b]
  by (auto simp: uval_minus mod_pos_pos_trivial mod_up)

lemma uval_plus_cases:
  "uval sz (a + b) = (if uval sz a + uval sz b < extent sz then uval sz a + uval sz b else uval sz a + uval sz b - extent sz)"
  using uval_range [of sz a] uval_range [of sz b]
  by (auto simp: uval_plus mod_pos_pos_trivial mod_down)

definition representable :: "M68KSize \<Rightarrow> int \<Rightarrow> bool" where
  "representable sz n \<longleftrightarrow> - (extent sz div 2) \<le> n \<and> n < extent sz div 2"

lemma overflow_minus:
  "sign_bit sz a \<noteq> sign_bit sz b \<and> sign_bit sz a \<noteq> sign_bit sz (a - b) \<longleftrightarrow> \<not> representable sz (sval sz a - sval sz b)"
  using uval_range [of sz a] uval_range [of sz b]
  by (cases sz) (auto simp: sign_bit_uval sval_uval uval_minus_cases representable_def)

lemma overflow_plus:
  "sign_bit sz a = sign_bit sz b \<and> sign_bit sz a \<noteq> sign_bit sz (a + b) \<longleftrightarrow> \<not> representable sz (sval sz a + sval sz b)"
  using uval_range [of sz a] uval_range [of sz b]
  by (cases sz) (auto simp: sign_bit_uval sval_uval uval_plus_cases representable_def)

lemma flags_overflow:
  "bit (SR (flags_add a b (a + b) sz c)) (Suc 0) \<longleftrightarrow> \<not> representable sz (sval sz a + sval sz b)"
  "bit (SR (flags_sub a b (a - b) sz c)) (Suc 0) \<longleftrightarrow> \<not> representable sz (sval sz a - sval sz b)"
  by (simp_all only: flags_add_bits [unfolded One_nat_def] flags_sub_bits [unfolded One_nat_def]
      overflow_plus overflow_minus)

lemma sign_bit_sval: "sign_bit sz a \<longleftrightarrow> sval sz a < 0"
  using uval_range [of sz a] by (cases sz) (auto simp: sign_bit_uval sval_uval)

lemma signed_less_flags:
  "sign_bit sz (a - b) \<noteq> (sign_bit sz a \<noteq> sign_bit sz b \<and> sign_bit sz a \<noteq> sign_bit sz (a - b)) \<longleftrightarrow> sval sz a < sval sz b"
  using uval_range [of sz a] uval_range [of sz b]
  by (cases sz) (auto simp: sign_bit_uval sval_uval uval_minus_cases)

section \<open>Comparison and branching\<close>

text \<open>The relation between the compared numbers that each condition of Bcc, DBcc and Scc tests.\<close>

definition condition_spec :: "u16 \<Rightarrow> M68KSize \<Rightarrow> u32 \<Rightarrow> u32 \<Rightarrow> bool" where
  "condition_spec cc sz a b =
     ([True, False,
       uval sz a > uval sz b, uval sz a \<le> uval sz b, uval sz a \<ge> uval sz b, uval sz a < uval sz b,
       uval sz a \<noteq> uval sz b, uval sz a = uval sz b,
       representable sz (sval sz a - sval sz b), \<not> representable sz (sval sz a - sval sz b),
       sval sz (a - b) \<ge> 0, sval sz (a - b) < 0,
       sval sz a \<ge> sval sz b, sval sz a < sval sz b, sval sz a > sval sz b, sval sz a \<le> sval sz b]
      ! unat (cc AND 0xF))"

lemma upt_16: "[0..<16] = [0, 1, 2, 3, 4, 5, 6, 7, 8, 9, 10, 11, 12, 13, 14, 15]"
  by code_simp

lemma u16_low_nibble_cases: "(cc :: u16) AND 0xF \<in> {0, 1, 2, 3, 4, 5, 6, 7, 8, 9, 10, 11, 12, 13, 14, 15}"
proof -
  have "cc AND 0xF = take_bit 4 cc"
    by (simp add: take_bit_eq_mask mask_eq_exp_minus_1)
  then have "unat (cc AND 0xF) = take_bit 4 (unat cc)"
    by (simp add: unsigned_take_bit_eq)
  then have "unat (cc AND 0xF) < 16"
    by (simp add: take_bit_eq_mod)
  then have "unat (cc AND 0xF) \<in> set [0..<16]" by simp
  then have "of_nat (unat (cc AND 0xF)) \<in> (of_nat ` set [0..<16] :: u16 set)" by blast
  then show ?thesis by (simp add: upt_16 del: set_upt)
qed

text \<open>The evaluator as a table over the four codes.\<close>

lemma eval_cond_table:
  assumes "C = bit (SR c) 0" "V = bit (SR c) 1" "Z = bit (SR c) 2" "N = bit (SR c) 3"
  shows "eval_cond cc c = [True, False, \<not> C \<and> \<not> Z, C \<or> Z, \<not> C, C, \<not> Z, Z, \<not> V, V, \<not> N, N, N = V, N \<noteq> V,
      \<not> Z \<and> N = V, Z \<or> N \<noteq> V] ! unat (cc AND 0xF)"
  using u16_low_nibble_cases [of cc] assms by (elim insertE emptyE) (simp_all add: eval_cond_def Let_def)

lemma uval_minus_zero: "uval sz (a - b) = 0 \<longleftrightarrow> uval sz a = uval sz b"
  using uval_range [of sz a] uval_range [of sz b] by (auto simp: uval_minus_cases)

lemma uval_eq_sval: "uval sz a = uval sz b \<longleftrightarrow> sval sz a = sval sz b"
  using uval_range [of sz a] uval_range [of sz b] by (cases sz) (auto simp: sval_uval)

text \<open>
C25: After a compare of any size, every one of the sixteen conditions tests exactly the order relation of the
compared numbers that its name says: the unsigned conditions compare the operands as natural numbers, the signed
ones as two's complement numbers, overflow means the signed difference does not fit, and the minus condition
looks at the sign of the truncated difference.
\<close>
theorem compare_then_condition:
  "eval_cond cc (flags_cmp a b (a - b) sz c) \<longleftrightarrow> condition_spec cc sz a b"
proof -
  have N: "bit (SR (flags_cmp a b (a - b) sz c)) 3 \<longleftrightarrow> sval sz (a - b) < 0"
    by (simp add: flags_cmp_bits sign_bit_sval)
  have V: "bit (SR (flags_cmp a b (a - b) sz c)) 1 \<longleftrightarrow> \<not> representable sz (sval sz a - sval sz b)"
    by (simp only: flags_cmp_bits overflow_minus)
  have Z: "bit (SR (flags_cmp a b (a - b) sz c)) 2 \<longleftrightarrow> uval sz a = uval sz b"
    by (simp add: flags_cmp_bits uval_minus_zero)
  have L: "sval sz (a - b) < 0 \<longleftrightarrow> representable sz (sval sz a - sval sz b) \<longleftrightarrow> sval sz a < sval sz b"
    using signed_less_flags [of sz a b, unfolded overflow_minus] unfolding sign_bit_sval by blast
  show ?thesis
    unfolding eval_cond_table [OF refl refl refl refl] condition_spec_def N V Z flags_cmp_bits(1)
    using L uval_eq_sval [of sz a b] by (intro arg_cong [where f = "\<lambda>xs. xs ! unat (cc AND 0xF)"]) auto
qed

section \<open>Addition and subtraction\<close>

text \<open>The status-register bits the condition codes do not occupy.\<close>

definition system_byte :: "M68KState \<Rightarrow> u16" where
  "system_byte c = SR c AND NOT 0x1F"

lemma flags_keep_system:
  "system_byte (flags_add a b r sz c) = system_byte c" "system_byte (flags_sub a b r sz c) = system_byte c"
  "system_byte (flags_cmp a b r sz c) = system_byte c" "system_byte (flags_logic r sz c) = system_byte c"
  by (simp_all add: system_byte_def flags_add_def flags_sub_def flags_cmp_def flags_logic_def Let_def flag_def bitwise16)

lemma signed_value_exact:
  assumes "representable sz n" and "uval sz r = n mod extent sz"
  shows "sval sz r = n"
proof -
  have "n mod extent sz = (if 0 \<le> n then n else n + extent sz)"
    using assms(1) by (cases sz) (auto simp: representable_def mod_pos_pos_trivial mod_up)
  then show ?thesis
    using assms by (cases sz) (auto simp: sval_uval representable_def)
qed

lemma sval_cong_uval: "sval sz a mod extent sz = uval sz a"
  using uval_range [of sz a] by (simp add: sval_uval mod_pos_pos_trivial mod_diff_eq [symmetric]) 

text \<open>
C26: ADD and SUB at every size: the result is the sum or difference modulo the operand size; carry and extend are set
exactly when the unsigned result is out of range, overflow exactly when the signed result does not fit, and when it
does fit the result read as a signed number is exact; zero and negative describe the truncated result; the system
byte of SR is untouched.
\<close>
theorem add_sub_exact:
  "case add_sub isadd sz a b c of (r, c') \<Rightarrow>
     let u = (if isadd then uval sz a + uval sz b else uval sz a - uval sz b);
         s = (if isadd then sval sz a + sval sz b else sval sz a - sval sz b)
     in uval sz r = u mod extent sz
        \<and> (bit (SR c') 0 \<longleftrightarrow> u \<notin> {0..<extent sz}) \<and> (bit (SR c') 4 \<longleftrightarrow> u \<notin> {0..<extent sz})
        \<and> (bit (SR c') 1 \<longleftrightarrow> \<not> representable sz s) \<and> (bit (SR c') 1 \<or> sval sz r = s)
        \<and> (bit (SR c') 2 \<longleftrightarrow> uval sz r = 0) \<and> (bit (SR c') 3 \<longleftrightarrow> sval sz r < 0)
        \<and> system_byte c' = system_byte c"
proof (cases isadd)
  case True
  have "representable sz (sval sz a + sval sz b) \<Longrightarrow> sval sz (a + b) = sval sz a + sval sz b"
    by (rule signed_value_exact) (simp_all add: uval_plus mod_simps sval_cong_uval [symmetric, of sz a] sval_cong_uval [symmetric, of sz b])
  with True show ?thesis
    using uval_range(1) [of sz a] uval_range(1) [of sz b] unfolding add_sub_def Let_def
    by (auto simp: flags_add_bits flags_overflow uval_plus sign_bit_sval flags_keep_system)
next
  case False
  have "representable sz (sval sz a - sval sz b) \<Longrightarrow> sval sz (a - b) = sval sz a - sval sz b"
    by (rule signed_value_exact) (simp_all add: uval_minus mod_simps sval_cong_uval [symmetric, of sz a] sval_cong_uval [symmetric, of sz b])
  with False show ?thesis
    using uval_range [of sz a] uval_range [of sz b] unfolding add_sub_def Let_def
    by (auto simp: flags_sub_bits flags_overflow uval_minus sign_bit_sval flags_keep_system)
qed

section \<open>Division\<close>

definition opval :: "bool \<Rightarrow> 'a::len word \<Rightarrow> int" where
  "opval sg w = (if sg then sint w else uint w)"

definition word_range :: "bool \<Rightarrow> int set" where
  "word_range sg = (if sg then {- 32768..32767} else {0..65535})"

lemma sdiv_nonneg: "0 \<le> n \<Longrightarrow> 0 \<le> m \<Longrightarrow> n sdiv m = n div m" "0 \<le> n \<Longrightarrow> 0 \<le> m \<Longrightarrow> n smod m = n mod m" for n m :: int
  by (cases "n = 0"; cases "m = 0"; simp add: signed_divide_int_def signed_modulo_int_def)+

lemma smod_bound: "m \<noteq> 0 \<Longrightarrow> \<bar>n smod m\<bar> < \<bar>m\<bar>" for n m :: int
  by (simp add: signed_modulo_int_def abs_mult sgn_if)

lemma smod_sign: "n smod m = 0 \<or> sgn (n smod m) = sgn n" for n m :: int
proof (cases "m = 0")
  case False
  then have "0 \<le> \<bar>n\<bar> mod \<bar>m\<bar>" by simp
  then show ?thesis by (auto simp: signed_modulo_int_def sgn_mult sgn_1_pos)
qed simp

lemma opval_of_int: "n \<in> word_range sg \<Longrightarrow> opval sg (word_of_int n :: u16) = n"
  by (auto simp: opval_def word_range_def signed_of_int unsigned_of_int signed_take_bit_int_eq_self take_bit_int_eq_self
      split: if_splits)

lemma opval_range: "opval sg (v :: u16) \<in> word_range sg"
  using sint_range_size [of v] uint_lt2p [of v] by (auto simp: opval_def word_range_def word_size)

lemma opval_zero: "opval sg w = 0 \<longleftrightarrow> w = 0"
  by (simp add: opval_def uint_0_iff) (metis signed_0 signed_word_eqI)

lemma word_range_abs: "n \<in> word_range sg \<Longrightarrow> \<bar>r\<bar> < \<bar>n\<bar> \<Longrightarrow> (sg \<or> 0 \<le> r) \<Longrightarrow> r \<in> word_range sg"
  by (auto simp: word_range_def split: if_splits)

lemma divide_word_alt:
  "m68k_divide_word d v sg =
     (let n = opval sg d; m = opval sg v
      in if v = 0 then (M68K_DIVIDE_BY_ZERO, 0, 0)
         else if n sdiv m \<notin> word_range sg then (M68K_DIVIDE_OVERFLOW, 0, SR_N OR SR_V)
         else pack_division (word_of_int (n sdiv m)) (word_of_int (n smod m)))"
proof (cases sg)
  case True
  then show ?thesis by (auto simp: m68k_divide_word_def Let_def opval_def word_range_def)
next
  case False
  have q: "uint (d div ucast v) = uint d div uint v" "uint (d mod ucast v) = uint d mod uint v"
    by (simp_all add: uint_div uint_mod uint_up_ucast is_up)
  have "d div ucast v > 0xFFFF \<longleftrightarrow> uint d div uint v \<notin> word_range False"
    using q by (auto simp: word_less_def word_range_def div_int_pos_iff)
  moreover have "(ucast (d div ucast v) :: u16) = word_of_int (uint d div uint v)"
    "(ucast (d mod ucast v) :: u16) = word_of_int (uint d mod uint v)"
    using q by (metis of_int_uint ucast_eq)+
  ultimately show ?thesis
    using False by (auto simp: m68k_divide_word_def Let_def opval_def sdiv_nonneg)
qed

lemma merge_codes:
  fixes x y m :: "'a::len word"
  assumes "y AND m = y"
  shows "(x AND NOT m OR y) AND NOT m = x AND NOT m" "(x AND NOT m OR y) AND m = y"
proof -
  have "bit m n" if "bit y n" for n
    using that assms by (metis bit_and_iff)
  then show "(x AND NOT m OR y) AND NOT m = x AND NOT m" "(x AND NOT m OR y) AND m = y"
    by (auto intro!: bit_word_eqI simp: bit_simps)
qed

lemmas merge15 = merge_codes [where m = "15 :: u16" and y = 0, simplified] merge_codes [where m = "15 :: u16", simplified]

lemma opval_simp0 [simp]: "opval sg 0 = 0"
  by (simp add: opval_def)

lemma flag_codes [simp]: "(flag p 4 OR flag q 8) AND 15 = (flag p 4 OR flag q 8 :: u16)"
  by (simp add: flag_def)

lemma packed_halves:
  "(ucast (push_bit 16 (ucast (r :: u16)) OR ucast (q :: u16) :: u32) :: u16) = q"
  "(ucast (drop_bit 16 (push_bit 16 (ucast (r :: u16)) OR ucast (q :: u16) :: u32)) :: u16) = r"
  "bit (push_bit 16 (ucast r) OR ucast q :: u32) 15 \<longleftrightarrow> q AND 0x8000 \<noteq> 0"
  using and_exp_eq_0_iff [of q 15] by (simp_all add: bitwise16)

text \<open>
C27: DIVU and DIVS. A zero divisor leaves the register and clears the codes. When the quotient rounded towards zero fits
in sixteen bits, the register's low half is that quotient and its high half the remainder, which satisfy the division
identity, the remainder being smaller than the divisor and of the dividend's sign, and zero and negative describe the
quotient. Otherwise the register is unchanged and overflow is reported. Extend and the system byte never change.
\<close>
theorem do_div_exact:
  "let n = opval sg (reg_D c dr); m = opval sg (ucast src :: u16); c' = do_div dr src sg c;
       q = opval sg (ucast (reg_D c' dr) :: u16); r = opval sg (ucast (drop_bit 16 (reg_D c' dr)) :: u16)
   in SR c' AND NOT 0xF = SR c AND NOT 0xF \<and>
      (if m = 0 then reg_D c' = reg_D c \<and> SR c' AND 0xF = 0
       else if n sdiv m \<in> word_range sg
       then q = n sdiv m \<and> n = q * m + r \<and> \<bar>r\<bar> < \<bar>m\<bar> \<and> (r = 0 \<or> sgn r = sgn n) \<and> (\<forall>i. i = dr \<or> reg_D c' i = reg_D c i)
         \<and> SR c' AND 0xF = flag (q = 0) SR_Z OR flag (bit (reg_D c' dr) 15) SR_N
       else reg_D c' = reg_D c \<and> SR c' AND 0xF = SR_N OR SR_V)"
proof -
  define n m where nm: "n = opval sg (reg_D c dr)" "m = opval sg (ucast src :: u16)"
  have z: "m = 0 \<longleftrightarrow> (ucast src :: u16) = 0" by (simp add: nm opval_zero)
  have r: "n smod m \<in> word_range sg" if "m \<noteq> 0"
  proof (rule word_range_abs [of m])
    have "0 \<le> n" "0 < m" if "\<not> sg" using that \<open>m \<noteq> 0\<close> by (simp_all add: nm opval_def order_less_le)
    then show "sg \<or> 0 \<le> n smod m" by (cases sg) (simp_all add: sdiv_nonneg)
  qed (use that smod_bound opval_range nm in auto)
  note alt = divide_word_alt [of "reg_D c dr" "ucast src" sg, folded nm, unfolded Let_def]
  consider "m = 0" | "m \<noteq> 0" "n sdiv m \<in> word_range sg" | "m \<noteq> 0" "n sdiv m \<notin> word_range sg" by blast
  then show ?thesis
  proof cases
    case 1
    then show ?thesis using z alt by (simp add: do_div_def Let_def merge15 flip: nm)
  next
    case 2
    define Q R where QR: "Q = (word_of_int (n sdiv m) :: u16)" "R = (word_of_int (n smod m) :: u16)"
    have "opval sg Q = n sdiv m" "opval sg R = n smod m"
      using 2 r by (simp_all add: QR opval_of_int)
    then show ?thesis
      using 2 z alt smod_bound [of m n] smod_sign [of n m] sdiv_mult_smod_eq [of n m] opval_zero [of sg Q]
      by (simp add: do_div_def Let_def pack_division_def packed_halves merge15 del: drop_bit_or flip: nm QR)
  next
    case 3
    then show ?thesis using z alt by (simp add: do_div_def Let_def merge15 flip: nm)
  qed
qed

section \<open>Decimal arithmetic\<close>

definition valid_bcd :: "u8 \<Rightarrow> bool" where
  "valid_bcd b \<longleftrightarrow> uint (drop_bit 4 b) < 10 \<and> uint (b AND 0xF) < 10"

definition decimal :: "u8 \<Rightarrow> int" where
  "decimal b = 10 * uint (drop_bit 4 b) + uint (b AND 0xF)"

lemma low_nibble_u8: "(b :: u8) AND 0xF = take_bit 4 b"
  by (simp add: take_bit_eq_mask mask_eq_exp_minus_1)

lemma nibbles_of_int:
  "uint (drop_bit 4 (word_of_int k :: u8)) = k div 16 mod 16" "uint ((word_of_int k :: u8) AND 0xF) = k mod 16"
  unfolding low_nibble_u8
  by (simp_all add: unsigned_drop_bit_eq unsigned_take_bit_eq unsigned_of_int drop_bit_take_bit)
    (simp_all add: drop_bit_eq_div take_bit_eq_mod)

lemma decimal_of_digits:
  assumes "0 \<le> h" "h < 10" "0 \<le> l" "l < 10" and "k mod 256 = 16 * h + l"
  shows "valid_bcd (word_of_int k) \<and> decimal (word_of_int k) = 10 * h + l"
proof -
  have "(word_of_int k :: u8) = word_of_int (16 * h + l)"
    by (rule word_uint_eqI) (simp add: uint_word_of_int assms(5) [symmetric])
  then show ?thesis
    unfolding valid_bcd_def decimal_def using assms(1-4) by (simp only: nibbles_of_int) simp
qed

lemma adjusted_digit:
  fixes n :: nat
  assumes "n \<le> 19"
  shows "(n + (if n > 9 then 6 else 0)) div 16 = of_bool (n > 9)"
    and "(n + (if n > 9 then 6 else 0)) mod 16 = (if n > 9 then n - 10 else n)"
  using assms by (auto simp: div_if mod_if)

lemma bcd_add_correct:
  assumes "valid_bcd a" "valid_bcd b" "bcd_add a b x = (r, carry)"
  shows "valid_bcd r \<and> decimal r + 100 * of_bool carry = decimal a + decimal b + of_bool x"
proof -
  define al bl ah bh where d: "al = unat (a AND 0xF)" "bl = unat (b AND 0xF)" "ah = unat (drop_bit 4 a)" "bh = unat (drop_bit 4 b)"
  have u: "uint (a AND 0xF) = int al" "uint (b AND 0xF) = int bl" "uint (drop_bit 4 a) = int ah" "uint (drop_bit 4 b) = int bh"
    by (simp_all add: d)
  have D: "al < 10" "bl < 10" "ah < 10" "bh < 10"
    using assms(1,2) by (simp_all only: valid_bcd_def u of_nat_less_numeral_iff)
  define lo where lo: "lo = al + bl + of_bool x"
  define hi where hi: "hi = ah + bh + of_bool (lo > 9)"
  define l where l: "l = (if lo > 9 then lo - 10 else lo)"
  define h where h: "h = (if hi > 9 then hi - 10 else hi)"
  define full where full: "full = hi * 16 + (if hi > 9 then 6 else 0) * 16 + l"
  have b: "lo \<le> 19" "hi \<le> 19" "l < 10" "h < 10" using D by (auto simp: lo hi l h)
  have F: "full = 16 * h + l + 256 * of_bool (hi > 9)" by (auto simp: full h)
  then have "bit full 8 \<longleftrightarrow> hi > 9"
    using b by (auto simp: bit_iff_odd div_if)
  moreover have "bcd_add a b x = (of_nat full, bit full 8)"
    unfolding bcd_add_def Let_def d [symmetric] lo [symmetric] adjusted_digit [OF b(1)] hi [symmetric] l [symmetric]
    by (simp add: full)
  ultimately have rc: "r = word_of_int (int full)" "carry \<longleftrightarrow> hi > 9"
    using assms(3) by simp_all
  have "int full mod 256 = 16 * int h + int l"
    using b F by simp
  then have "valid_bcd r \<and> decimal r = 10 * int h + int l"
    unfolding rc using b by (intro decimal_of_digits) simp_all
  moreover have "10 * int h + int l + 100 * of_bool (hi > 9) = 10 * int ah + int al + (10 * int bh + int bl) + of_bool x"
    by (auto simp: h l hi lo)
  ultimately show ?thesis by (simp add: decimal_def u rc)
qed

lemma bcd_sub_correct:
  assumes "valid_bcd a" "valid_bcd b" "bcd_sub a b x = (r, borrow)"
  shows "valid_bcd r \<and> decimal r - 100 * of_bool borrow = decimal a - decimal b - of_bool x"
proof -
  define al bl ah bh where d: "al = uint (a AND 0xF)" "bl = uint (b AND 0xF)" "ah = uint (drop_bit 4 a)" "bh = uint (drop_bit 4 b)"
  have D: "al < 10" "bl < 10" "ah < 10" "bh < 10" "0 \<le> al" "0 \<le> bl" "0 \<le> ah" "0 \<le> bh"
    using assms(1,2) by (simp_all add: valid_bcd_def d)
  define lo where lo: "lo = al - bl - of_bool x"
  define hi where hi: "hi = ah - bh - of_bool (lo < 0)"
  define l where l: "l = (if lo < 0 then lo + 10 else lo)"
  define h where h: "h = (if hi < 0 then hi + 10 else hi)"
  define full where full: "full = (hi mod 256) * 16 - (if hi < 0 then 6 else 0) * 16 + l"
  have b: "- 10 \<le> lo" "lo < 10" "- 10 \<le> hi" "hi < 10" "0 \<le> l" "l < 10" "0 \<le> h" "h < 10" using D by (auto simp: lo hi l h)
  have m: "(lo - (if lo < 0 then 6 else 0)) mod 16 = l"
    using b mod_up [of "lo - 6" 16] by (auto simp: l)
  have "bcd_sub a b x = (word_of_int full, hi < 0)"
    unfolding bcd_sub_def Let_def d [symmetric] lo [symmetric] m hi [symmetric] by (simp add: full)
  then have rc: "r = word_of_int full" "borrow \<longleftrightarrow> hi < 0"
    using assms(3) by simp_all
  have "hi mod 256 = (if hi < 0 then hi + 256 else hi)"
    using b by (simp add: mod_up)
  then have "full = 16 * h + l + (if hi < 0 then 15 * 256 else 0)"
    by (simp add: full h)
  then have "full mod 256 = (16 * h + l) mod 256"
    using mod_mult_self2 [of "16 * h + l" 256 15] by auto
  then have "full mod 256 = 16 * h + l"
    using b by simp
  then have "valid_bcd r \<and> decimal r = 10 * h + l"
    unfolding rc using b by (intro decimal_of_digits)
  moreover have "10 * h + l - 100 * of_bool (hi < 0) = 10 * ah + al - (10 * bh + bl) - of_bool x"
    by (auto simp: h l hi lo)
  ultimately show ?thesis by (simp add: decimal_def rc flip: d)
qed

text \<open>
C28: ABCD, SBCD and NBCD on packed decimal operands: the result is again packed decimal, and result and carry together are the
exact two-digit sum, or the difference with borrow, of the operands and the extend bit.
\<close>
theorem bcd_exact:
  assumes "valid_bcd a" and "valid_bcd b"
  shows "(case bcd_add a b x of (r, carry) \<Rightarrow>
      valid_bcd r \<and> decimal r + 100 * of_bool carry = decimal a + decimal b + of_bool x) \<and>
    (case bcd_sub a b x of (r, borrow) \<Rightarrow>
      valid_bcd r \<and> decimal r - 100 * of_bool borrow = decimal a - decimal b - of_bool x)"
  using bcd_add_correct [OF assms] bcd_sub_correct [OF assms]
  by (cases "bcd_add a b x"; cases "bcd_sub a b x") (simp only: prod.case simp_thms)

theorem bcd_exact_witness:
  "valid_bcd 0x99 \<and> valid_bcd 0x27 \<and> bcd_add 0x99 0x27 True = (0x27, True) \<and> bcd_sub 0x27 0x99 False = (0x28, True)
    \<and> decimal 0x27 + 100 = decimal 0x99 + decimal 0x27 + 1 \<and> decimal 0x28 - 100 = decimal 0x27 - decimal 0x99"
proof -
  have v: "valid_bcd 0x99" "valid_bcd 0x27" by (simp_all add: valid_bcd_def)
  have "bcd_add 0x99 0x27 True = (0x27, True)" "bcd_sub 0x27 0x99 False = (0x28, True)"
    by (simp_all add: bcd_add_def bcd_sub_def Let_def bit_iff_odd)
  then show ?thesis using bcd_exact [OF v, of True] bcd_exact [OF v(2) v(1), of False] v by simp
qed

section \<open>Arithmetic over several words\<close>

text \<open>
  A chain of ADDX or SUBX over the limbs of two long numbers, least significant limb first, as a program writes it with
  the extend bit carried from one instruction to the next.
\<close>

fun extended_chain :: "bool \<Rightarrow> M68KSize \<Rightarrow> (u32 \<times> u32) list \<Rightarrow> u16 \<Rightarrow> u32 list \<times> u16" where
  "extended_chain is_add sz [] sr = ([], sr)"
| "extended_chain is_add sz ((a, b) # ps) sr =
     (let (r, sr1) = addx_subx is_add sz (a AND szmask sz) (b AND szmask sz) sr; (rs, sr2) = extended_chain is_add sz ps sr1
      in (r # rs, sr2))"

fun limbs :: "M68KSize \<Rightarrow> u32 list \<Rightarrow> int" where
  "limbs sz [] = 0"
| "limbs sz (v # vs) = uval sz v + extent sz * limbs sz vs"

lemma uval_masked [simp]: "uval sz (v AND szmask sz) = uval sz v"
  by (simp add: uval_def and.assoc)

lemma uint_wide: "uint (ucast (v AND szmask sz) :: u64) = uval sz v"
  by (simp add: uval_def uint_up_ucast is_up)

lemma uval_ucast: "uval sz (ucast (w :: u64)) = uint w mod extent sz"
  by (cases sz) (simp_all add: uval_mod unsigned_ucast_eq take_bit_eq_mod mod_mod_cancel)

lemma uval_limit: "uval sz v < 4294967296"
  using uval_range [of sz v] by (cases sz) simp_all

lemma codes_bits:
  fixes sr :: u16
  shows "bit (sr AND NOT 0x1F OR flag z SR_Z OR flag n SR_N OR flag cy (SR_C OR SR_X) OR flag v SR_V) 4 \<longleftrightarrow> cy"
    and "bit (sr AND NOT 0x1F OR flag z SR_Z OR flag n SR_N OR flag cy (SR_C OR SR_X) OR flag v SR_V) 2 \<longleftrightarrow> z"
    and "bit (sr AND NOT 0x1F OR flag z SR_Z OR flag n SR_N OR flag cy (SR_C OR SR_X) OR flag v SR_V) 0 \<longleftrightarrow> cy"
  by (simp_all add: bit_simps flag_bit)

lemma addx_bits:
  assumes "addx_subx is_add sz (a AND szmask sz) (b AND szmask sz) sr = (r, sr')"
  defines "x \<equiv> of_bool (bit sr 4)"
  shows "uval sz r = (if is_add then uval sz a + uval sz b + x else uval sz a - uval sz b - x) mod extent sz"
    and "bit sr' 4 \<longleftrightarrow> (if is_add then extent sz \<le> uval sz a + uval sz b + x else uval sz a - uval sz b - x < 0)"
    and "bit sr' 2 \<longleftrightarrow> uval sz r = 0 \<and> bit sr 2"
    and "bit sr' 0 = bit sr' 4"
proof -
  have X: "uint (of_bool (bit sr 4) :: u64) = x" by (simp add: x_def)
  have x: "0 \<le> x" "x \<le> 1" by (simp_all add: x_def)
  note lim = uval_limit [of sz a] uval_limit [of sz b] uval_range [of sz a] uval_range [of sz b]
  define full :: u64 where full: "full = (if is_add then ucast (a AND szmask sz) + ucast (b AND szmask sz) + of_bool (bit sr 4)
      else ucast (a AND szmask sz) - ucast (b AND szmask sz) - of_bool (bit sr 4))"
  note eq = assms(1) [unfolded addx_subx_def Let_def, folded full]
  have r: "r = ucast full AND szmask sz" using eq by (rule prod.inject [THEN iffD1, THEN conjunct1, symmetric])
  note sr' = eq [THEN prod.inject [THEN iffD1], THEN conjunct2, symmetric]
  have b4: "bit sr' 4 \<longleftrightarrow> (if is_add then bit full (szbits sz) else bit full 63)"
    and b2: "bit sr' 2 \<longleftrightarrow> r = 0 \<and> bit sr 2" and b0: "bit sr' 0 = bit sr' 4"
    unfolding sr' codes_bits r by (rule refl)+
  have rz: "r = 0 \<longleftrightarrow> uval sz r = 0"
    using r masked_zero [of r sz] by (simp add: and.assoc)
  have F: "uint full = (if is_add then uval sz a + uval sz b + x else (uval sz a - uval sz b - x) mod 18446744073709551616)"
    using lim x by (simp add: full uint_word_ariths uint_wide X mod_simps)
  then have "uint full mod extent sz = (if is_add then uval sz a + uval sz b + x else uval sz a - uval sz b - x) mod extent sz"
    by (cases sz) (simp_all add: mod_mod_cancel)
  then show "uval sz r = (if is_add then uval sz a + uval sz b + x else uval sz a - uval sz b - x) mod extent sz"
    by (simp add: r uval_ucast)
  show "bit sr' 2 \<longleftrightarrow> uval sz r = 0 \<and> bit sr 2" using b2 rz by simp
  show "bit sr' 0 = bit sr' 4" by (rule b0)
  have B: "bit full n \<longleftrightarrow> odd (uint full div 2 ^ n)" if "n < 64" for n
    using that by (simp add: bit_uint_iff flip: bit_iff_odd)
  show "bit sr' 4 \<longleftrightarrow> (if is_add then extent sz \<le> uval sz a + uval sz b + x else uval sz a - uval sz b - x < 0)"
  proof (cases is_add)
    case True
    have "bit full (szbits sz) \<longleftrightarrow> odd ((uval sz a + uval sz b + x) div extent sz)"
      using True szbits_range [of sz] by (simp add: B F extent_def)
    then show ?thesis using True lim x b4 by (simp add: odd_div_half)
  next
    case False
    let ?d = "uval sz a - uval sz b - x"
    have "?d mod 18446744073709551616 = (if ?d < 0 then ?d + 18446744073709551616 else ?d)"
      using lim x by (simp add: mod_up)
    then have "bit full 63 \<longleftrightarrow> ?d < 0"
      using False lim x by (simp add: B F odd_div_half)
    then show ?thesis using False b4 by simp
  qed
qed

lemma addx_value:
  assumes "addx_subx is_add sz (a AND szmask sz) (b AND szmask sz) sr = (r, sr')"
  shows "(if is_add then uval sz r + extent sz * of_bool (bit sr' 4) = uval sz a + uval sz b + of_bool (bit sr 4)
    else uval sz r - extent sz * of_bool (bit sr' 4) = uval sz a - uval sz b - of_bool (bit sr 4))"
proof -
  define x :: int where x: "x = of_bool (bit sr 4)"
  have "0 \<le> x" "x \<le> 1" by (simp_all add: x)
  then show ?thesis
    using addx_bits(1,2) [OF assms, folded x] uval_range [of sz a] uval_range [of sz b]
      mod_down [of "extent sz" "uval sz a + uval sz b + x"] mod_up [of "uval sz a - uval sz b - x" "extent sz"]
    unfolding x [symmetric] by (cases is_add) (auto simp: mod_pos_pos_trivial not_le)
qed

lemma scaled_step:
  fixes u e la lb c :: int
  shows "u + e * c = a + b + x \<Longrightarrow> l + k = la + lb + c \<Longrightarrow> u + e * l + e * k = a + e * la + (b + e * lb) + x"
    and "u - e * c = a - b - x \<Longrightarrow> l - k = la - lb - c \<Longrightarrow> u + e * l - e * k = a + e * la - (b + e * lb) - x"
proof -
  assume "u + e * c = a + b + x" "l + k = la + lb + c"
  then have u: "u = a + b + x - e * c" and k: "k = la + lb + c - l" by simp_all
  show "u + e * l + e * k = a + e * la + (b + e * lb) + x" unfolding u k by (simp add: algebra_simps)
next
  assume "u - e * c = a - b - x" "l - k = la - lb - c"
  then have u: "u = a - b - x + e * c" and k: "k = l - (la - lb - c)" by simp_all
  show "u + e * l - e * k = a + e * la - (b + e * lb) - x" unfolding u k by (simp add: algebra_simps)
qed

lemma limbs_nonneg: "0 \<le> limbs sz vs"
  using uval_range [of sz] by (induction vs) (auto simp: extent_def)

lemma limbs_zero_Cons: "limbs sz (v # vs) = 0 \<longleftrightarrow> uval sz v = 0 \<and> limbs sz vs = 0"
  using uval_range(1) [of sz v] limbs_nonneg [of sz vs] by (simp add: add_nonneg_eq_0_iff extent_def)

text \<open>
C29: A chain of ADDX (or SUBX) over the limbs of two numbers of any length computes their exact sum (or difference) with the
incoming extend bit, the outgoing extend bit being the carry (or borrow) of the whole operation; when zero was set before
the chain it ends up set exactly when the whole result is zero.
\<close>
theorem extended_chain_exact:
  "case extended_chain is_add sz ps sr of (rs, sr') \<Rightarrow>
     length rs = length ps \<and>
     (if is_add
      then limbs sz rs + extent sz ^ length ps * of_bool (bit sr' 4) = limbs sz (map fst ps) + limbs sz (map snd ps) + of_bool (bit sr 4)
      else limbs sz rs - extent sz ^ length ps * of_bool (bit sr' 4) = limbs sz (map fst ps) - limbs sz (map snd ps) - of_bool (bit sr 4))
     \<and> (bit sr' 2 \<longleftrightarrow> bit sr 2 \<and> limbs sz rs = 0)"
proof (induction ps arbitrary: sr)
  case Nil
  then show ?case by simp
next
  case (Cons p ps)
  obtain a b where p: "p = (a, b)" by (cases p)
  obtain r sr1 where step: "addx_subx is_add sz (a AND szmask sz) (b AND szmask sz) sr = (r, sr1)" by fastforce
  obtain rs sr2 where tail: "extended_chain is_add sz ps sr1 = (rs, sr2)" by fastforce
  note ih = Cons.IH [of sr1, unfolded tail prod.case]
  note whole = scaled_step [of "uval sz r" "extent sz" "of_bool (bit sr1 4)" "uval sz a" "uval sz b" "of_bool (bit sr 4)"
      "limbs sz rs" "extent sz ^ length ps * of_bool (bit sr2 4)" "limbs sz (map fst ps)" "limbs sz (map snd ps)"]
  show ?case
    unfolding p extended_chain.simps step tail prod.case Let_def limbs_zero_Cons
    using ih addx_value [OF step] addx_bits(3) [OF step] whole
    by (cases is_add) (auto simp only: if_True if_False limbs.simps list.map fst_conv snd_conv list.size power_Suc mult.assoc
        add_Suc_right add_0_right)
qed

end
