(* ===== verification/M68k_Shift_Laws.thy ===== *)
theory M68k_Shift_Laws
  imports M68k_Alu_Laws
begin

unbundle bit_operations_syntax

text \<open>
  The shift engine computes a shift by any count in closed form. Here it is compared with the definition of the shift
  instructions: shifting by one place, \<open>cnt\<close> times, with the carry and the extend bit updated at every place.
\<close>

section \<open>Shifting by one place\<close>

definition top_one :: "M68KSize \<Rightarrow> bool \<Rightarrow> u32" where
  "top_one sz b = push_bit (szbits sz - 1) (of_bool b)"

definition shift_in_low :: "M68KSize \<Rightarrow> bool \<Rightarrow> u32 \<Rightarrow> u32" where
  "shift_in_low sz b v = (push_bit 1 v OR of_bool b) AND szmask sz"

definition shift_in_high :: "M68KSize \<Rightarrow> bool \<Rightarrow> u32 \<Rightarrow> u32" where
  "shift_in_high sz b v = drop_bit 1 v OR top_one sz b"

text \<open>Operand, carry, extend and overflow after one more place.\<close>

fun shift_step :: "shift_op \<Rightarrow> M68KSize \<Rightarrow> u32 \<times> bool \<times> bool \<times> bool \<Rightarrow> u32 \<times> bool \<times> bool \<times> bool" where
  "shift_step LSL sz (v, c, x, ov) = (shift_in_low sz False v, sign_bit sz v, sign_bit sz v, ov)"
| "shift_step LSR sz (v, c, x, ov) = (shift_in_high sz False v, bit v 0, bit v 0, ov)"
| "shift_step ASL sz (v, c, x, ov) =
     (let v' = shift_in_low sz False v in (v', sign_bit sz v, sign_bit sz v, ov \<or> sign_bit sz v \<noteq> sign_bit sz v'))"
| "shift_step ASR sz (v, c, x, ov) = (shift_in_high sz (sign_bit sz v) v, bit v 0, bit v 0, ov)"
| "shift_step ROL sz (v, c, x, ov) = (shift_in_low sz (sign_bit sz v) v, sign_bit sz v, x, ov)"
| "shift_step ROR sz (v, c, x, ov) = (shift_in_high sz (bit v 0) v, bit v 0, x, ov)"
| "shift_step ROXL sz (v, c, x, ov) = (shift_in_low sz x v, sign_bit sz v, sign_bit sz v, ov)"
| "shift_step ROXR sz (v, c, x, ov) = (shift_in_high sz x v, bit v 0, bit v 0, ov)"

definition shift_steps :: "shift_op \<Rightarrow> M68KSize \<Rightarrow> nat \<Rightarrow> u32 \<Rightarrow> bool \<Rightarrow> u32 \<times> bool \<times> bool \<times> bool" where
  "shift_steps mn sz cnt sv x = (shift_step mn sz ^^ cnt) (sv, (mn = ROXL \<or> mn = ROXR) \<and> x, x, False)"

lemma shift_steps_0: "shift_steps mn sz 0 sv x = (sv, (mn = ROXL \<or> mn = ROXR) \<and> x, x, False)"
  by (simp add: shift_steps_def)

lemma shift_steps_Suc: "shift_steps mn sz (Suc cnt) sv x = shift_step mn sz (shift_steps mn sz cnt sv x)"
  by (simp add: shift_steps_def)

section \<open>Bits of the shifted operand\<close>

lemma bit_szmask: "bit (szmask sz) k \<longleftrightarrow> k < szbits sz"
  using szbits_range [of sz] by (auto simp: szmask_mask bit_simps)

lemma bit_shift_in_low:
  "bit (shift_in_low sz b v) k \<longleftrightarrow> k < szbits sz \<and> (if k = 0 then b else bit v (k - 1))"
  using szbits_range [of sz] unfolding shift_in_low_def bit_and_iff bit_or_iff bit_push_bit_iff bit_szmask
  by (auto simp: bit_simps)

lemma bit_shift_in_high:
  "bit (shift_in_high sz b v) k \<longleftrightarrow> bit v (Suc k) \<or> (b \<and> k = szbits sz - 1)"
  using szbits_range [of sz] by (auto simp: shift_in_high_def top_one_def bit_simps)

definition sized :: "M68KSize \<Rightarrow> u32 \<Rightarrow> bool" where
  "sized sz v \<longleftrightarrow> v AND szmask sz = v"

lemma sized_bit: "sized sz v \<Longrightarrow> bit v k \<Longrightarrow> k < szbits sz"
  by (metis sized_def bit_and_iff bit_szmask)

lemma one_bit: "w AND 1 = (of_bool (bit w 0) :: u32)" "w' AND 1 = (of_bool (bit w' 0) :: u64)"
  by (simp_all add: and_one_eq bit_0 mod_2_eq_odd)

lemma bit_left_result:
  assumes "sized sz sv"
  shows "bit (shift_left_result sz n sv) k \<longleftrightarrow> k < szbits sz \<and> n \<le> k \<and> bit sv (k - n)"
  using sized_bit [OF assms] szbits_range [of sz] by (auto simp: shift_left_result_def bit_simps bit_szmask)

lemma left_result_Suc:
  assumes "sized sz sv"
  shows "shift_in_low sz False (shift_left_result sz cnt sv) = shift_left_result sz (Suc cnt) sv"
  by (rule bit_word_eqI) (auto simp: bit_shift_in_low bit_left_result [OF assms])

text \<open>The sign after \<open>j\<close> places of a left shift.\<close>

definition sign_after :: "M68KSize \<Rightarrow> u32 \<Rightarrow> nat \<Rightarrow> bool" where
  "sign_after sz sv j \<longleftrightarrow> j < szbits sz \<and> bit sv (szbits sz - Suc j)"

lemma sign_left_result:
  assumes "sized sz sv"
  shows "sign_bit sz (shift_left_result sz n sv) \<longleftrightarrow> sign_after sz sv n"
  using szbits_range [of sz] by (auto simp: sign_bit_def sign_after_def bit_left_result [OF assms])

lemma left_steps:
  assumes "sized sz sv"
  shows "\<exists>x'. shift_steps LSL sz cnt sv x =
      (shift_left_result sz cnt sv, 0 < cnt \<and> sign_after sz sv (cnt - 1), x', False)"
    and "\<exists>x'. shift_steps ASL sz cnt sv x =
      (shift_left_result sz cnt sv, 0 < cnt \<and> sign_after sz sv (cnt - 1), x',
       \<exists>j<cnt. sign_after sz sv j \<noteq> sign_after sz sv (Suc j))"
proof (induction cnt)
  case 0
  show "\<exists>x'. shift_steps LSL sz 0 sv x = (shift_left_result sz 0 sv, (0 :: nat) < 0 \<and> sign_after sz sv (0 - 1), x', False)"
    "\<exists>x'. shift_steps ASL sz 0 sv x = (shift_left_result sz 0 sv, (0 :: nat) < 0 \<and> sign_after sz sv (0 - 1), x',
       \<exists>j<0. sign_after sz sv j \<noteq> sign_after sz sv (Suc j))"
    by (simp_all add: shift_steps_0 shift_left_result_def)
next
  case (Suc cnt)
  note unfold = shift_steps_Suc Let_def left_result_Suc [OF assms] sign_left_result [OF assms] Ex_less_Suc
  show "\<exists>x'. shift_steps LSL sz (Suc cnt) sv x =
      (shift_left_result sz (Suc cnt) sv, 0 < Suc cnt \<and> sign_after sz sv (Suc cnt - 1), x', False)"
    using Suc.IH(1) by (elim exE) (simp add: unfold)
  show "\<exists>x'. shift_steps ASL sz (Suc cnt) sv x =
      (shift_left_result sz (Suc cnt) sv, 0 < Suc cnt \<and> sign_after sz sv (Suc cnt - 1), x',
       \<exists>j<Suc cnt. sign_after sz sv j \<noteq> sign_after sz sv (Suc j))"
    using Suc.IH(2) by (elim exE) (simp add: unfold disj_commute)
qed

lemma left_carry:
  "shift_left_carry sz cnt sv = of_bool (0 < cnt \<and> sign_after sz sv (cnt - 1))"
  by (auto simp: shift_left_carry_def sign_after_def one_bit bit_simps)

lemma constant_prefix: "(\<forall>j<n. f j = f (Suc j)) \<longleftrightarrow> (\<forall>j\<le>n. f j = f 0)" for f :: "nat \<Rightarrow> bool"
proof
  assume *: "\<forall>j<n. f j = f (Suc j)"
  have "j \<le> n \<Longrightarrow> f j = f 0" for j
    using * by (induction j) auto
  then show "\<forall>j\<le>n. f j = f 0" by blast
next
  assume "\<forall>j\<le>n. f j = f 0"
  then show "\<forall>j<n. f j = f (Suc j)" by (metis Suc_leI less_imp_le)
qed

lemma asl_overflow_iff:
  assumes "sized sz sv"
  shows "asl_overflow sz cnt sv \<longleftrightarrow> (\<exists>j<cnt. sign_after sz sv j \<noteq> sign_after sz sv (Suc j))"
proof -
  let ?n = "szbits sz" and ?s = "sign_after sz sv"
  have flat: "(\<exists>j<cnt. ?s j \<noteq> ?s (Suc j)) \<longleftrightarrow> \<not> (\<forall>j\<le>cnt. \<not> ?s j) \<and> \<not> (\<forall>j\<le>cnt. ?s j)"
    using constant_prefix [of cnt ?s] by (metis le0)
  show ?thesis
  proof (cases "cnt < ?n")
    case True
    define top where top: "top = drop_bit (?n - 1 - cnt) sv"
    have B: "bit top k \<longleftrightarrow> k \<le> cnt \<and> ?s (cnt - k)" for k
      using True sized_bit [OF assms, of "?n - 1 - cnt + k"] by (auto simp: top bit_simps sign_after_def Suc_diff_le)
    then have S: "?s j = bit top (cnt - j)" if "j \<le> cnt" for j
      using that by simp
    have "top = 0 \<longleftrightarrow> (\<forall>j\<le>cnt. \<not> ?s j)"
    proof
      show "\<forall>j\<le>cnt. \<not> ?s j \<Longrightarrow> top = 0" by (rule bit_word_eqI) (simp add: B)
    qed (simp add: S)
    moreover have "top = push_bit (cnt + 1) 1 - 1 \<longleftrightarrow> (\<forall>j\<le>cnt. ?s j)"
    proof -
      have M: "(push_bit (cnt + 1) 1 - 1 :: u32) = mask (Suc cnt)"
        by (simp add: mask_eq_exp_minus_1 push_bit_eq_mult)
      have "cnt < 32" using True szbits_range [of sz] by simp
      then show ?thesis unfolding M
        by (auto simp: S bit_simps intro!: bit_word_eqI) (simp_all add: B less_Suc_eq_le)
    qed
    ultimately show ?thesis
      unfolding flat using True by (auto simp: asl_overflow_def Let_def top)
  next
    case False
    have "\<not> (\<forall>j\<le>cnt. ?s j)" using False by (auto simp: sign_after_def not_less)
    moreover have "(\<forall>j\<le>cnt. \<not> ?s j) \<longleftrightarrow> sv = 0"
    proof
      show "\<forall>j\<le>cnt. \<not> ?s j \<Longrightarrow> sv = 0"
      proof (rule bit_word_eqI)
        fix k assume "\<forall>j\<le>cnt. \<not> ?s j" "k < LENGTH(32)"
        then have "\<not> ?s (?n - Suc k)" using False by simp
        then show "bit sv k = bit 0 k"
          using sized_bit [OF assms, of k] by (auto simp: sign_after_def)
      qed
    qed (simp add: sign_after_def)
    ultimately show ?thesis
      unfolding flat using False szbits_range [of sz] by (auto simp: asl_overflow_def)
  qed
qed

lemma lsr_steps:
  assumes "sized sz sv"
  shows "\<exists>x'. shift_steps LSR sz cnt sv x = (drop_bit cnt sv, 0 < cnt \<and> bit sv (cnt - 1), x', False)"
proof (induction cnt)
  case 0
  then show ?case by (simp add: shift_steps_0)
next
  case (Suc cnt)
  have "shift_in_high sz False (drop_bit cnt sv) = drop_bit (Suc cnt) sv"
    by (rule bit_word_eqI) (simp add: bit_shift_in_high bit_simps)
  then show ?case
    using Suc by (auto simp: shift_steps_Suc bit_drop_bit_eq)
qed

lemma lsr_engine:
  assumes "sized sz sv"
  shows "shift_engine LSR sz cnt sv x = (drop_bit cnt sv, of_bool (0 < cnt \<and> bit sv (cnt - 1)), False)"
proof -
  have "drop_bit cnt sv = 0" if "szbits sz \<le> cnt"
    using that sized_bit [OF assms] by (intro bit_word_eqI) (fastforce simp: bit_simps)
  moreover have "\<not> bit sv (cnt - 1)" if "szbits sz < cnt"
    using that sized_bit [OF assms, of "cnt - 1"] by auto
  ultimately show ?thesis
    by (auto simp: one_bit bit_simps not_less not_le)
qed

section \<open>Arithmetic shift right\<close>

lemma bit_sext: "bit (sext v sz) k \<longleftrightarrow> k < 32 \<and> bit v (min k (szbits sz - 1))"
  by (cases sz) (auto simp: bit_simps min_def dest: bit_imp_le_length)

definition asr_result :: "M68KSize \<Rightarrow> nat \<Rightarrow> u32 \<Rightarrow> u32" where
  "asr_result sz cnt sv = fst (shift_engine ASR sz cnt sv False)"

lemma bit_asr_result:
  assumes "sized sz sv"
  shows "bit (asr_result sz cnt sv) k \<longleftrightarrow> k < szbits sz \<and> bit sv (min (k + cnt) (szbits sz - 1))"
proof -
  obtain m where m: "szbits sz = Suc m" "m < 32" using szbits_range [of sz] by (cases "szbits sz") auto
  have neg: "sint (sext sv sz) < 0 \<longleftrightarrow> bit sv m"
    using sign_bit_sval [of sz sv] by (simp add: sval_def sign_bit_def m)
  have small: "bit sv k \<longleftrightarrow> k < Suc m \<and> bit sv (min k m)"
    using sized_bit [OF assms, of k] by (auto simp: min_def m)
  consider "cnt = 0" | "0 < cnt" "cnt < Suc m" | "Suc m \<le> cnt" by linarith
  then show ?thesis
  proof cases
    case 1
    then show ?thesis using small by (simp add: asr_result_def m)
  next
    case 2
    have "bit (signed_drop_bit cnt (sext sv sz)) k \<longleftrightarrow> bit sv (min (k + cnt) m)" if "k < Suc m"
    proof -
      have "min (if 32 - cnt \<le> k \<and> k < 32 then 31 else cnt + k) m = min (k + cnt) m" using m that by auto
      moreover have "(if 32 - cnt \<le> k \<and> k < 32 then 31 else cnt + k) < 32" using m that 2 by auto
      ultimately show ?thesis by (simp add: bit_signed_drop_bit_iff bit_sext m split: if_splits)
    qed
    then show ?thesis using 2 by (auto simp: asr_result_def m bit_simps bit_szmask)
  next
    case 3
    then show ?thesis by (auto simp: asr_result_def m neg bit_szmask min_def)
  qed
qed

lemma asr_steps:
  assumes "sized sz sv"
  shows "\<exists>x'. shift_steps ASR sz cnt sv x =
    (asr_result sz cnt sv, 0 < cnt \<and> bit sv (min (cnt - 1) (szbits sz - 1)), x', False)"
proof (induction cnt)
  case 0
  then show ?case by (simp add: shift_steps_0 asr_result_def)
next
  case (Suc cnt)
  obtain m where m: "szbits sz = Suc m" using szbits_range [of sz] by (cases "szbits sz") auto
  note B = bit_asr_result [OF assms, unfolded m]
  have "shift_in_high sz (sign_bit sz (asr_result sz cnt sv)) (asr_result sz cnt sv) = asr_result sz (Suc cnt) sv"
    by (intro bit_word_eqI) (auto simp: bit_shift_in_high B sign_bit_def min_def m le_antisym)
  moreover have "bit (asr_result sz cnt sv) 0 \<longleftrightarrow> bit sv (min cnt (szbits sz - 1))"
    by (simp add: B m)
  ultimately show ?case
    using Suc by (elim exE) (simp add: shift_steps_Suc)
qed

lemma asr_engine:
  "shift_engine ASR sz cnt sv x =
     (asr_result sz cnt sv, of_bool (0 < cnt \<and> bit sv (min (cnt - 1) (szbits sz - 1))), False)"
proof -
  obtain m where m: "szbits sz = Suc m" using szbits_range [of sz] by (cases "szbits sz") auto
  show ?thesis by (cases cnt) (auto simp: asr_result_def one_bit bit_simps min_def m le_less_Suc_eq)
qed

section \<open>Rotation of a field\<close>

definition rot_left :: "nat \<Rightarrow> nat \<Rightarrow> 'a::len word \<Rightarrow> 'a word" where
  "rot_left w cc v = (if cc \<noteq> 0 then (push_bit cc v OR drop_bit (w - cc) v) AND mask w else v)"

definition rot_right :: "nat \<Rightarrow> nat \<Rightarrow> 'a::len word \<Rightarrow> 'a word" where
  "rot_right w cc v = (if cc \<noteq> 0 then (drop_bit cc v OR push_bit (w - cc) v) AND mask w else v)"

definition field :: "nat \<Rightarrow> 'a::len word \<Rightarrow> bool" where
  "field w v \<longleftrightarrow> w \<le> LENGTH('a) \<and> (\<forall>k. bit v k \<longrightarrow> k < w)"

lemma bit_rot_left:
  fixes v :: "'a::len word"
  assumes "field w v" "cc < w"
  shows "bit (rot_left w cc v) k \<longleftrightarrow> k < w \<and> bit v (if cc \<le> k then k - cc else k + w - cc)"
  using assms by (auto simp: rot_left_def field_def bit_simps add.commute)

lemma bit_rot_right:
  fixes v :: "'a::len word"
  assumes "field w v" "cc < w"
  shows "bit (rot_right w cc v) k \<longleftrightarrow> k < w \<and> bit v (if k + cc < w then k + cc else k + cc - w)"
  using assms by (auto simp: rot_right_def field_def bit_simps add.commute)

lemma wrap_index:
  fixes c k w :: nat
  assumes "c < w" "k < w" "1 < w" and c': "c' = (if Suc c = w then 0 else Suc c)"
  defines "l \<equiv> \<lambda>c k. if c \<le> k then k - c else k + w - c" and "r \<equiv> \<lambda>c k. if k + c < w then k + c else k + c - w"
  shows "l 1 k < w" "l c (l 1 k) = l c' k" "r 1 k < w" "r c (r 1 k) = r c' k"
  using assms(1-3) by (auto simp: l_def r_def c')

lemma rot_Suc:
  fixes v :: "'a::len word"
  assumes v: "field w v" and w: "1 < w"
  shows "rot_left w 1 (rot_left w (n mod w) v) = rot_left w (Suc n mod w) v"
    and "rot_right w 1 (rot_right w (n mod w) v) = rot_right w (Suc n mod w) v"
proof -
  have c: "n mod w < w" "Suc n mod w < w" "Suc n mod w = (if Suc (n mod w) = w then 0 else Suc (n mod w))"
    using w by (simp_all, simp add: mod_Suc)
  note idx = wrap_index [OF c(1) _ w c(3)]
  have f: "field w (rot_left w (n mod w) v)" "field w (rot_right w (n mod w) v)"
    using v c by (simp_all add: field_def bit_rot_left bit_rot_right)
  show "rot_left w 1 (rot_left w (n mod w) v) = rot_left w (Suc n mod w) v"
    using idx(1,2) by (intro bit_word_eqI) (simp only: bit_rot_left [OF f(1) w] bit_rot_left [OF v c(1)] bit_rot_left [OF v c(2)] simp_thms cong: conj_cong)
  show "rot_right w 1 (rot_right w (n mod w) v) = rot_right w (Suc n mod w) v"
    using idx(3,4) by (intro bit_word_eqI) (simp only: bit_rot_right [OF f(2) w] bit_rot_right [OF v c(1)] bit_rot_right [OF v c(2)] simp_thms cong: conj_cong)
qed

section \<open>Rotates\<close>

lemma sized_field: "sized sz v \<longleftrightarrow> field (szbits sz) v"
  using szbits_range [of sz] by (auto simp: field_def sized_bit) (auto simp: sized_def bit_szmask bit_simps intro!: bit_word_eqI)

lemma rotate_one:
  assumes "sized sz v"
  shows "shift_in_low sz (sign_bit sz v) v = rot_left (szbits sz) 1 v"
    and "shift_in_high sz (bit v 0) v = rot_right (szbits sz) 1 v"
proof -
  have w: "1 < szbits sz" by (cases sz) simp_all
  note f = assms [unfolded sized_field]
  show "shift_in_low sz (sign_bit sz v) v = rot_left (szbits sz) 1 v"
    using w by (intro bit_word_eqI) (auto simp: bit_shift_in_low bit_rot_left [OF f] sign_bit_def)
  show "shift_in_high sz (bit v 0) v = rot_right (szbits sz) 1 v"
    using w sized_bit [OF assms] by (intro bit_word_eqI) (auto simp: bit_shift_in_high bit_rot_right [OF f])
qed

lemma sized_rot:
  assumes "sized sz v" "cc < szbits sz"
  shows "sized sz (rot_left (szbits sz) cc v)" "sized sz (rot_right (szbits sz) cc v)"
  using assms unfolding sized_field by (simp_all add: field_def bit_rot_left bit_rot_right)

lemma rol_steps:
  assumes "sized sz sv"
  defines "n \<equiv> szbits sz"
  shows "shift_steps ROL sz cnt sv x =
      (rot_left n (cnt mod n) sv, 0 < cnt \<and> bit (rot_left n (cnt mod n) sv) 0, x, False)"
    and "shift_steps ROR sz cnt sv x =
      (rot_right n (cnt mod n) sv, 0 < cnt \<and> bit (rot_right n (cnt mod n) sv) (n - 1), x, False)"
proof -
  have w: "1 < n" unfolding n_def by (cases sz) simp_all
  note f = assms(1) [unfolded sized_field, folded n_def]
  have s: "sized sz (rot_left n (k mod n) sv)" "sized sz (rot_right n (k mod n) sv)" for k
    using w sized_rot [OF assms(1), folded n_def] by simp_all
  show "shift_steps ROL sz cnt sv x =
      (rot_left n (cnt mod n) sv, 0 < cnt \<and> bit (rot_left n (cnt mod n) sv) 0, x, False)"
  proof (induction cnt)
    case (Suc k)
    have "bit (rot_left n (Suc k mod n) sv) 0 \<longleftrightarrow> sign_bit sz (rot_left n (k mod n) sv)"
      using w s(1) [of k] unfolding rot_Suc(1) [OF f w, symmetric]
      by (simp add: bit_rot_left sized_field sign_bit_def flip: n_def)
    then show ?case
      using Suc s(1) [of k] by (simp add: shift_steps_Suc rotate_one rot_Suc [OF f w, unfolded One_nat_def] flip: n_def)
  qed (simp add: shift_steps_0 rot_left_def)
  show "shift_steps ROR sz cnt sv x =
      (rot_right n (cnt mod n) sv, 0 < cnt \<and> bit (rot_right n (cnt mod n) sv) (n - 1), x, False)"
  proof (induction cnt)
    case (Suc k)
    have "bit (rot_right n (Suc k mod n) sv) (n - 1) \<longleftrightarrow> bit (rot_right n (k mod n) sv) 0"
      using w s(2) [of k] unfolding rot_Suc(2) [OF f w, symmetric]
      by (simp add: bit_rot_right sized_field flip: n_def)
    then show ?case
      using Suc s(2) [of k] by (simp add: shift_steps_Suc rotate_one rot_Suc [OF f w, unfolded One_nat_def] flip: n_def)
  qed (simp add: shift_steps_0 rot_right_def)
qed

lemma rol_engine:
  "shift_engine ROL sz cnt sv x =
     (rot_left (szbits sz) (cnt mod szbits sz) sv, of_bool (0 < cnt \<and> bit (rot_left (szbits sz) (cnt mod szbits sz) sv) 0), False)"
  "shift_engine ROR sz cnt sv x =
     (rot_right (szbits sz) (cnt mod szbits sz) sv,
      of_bool (0 < cnt \<and> bit (rot_right (szbits sz) (cnt mod szbits sz) sv) (szbits sz - 1)), False)"
  by (simp_all add: rot_left_def rot_right_def szmask_mask Let_def one_bit bit_drop_bit_eq)

section \<open>Rotates through the extend bit\<close>

definition wide :: "M68KSize \<Rightarrow> bool \<Rightarrow> u32 \<Rightarrow> u64" where
  "wide sz x v = ucast v OR push_bit (szbits sz) (of_bool x)"

lemma bit_wide:
  assumes "sized sz v"
  shows "bit (wide sz x v) k \<longleftrightarrow> (if k = szbits sz then x else bit v k)"
  using szbits_range [of sz] sized_bit [OF assms, of k] by (auto simp: wide_def bit_simps)

lemma field_wide: "sized sz v \<Longrightarrow> field (Suc (szbits sz)) (wide sz x v)"
  using szbits_range [of sz] sized_bit [of sz v] by (fastforce simp: field_def bit_wide)

lemma sized_shift_in: "sized sz (shift_in_low sz b v)" "sized sz v \<Longrightarrow> sized sz (shift_in_high sz b v)"
proof -
  show "sized sz (shift_in_low sz b v)"
    using szbits_range(2) [of sz] by (simp add: sized_field field_def bit_shift_in_low)
  assume "sized sz v"
  then have "k < szbits sz" if "bit (shift_in_high sz b v) k" for k
    using that szbits_range [of sz] sized_bit [of sz v "Suc k"] by (auto simp: bit_shift_in_high)
  then show "sized sz (shift_in_high sz b v)"
    using szbits_range(2) [of sz] by (simp add: sized_field field_def)
qed

lemma wide_one:
  assumes "sized sz v"
  shows "wide sz (sign_bit sz v) (shift_in_low sz x v) = rot_left (Suc (szbits sz)) 1 (wide sz x v)"
    and "wide sz (bit v 0) (shift_in_high sz x v) = rot_right (Suc (szbits sz)) 1 (wide sz x v)"
proof -
  have w: "0 < szbits sz" by (cases sz) simp_all
  note f = field_wide [OF assms, of x] and B = bit_wide [OF assms]
  show "wide sz (sign_bit sz v) (shift_in_low sz x v) = rot_left (Suc (szbits sz)) 1 (wide sz x v)"
    using w by (intro bit_word_eqI)
      (auto simp: bit_wide sized_shift_in bit_shift_in_low bit_rot_left [OF f] B sign_bit_def dest: sized_bit [OF assms])
  show "wide sz (bit v 0) (shift_in_high sz x v) = rot_right (Suc (szbits sz)) 1 (wide sz x v)"
    using w by (intro bit_word_eqI)
      (auto simp: bit_wide sized_shift_in assms bit_shift_in_high bit_rot_right [OF f] B dest: sized_bit [OF assms])
qed

lemma rox_steps:
  assumes "sized sz sv"
  defines "w \<equiv> Suc (szbits sz)"
  shows "\<exists>v c. shift_steps ROXL sz cnt sv x = (v, c, c, False) \<and> sized sz v
      \<and> wide sz c v = rot_left w (cnt mod w) (wide sz x sv)"
    and "\<exists>v c. shift_steps ROXR sz cnt sv x = (v, c, c, False) \<and> sized sz v
      \<and> wide sz c v = rot_right w (cnt mod w) (wide sz x sv)"
proof -
  have w: "1 < w" unfolding w_def by (cases sz) simp_all
  note rot = rot_Suc [OF field_wide [OF assms(1), of x, folded w_def] w, symmetric]
  show "\<exists>v c. shift_steps ROXL sz cnt sv x = (v, c, c, False) \<and> sized sz v
      \<and> wide sz c v = rot_left w (cnt mod w) (wide sz x sv)"
  proof (induction cnt)
    case 0
    then show ?case using assms(1) by (simp add: shift_steps_0 rot_left_def)
  next
    case (Suc k)
    then obtain v c where "shift_steps ROXL sz k sv x = (v, c, c, False)" "sized sz v"
        "wide sz c v = rot_left w (k mod w) (wide sz x sv)" by blast
    then show ?case
      by (intro exI [of _ "shift_in_low sz c v"] exI [of _ "sign_bit sz v"])
        (simp add: shift_steps_Suc sized_shift_in rot(1) wide_one flip: w_def)
  qed
  show "\<exists>v c. shift_steps ROXR sz cnt sv x = (v, c, c, False) \<and> sized sz v
      \<and> wide sz c v = rot_right w (cnt mod w) (wide sz x sv)"
  proof (induction cnt)
    case 0
    then show ?case using assms(1) by (simp add: shift_steps_0 rot_right_def)
  next
    case (Suc k)
    then obtain v c where "shift_steps ROXR sz k sv x = (v, c, c, False)" "sized sz v"
        "wide sz c v = rot_right w (k mod w) (wide sz x sv)" by blast
    then show ?case
      by (intro exI [of _ "shift_in_high sz c v"] exI [of _ "bit v 0"])
        (simp add: shift_steps_Suc sized_shift_in rot(2) wide_one flip: w_def)
  qed
qed

lemma rox_engine:
  assumes "sized sz sv"
  defines "w \<equiv> Suc (szbits sz)"
  shows "rox_result True sz cnt sv x = rot_left w (cnt mod w) (wide sz x sv)"
    and "rox_result False sz cnt sv x = rot_right w (cnt mod w) (wide sz x sv)"
proof -
  have m: "push_bit (szbits sz + 1) 1 - 1 = (mask w :: u64)"
    by (simp add: mask_eq_exp_minus_1 push_bit_eq_mult w_def)
  have f: "wide sz x sv AND mask w = wide sz x sv"
    using field_wide [OF assms(1), of x] by (intro bit_word_eqI) (auto simp: bit_simps field_def w_def)
  have k: "szbits sz + 1 = w" by (simp add: w_def)
  show "rox_result True sz cnt sv x = rot_left w (cnt mod w) (wide sz x sv)"
    "rox_result False sz cnt sv x = rot_right w (cnt mod w) (wide sz x sv)"
    unfolding rox_result_def Let_def m rot_left_def rot_right_def wide_def [symmetric] unfolding k
    by (simp_all add: f)
qed

lemma wide_parts:
  assumes "sized sz v"
  shows "(ucast (wide sz c v AND ucast (szmask sz)) :: u32) = v" "(ucast (drop_bit (szbits sz) (wide sz c v) AND 1) :: u32) = of_bool c"
proof -
  show "(ucast (wide sz c v AND ucast (szmask sz)) :: u32) = v"
    using sized_bit [OF assms] szbits_range [of sz]
    by (intro bit_word_eqI) (auto simp: bit_simps bit_szmask bit_wide [OF assms])
  have "\<not> bit v k" if "szbits sz \<le> k" for k using that sized_bit [OF assms, of k] by auto
  then show "(ucast (drop_bit (szbits sz) (wide sz c v) AND 1) :: u32) = of_bool c"
    unfolding one_bit by (simp add: bit_drop_bit_eq bit_wide [OF assms])
qed

section \<open>The engine\<close>

text \<open>
C30: The shift and rotate engine, for every operation, operand size and count: result, carry and overflow are those of shifting by one
place count times. In particular overflow of ASL means that the sign changed at some place on the way, the carry is the
last bit shifted out, and the rotates through extend carry the extend bit along. The one combination for which the code
shifts by the width of its own type is excluded.
\<close>
theorem shift_engine_iterated:
  assumes "sv AND szmask sz = sv" and "\<not> shift_undefined mn sz cnt"
  shows "shift_engine mn sz cnt sv x =
    (case shift_steps mn sz cnt sv x of (v, c, _, ov) \<Rightarrow> (v, of_bool c, ov))"
proof -
  have s: "sized sz sv" using assms(1) by (simp add: sized_def)
  show ?thesis
  proof (cases mn)
    case LSL
    then show ?thesis using left_steps(1) [OF s, of cnt x] by (auto simp: left_carry)
  next
    case LSR
    then show ?thesis using lsr_steps [OF s, of cnt x] by (auto simp: lsr_engine [OF s] simp del: shift_engine.simps)
  next
    case ASL
    then show ?thesis using left_steps(2) [OF s, of cnt x] by (auto simp: left_carry asl_overflow_iff [OF s])
  next
    case ASR
    then show ?thesis using asr_steps [OF s, of cnt x] by (auto simp: asr_engine simp del: shift_engine.simps)
  next
    case ROL
    then show ?thesis by (simp add: rol_steps [OF s] rol_engine del: shift_engine.simps)
  next
    case ROR
    then show ?thesis by (simp add: rol_steps [OF s] rol_engine del: shift_engine.simps)
  next
    case ROXL
    obtain v c where v: "shift_steps ROXL sz cnt sv x = (v, c, c, False)" "sized sz v"
      "rot_left (Suc (szbits sz)) (cnt mod Suc (szbits sz)) (wide sz x sv) = wide sz c v"
      using rox_steps(1) [OF s, of cnt x] by metis
    show ?thesis
      unfolding ROXL shift_engine.simps Let_def rox_engine [OF s] v by (simp add: wide_parts v(2) del: of_bool_eq)
  next
    case ROXR
    obtain v c where v: "shift_steps ROXR sz cnt sv x = (v, c, c, False)" "sized sz v"
      "rot_right (Suc (szbits sz)) (cnt mod Suc (szbits sz)) (wide sz x sv) = wide sz c v"
      using rox_steps(2) [OF s, of cnt x] by metis
    show ?thesis
      unfolding ROXR shift_engine.simps Let_def rox_engine [OF s] v by (simp add: wide_parts v(2) del: of_bool_eq)
  qed
qed

theorem shift_engine_iterated_witness:
  "shift_engine ASL M68K_SIZE_B 3 0x51 False = (0x88, 0, True)
    \<and> (case shift_steps ASL M68K_SIZE_B 3 0x51 False of (v, c, _, ov) \<Rightarrow> (v, of_bool c, ov)) = (0x88, 0 :: u32, True)"
proof -
  have "shift_engine ASL M68K_SIZE_B 3 0x51 False = (0x88, 0, True)"
    by (simp add: shift_left_result_def shift_left_carry_def asl_overflow_def Let_def)
  then show ?thesis
    using shift_engine_iterated [of "0x51" M68K_SIZE_B ASL 3 False] by (simp add: shift_undefined_def)
qed

end
