(* ===== verification/Exec_Monad.thy ===== *)
theory Exec_Monad
  imports Cdi_Prelude
begin

text \<open>
  Execution with early exits. A computation maps a state to an outcome and a state: it delivers a value, or
  leaves through the bus-error unwinding (\<^verbatim>\<open>longjmp\<close>), an end of the program
  (\<^verbatim>\<open>abort\<close>, or \<^verbatim>\<open>cdi_fault_hold\<close>, which parks the thread for good), or behaviour C leaves undefined (an
  access beyond an array, unbounded recursion). Effects up to the exit stay in the state.
\<close>

datatype 'a outcome = Done 'a | Bus_Error u32 | Aborted | Undefined

type_synonym ('m, 'a) exec = "'m \<Rightarrow> 'a outcome \<times> 'm"

named_theorems exec_simps \<open>evaluation of computations\<close>

definition ret :: "'a \<Rightarrow> ('m, 'a) exec" where
  "ret x s = (Done x, s)"

definition leave :: "'a outcome \<Rightarrow> ('m, 'a) exec" where
  "leave e s = (e, s)"

definition bindx :: "('m, 'a) exec \<Rightarrow> ('a \<Rightarrow> ('m, 'b) exec) \<Rightarrow> ('m, 'b) exec" where
  "bindx m k s =
     (case m s of
        (Done x, s') \<Rightarrow> k x s'
      | (Bus_Error a, s') \<Rightarrow> (Bus_Error a, s')
      | (Aborted, s') \<Rightarrow> (Aborted, s')
      | (Undefined, s') \<Rightarrow> (Undefined, s'))"

definition thenx :: "('m, 'a) exec \<Rightarrow> ('m, 'b) exec \<Rightarrow> ('m, 'b) exec" where
  "thenx m n = bindx m (\<lambda>_. n)"

definition getx :: "('m \<Rightarrow> 'a) \<Rightarrow> ('m, 'a) exec" where
  "getx f s = (Done (f s), s)"

definition modx :: "('m \<Rightarrow> 'm) \<Rightarrow> ('m, unit) exec" where
  "modx f s = (Done (), f s)"

definition is_done :: "'a outcome \<Rightarrow> bool" where
  "is_done r \<longleftrightarrow> (\<exists>x. r = Done x)"

lemma ret_apply [simp, exec_simps]: "ret x s = (Done x, s)"
  by (simp add: ret_def)

lemma leave_apply [simp, exec_simps]: "leave e s = (e, s)"
  by (simp add: leave_def)

lemma getx_apply [simp, exec_simps]: "getx f s = (Done (f s), s)"
  by (simp add: getx_def)

lemma modx_apply [simp, exec_simps]: "modx f s = (Done (), f s)"
  by (simp add: modx_def)

lemma bindx_done [simp, exec_simps]: "m s = (Done x, s') \<Longrightarrow> bindx m k s = k x s'"
  by (simp add: bindx_def)

lemma bindx_fault [simp, exec_simps]: "m s = (Bus_Error a, s') \<Longrightarrow> bindx m k s = (Bus_Error a, s')"
  by (simp add: bindx_def)

lemma thenx_done [simp, exec_simps]: "m s = (Done x, s') \<Longrightarrow> thenx m k s = k s'"
  by (simp add: thenx_def)

lemma thenx_fault [simp, exec_simps]: "m s = (Bus_Error a, s') \<Longrightarrow> thenx m k s = (Bus_Error a, s')"
  by (simp add: thenx_def)

lemma bindx_basic [simp, exec_simps]:
  "bindx (ret x) k s = k x s" "bindx (getx f) k s = k (f s) s" "bindx (modx g) k' s = k' () (g s)"
  by simp_all

lemma thenx_basic [simp, exec_simps]: "thenx (modx g) n s = n (g s)" "thenx (ret x) n s = n s"
  by simp_all

lemma bindx_cases:
  "bindx m k s = (r, t) \<longleftrightarrow>
     (\<exists>x s'. m s = (Done x, s') \<and> k x s' = (r, t)) \<or>
     (\<exists>a. m s = (Bus_Error a, t) \<and> r = Bus_Error a) \<or>
     (m s = (Aborted, t) \<and> r = Aborted) \<or> (m s = (Undefined, t) \<and> r = Undefined)"
  by (auto simp: bindx_def split: prod.splits outcome.splits)

text \<open>A property of the state that every step of a computation keeps.\<close>

definition keeps :: "('m \<Rightarrow> 'x) \<Rightarrow> ('m, 'a) exec \<Rightarrow> bool" where
  "keeps f m \<longleftrightarrow> (\<forall>s. f (snd (m s)) = f s)"

lemma keepsI [intro]: "(\<And>s. f (snd (m s)) = f s) \<Longrightarrow> keeps f m"
  by (simp add: keeps_def)

lemma keepsD: "keeps f m \<Longrightarrow> f (snd (m s)) = f s"
  by (simp add: keeps_def)

lemma keeps_basic: "keeps f (ret x)" "keeps f (leave e)" "keeps f (getx g)"
  by (simp_all add: keeps_def)

lemma keeps_bindx: "keeps f m \<Longrightarrow> (\<And>x. keeps f (k x)) \<Longrightarrow> keeps f (bindx m k)"
  by (auto simp: keeps_def bindx_def split: prod.splits outcome.splits)
    (metis snd_conv)+

lemma keeps_thenx: "keeps f m \<Longrightarrow> keeps f n \<Longrightarrow> keeps f (thenx m n)"
  by (simp add: thenx_def keeps_bindx)

lemma keeps_if: "keeps f m \<Longrightarrow> keeps f n \<Longrightarrow> keeps f (if b then m else n)"
  by simp

lemmas keeps_rules = keeps_basic keeps_bindx keeps_thenx keeps_if

text \<open>The loop \<open>for (i = 0; i < n; i++) body(i)\<close> over a list of indices.\<close>

fun for_each :: "('i \<Rightarrow> ('m, unit) exec) \<Rightarrow> 'i list \<Rightarrow> ('m, unit) exec" where
  "for_each body [] = ret ()"
| "for_each body (i # is) = thenx (body i) (for_each body is)"

lemma keeps_for_each: "(\<And>i. keeps f (body i)) \<Longrightarrow> keeps f (for_each body is)"
  by (induction "is") (simp_all add: keeps_rules)

end
