(* ===== verification/Scc_Machine.thy ===== *)
theory Scc_Machine
  imports Ikat Phantom_Clock Scc_Periph M68k_Alu Exec_Monad
begin

text \<open>
  The whole machine as one record: the CD board and the serial gate of the earlier theories, the on-chip
  peripherals, the clock, the display controller's registers, memory, the CPU and the runtime's globals
  (\<^verbatim>\<open>runner/src/runtime.c\<close>, \<^verbatim>\<open>cdi_bus.c\<close>, \<^verbatim>\<open>mcd212.c\<close>). The pixel engine \<^verbatim>\<open>mcd212_video.c\<close> appears as an
  arbitrary state of type \<open>'v\<close>. Host-side observation (traces, debugger, native-code bindings) is left out.
\<close>

record Mcd212 =
  vdsc_register :: "u32 \<Rightarrow> u16"
  display_status :: u8
  interrupt_status :: u8
  line_phase_ns :: rat
  raster_line :: u32
  image_line :: u16

record 'v machine = drive_board +
  m_periph :: SccPeripherals
  m_nvram :: PhantomClock
  vdsc :: Mcd212
  m_video :: 'v
  g_ram0 :: "u32 \<Rightarrow> u8"
  g_ram1 :: "u32 \<Rightarrow> u8"
  g_rom :: "u32 \<Rightarrow> u8"
  g_last_access_addr :: u32
  g_cpu :: M68KState
  g_frame_count :: u64
  g_total_cycles :: u64
  g_cycle_accumulator :: u32
  g_audio_cycle_counter :: u32
  g_halted :: bool
  g_fault_opcode :: u16
  g_fault_addr :: u32
  s_illegal_ea :: bool
  g_m68ki_bad_pc :: u32
  g_m68ki_bad_op :: u16
  g_m68ki_discover :: "u32 list"
  input_schedule :: "(u64 \<times> u32) list"
  input_schedule_position :: nat
  s_realtime_pacing :: bool
  s_pace_pending_cycles :: u64

definition upd_cpu :: "(M68KState \<Rightarrow> M68KState) \<Rightarrow> 'v machine \<Rightarrow> 'v machine" where
  "upd_cpu f s = s\<lparr>g_cpu := f (g_cpu s)\<rparr>"

definition upd_vdsc :: "(Mcd212 \<Rightarrow> Mcd212) \<Rightarrow> 'v machine \<Rightarrow> 'v machine" where
  "upd_vdsc f s = s\<lparr>vdsc := f (vdsc s)\<rparr>"

definition dreg :: "nat \<Rightarrow> 'v machine \<Rightarrow> u32" where
  "dreg r s = reg_D (g_cpu s) r"

definition areg :: "nat \<Rightarrow> 'v machine \<Rightarrow> u32" where
  "areg r s = reg_A (g_cpu s) r"

definition set_dreg :: "nat \<Rightarrow> u32 \<Rightarrow> 'v machine \<Rightarrow> 'v machine" where
  "set_dreg r v = upd_cpu (set_D r v)"

definition set_areg :: "nat \<Rightarrow> u32 \<Rightarrow> 'v machine \<Rightarrow> 'v machine" where
  "set_areg r v = upd_cpu (set_A r v)"

lemma g_cpu_upd [simp]: "g_cpu (upd_cpu f s) = f (g_cpu s)"
  by (simp add: upd_cpu_def)

end
