(* ===== verification/Scc_Bus.thy ===== *)
theory Scc_Bus
  imports Scc_Machine
begin

unbundle bit_operations_syntax

text \<open>
  The memory bus (\<^verbatim>\<open>runner/src/cdi_bus.c\<close>): address decoding, big-endian access to RAM and ROM, routing to the
  devices, the bus error, and the DMA burst the CD interface requests (\<^verbatim>\<open>periph.c\<close>). The two word cycles of a
  long read are taken high word first. A 16-bit access at the last byte of a RAM bank reaches beyond the C
  array and has the outcome \<open>Undefined\<close>; store tracing and the native-code write notification are left out.
\<close>

section \<open>Display-controller registers\<close>

abbreviation (input) "MCD212_REGISTER_BASE \<equiv> 0x004FFFE0 :: u32"

definition vreg :: "u32 \<Rightarrow> 'v machine \<Rightarrow> u16" where
  "vreg offset s = vdsc_register (vdsc s) offset"

definition set_vreg :: "u32 \<Rightarrow> u16 \<Rightarrow> 'v machine \<Rightarrow> 'v machine" where
  "set_vreg offset v = upd_vdsc (\<lambda>d. d\<lparr>vdsc_register := (vdsc_register d)(offset := v)\<rparr>)"

definition mcd212_read :: "u32 \<Rightarrow> ('v machine, u32) exec" where
  "mcd212_read address s =
     (if address = 0x004FFFF0 \<or> address = 0x004FFFF1 then (Done (ucast (display_status (vdsc s))), s)
      else if address = 0x004FFFE0 \<or> address = 0x004FFFE1
      then (Done (ucast (interrupt_status (vdsc s))), upd_vdsc (\<lambda>d. d\<lparr>interrupt_status := 0\<rparr>) s)
      else (Aborted, s))"

definition mcd212_write :: "u32 \<Rightarrow> u32 \<Rightarrow> nat \<Rightarrow> ('v machine, unit) exec" where
  "mcd212_write address v sz s =
     (let offset = address - MCD212_REGISTER_BASE; old = vreg offset s
      in if offset \<ge> 32 then (Aborted, s)
         else if sz \<ge> 2 then (Done (), set_vreg offset (ucast v) s)
         else if address AND 1 = 0
         then (Done (), set_vreg offset ((old AND 0x00FF) OR push_bit 8 (ucast (ucast v :: u8))) s)
         else (Done (), set_vreg offset ((old AND 0xFF00) OR ucast (ucast v :: u8)) s))"

section \<open>Decoding\<close>

abbreviation (input) "CDI_RAM_SIZE \<equiv> 0x00080000 :: u32"
abbreviation (input) "CDI_RAM1_BASE \<equiv> 0x00200000 :: u32"
abbreviation (input) "CDI_NVRAM_BASE \<equiv> 0x00320000 :: u32"
abbreviation (input) "CDI_ROM_BASE \<equiv> 0x00400000 :: u32"
abbreviation (input) "CDI_ROM_SIZE \<equiv> 0x00100000 :: u32"
abbreviation (input) "CDI_MCD212_BASE \<equiv> 0x004FFFE0 :: u32"
abbreviation (input) "CDI_PERIPH_BASE \<equiv> 0x80001001 :: u32"
abbreviation (input) "CDI_PERIPH_LAST \<equiv> 0x80008080 :: u32"

datatype BusRegion = RGN_RAM | RGN_ROM | RGN_MCD212 | RGN_CDIC | RGN_SLAVE | RGN_NVRAM | RGN_PERIPH | RGN_NONE

definition in_ram0 :: "u32 \<Rightarrow> bool" where
  "in_ram0 a \<longleftrightarrow> a < CDI_RAM_SIZE"

definition in_ram1 :: "u32 \<Rightarrow> bool" where
  "in_ram1 a \<longleftrightarrow> a - CDI_RAM1_BASE < CDI_RAM_SIZE"

definition classify :: "u32 \<Rightarrow> BusRegion" where
  "classify a =
     (if in_ram0 a then RGN_RAM
      else if in_ram1 a then RGN_RAM
      else if a \<ge> CDI_MCD212_BASE \<and> a \<le> 0x004FFFFF then RGN_MCD212
      else if a \<ge> CDI_ROM_BASE \<and> a < CDI_MCD212_BASE then RGN_ROM
      else if a \<ge> CDI_CDIC_BASE \<and> a < 0x00304000 then RGN_CDIC
      else if a \<ge> CDI_SLAVE_BASE \<and> a < 0x0031001E then RGN_SLAVE
      else if a \<ge> CDI_NVRAM_BASE \<and> a < 0x00330000 then RGN_NVRAM
      else if a \<ge> CDI_PERIPH_BASE \<and> a \<le> CDI_PERIPH_LAST then RGN_PERIPH
      else RGN_NONE)"

text \<open>A RAM byte by bus address, and the byte after it in the same bank.\<close>

definition ram_byte :: "u32 \<Rightarrow> 'v machine \<Rightarrow> u8" where
  "ram_byte a s = (if in_ram0 a then g_ram0 s a else g_ram1 s (a - CDI_RAM1_BASE))"

definition set_ram_byte :: "u32 \<Rightarrow> u8 \<Rightarrow> 'v machine \<Rightarrow> 'v machine" where
  "set_ram_byte a v s =
     (if in_ram0 a then s\<lparr>g_ram0 := (g_ram0 s)(a := v)\<rparr>
      else s\<lparr>g_ram1 := (g_ram1 s)(a - CDI_RAM1_BASE := v)\<rparr>)"

definition last_ram_byte :: "u32 \<Rightarrow> bool" where
  "last_ram_byte a \<longleftrightarrow> a = 0x0007FFFF \<or> a = 0x0027FFFF"

definition note_access :: "u32 \<Rightarrow> 'v machine \<Rightarrow> 'v machine" where
  "note_access a s = s\<lparr>g_last_access_addr := a\<rparr>"

definition cdi_bus_load_rom :: "u8 list \<Rightarrow> 'v machine \<Rightarrow> 'v machine" where
  "cdi_bus_load_rom src s =
     (let n = min (length src) (unat CDI_ROM_SIZE)
      in s\<lparr>g_rom := (\<lambda>a. if unat a < n then src ! unat a else g_rom s a)\<rparr>)"

section \<open>Device routing\<close>

definition cdic_bus_read :: "u32 \<Rightarrow> nat \<Rightarrow> ('v machine, u32) exec" where
  "cdic_bus_read a sz s = (case cdic_read a sz s of None \<Rightarrow> (Aborted, s) | Some (v, s') \<Rightarrow> (Done v, s'))"

definition slave_bus_read :: "u32 \<Rightarrow> ('v machine, u32) exec" where
  "slave_bus_read a s = (let (v, s') = slave_read a s in (Done v, s'))"

definition periph_bus_read :: "u32 \<Rightarrow> nat \<Rightarrow> ('v machine, u32) exec" where
  "periph_bus_read a sz s = (let (v, p) = periph_read a sz (m_periph s) in (Done v, s\<lparr>m_periph := p\<rparr>))"

definition nvram_index :: "u32 \<Rightarrow> u16" where
  "nvram_index a = ucast (drop_bit 1 (a - CDI_NVRAM_BASE))"

definition nvram_bus_read :: "u32 \<Rightarrow> ('v machine, u8) exec" where
  "nvram_bus_read a s = (let (v, r) = nvram_get_byte (nvram_index a) (m_nvram s) in (Done v, s\<lparr>m_nvram := r\<rparr>))"

definition nvram_bus_write :: "u32 \<Rightarrow> u8 \<Rightarrow> ('v machine, unit) exec" where
  "nvram_bus_write a v s = (Done (), s\<lparr>m_nvram := nvram_set_byte (nvram_index a) v (m_nvram s)\<rparr>)"

definition mapx :: "('a \<Rightarrow> 'b) \<Rightarrow> ('m, 'a) exec \<Rightarrow> ('m, 'b) exec" where
  "mapx f m = bindx m (\<lambda>x. ret (f x))"

section \<open>Reads\<close>

definition m68k_read8 :: "u32 \<Rightarrow> ('v machine, u8) exec" where
  "m68k_read8 a s0 =
     (let s = note_access a s0
      in case classify a of
           RGN_RAM \<Rightarrow> (Done (ram_byte a s), s)
         | RGN_ROM \<Rightarrow> (Done (g_rom s (a - CDI_ROM_BASE)), s)
         | RGN_MCD212 \<Rightarrow> mapx ucast (mcd212_read a) s
         | RGN_CDIC \<Rightarrow> mapx ucast (cdic_bus_read a 1) s
         | RGN_SLAVE \<Rightarrow> mapx ucast (slave_bus_read a) s
         | RGN_PERIPH \<Rightarrow> mapx ucast (periph_bus_read a 1) s
         | RGN_NVRAM \<Rightarrow> if a AND 1 \<noteq> 0 then (Bus_Error a, s) else nvram_bus_read a s
         | RGN_NONE \<Rightarrow> (Bus_Error a, s))"

definition m68k_read16 :: "u32 \<Rightarrow> ('v machine, u16) exec" where
  "m68k_read16 a s0 =
     (let s = note_access a s0
      in case classify a of
           RGN_RAM \<Rightarrow> if last_ram_byte a then (Undefined, s) else (Done (be16 (ram_byte a s) (ram_byte (a + 1) s)), s)
         | RGN_ROM \<Rightarrow> (Done (be16 (g_rom s (a - CDI_ROM_BASE)) (g_rom s (a - CDI_ROM_BASE + 1))), s)
         | RGN_MCD212 \<Rightarrow> mapx ucast (mcd212_read a) s
         | RGN_CDIC \<Rightarrow> mapx ucast (cdic_bus_read a 2) s
         | RGN_SLAVE \<Rightarrow> mapx ucast (slave_bus_read a) s
         | RGN_PERIPH \<Rightarrow> mapx ucast (periph_bus_read a 2) s
         | RGN_NVRAM \<Rightarrow> mapx (\<lambda>v. push_bit 8 (ucast v)) (nvram_bus_read a) s
         | RGN_NONE \<Rightarrow> (Bus_Error a, s))"

definition m68k_read32 :: "u32 \<Rightarrow> ('v machine, u32) exec" where
  "m68k_read32 a =
     bindx (m68k_read16 a) (\<lambda>hi. bindx (m68k_read16 (a + 2)) (\<lambda>lo.
       thenx (modx (note_access a)) (ret (push_bit 16 (ucast hi) OR ucast lo))))"

section \<open>Writes\<close>

text \<open>
  \<open>dma\<close> carries out a DMA request raised by the CD interface during the write. The burst itself writes
  through the bus, so the request handler is a parameter that \<open>ciap_dma\<close> below ties to a nesting depth.
\<close>

definition cdic_bus_write :: "(u16 \<Rightarrow> ('v machine, unit) exec) \<Rightarrow> u32 \<Rightarrow> u32 \<Rightarrow> nat \<Rightarrow> ('v machine, unit) exec" where
  "cdic_bus_write dma a v sz s =
     (case cdic_write a v sz s of
        (s', None) \<Rightarrow> (Done (), s')
      | (s', Some control) \<Rightarrow> dma control s')"

definition write8_with :: "(u16 \<Rightarrow> ('v machine, unit) exec) \<Rightarrow> u32 \<Rightarrow> u8 \<Rightarrow> ('v machine, unit) exec" where
  "write8_with dma a v s0 =
     (let s = note_access a s0
      in case classify a of
           RGN_RAM \<Rightarrow> (Done (), set_ram_byte a v s)
         | RGN_ROM \<Rightarrow> (Done (), s)
         | RGN_MCD212 \<Rightarrow> mcd212_write a (ucast v) 1 s
         | RGN_CDIC \<Rightarrow> cdic_bus_write dma a (ucast v) 1 s
         | RGN_SLAVE \<Rightarrow> (Done (), slave_write a (ucast v) s)
         | RGN_PERIPH \<Rightarrow> (Done (), s\<lparr>m_periph := periph_write a (ucast v) 1 (m_periph s)\<rparr>)
         | RGN_NVRAM \<Rightarrow> if a AND 1 \<noteq> 0 then (Bus_Error a, s) else nvram_bus_write a v s
         | RGN_NONE \<Rightarrow> (Bus_Error a, s))"

definition write16_with :: "(u16 \<Rightarrow> ('v machine, unit) exec) \<Rightarrow> u32 \<Rightarrow> u16 \<Rightarrow> ('v machine, unit) exec" where
  "write16_with dma a v s0 =
     (let s = note_access a s0
      in case classify a of
           RGN_RAM \<Rightarrow> if last_ram_byte a then (Undefined, s)
             else (Done (), set_ram_byte (a + 1) (ucast v) (set_ram_byte a (ucast (drop_bit 8 v)) s))
         | RGN_ROM \<Rightarrow> (Done (), s)
         | RGN_MCD212 \<Rightarrow> mcd212_write a (ucast v) 2 s
         | RGN_CDIC \<Rightarrow> cdic_bus_write dma a (ucast v) 2 s
         | RGN_SLAVE \<Rightarrow> (Done (), slave_write a (ucast v) s)
         | RGN_PERIPH \<Rightarrow> (Done (), s\<lparr>m_periph := periph_write a (ucast v) 2 (m_periph s)\<rparr>)
         | RGN_NVRAM \<Rightarrow> nvram_bus_write a (ucast (drop_bit 8 v)) s
         | RGN_NONE \<Rightarrow> (Bus_Error a, s))"

section \<open>The CD interface's DMA burst\<close>

definition pull_word :: "('v machine, u16) exec" where
  "pull_word s = (let (v, s') = cdic_dma_pull_word s in (Done v, s'))"

fun dma_words :: "(u32 \<Rightarrow> u16 \<Rightarrow> ('v machine, unit) exec) \<Rightarrow> bool \<Rightarrow> nat \<Rightarrow> u32 \<Rightarrow> ('v machine, u32) exec" where
  "dma_words w to_memory 0 a = ret a"
| "dma_words w to_memory (Suc n) a =
     (if to_memory
      then bindx pull_word (\<lambda>v. thenx (w a v) (dma_words w to_memory n (a + 2)))
      else bindx (m68k_read16 a) (\<lambda>v. thenx (modx (cdic_dma_push_word v)) (dma_words w to_memory n (a + 2))))"

definition dma_begin :: "SccPeripherals \<Rightarrow> SccPeripherals" where
  "dma_begin p = set_byte REG_DMA1_CER 0 (set_byte REG_DMA1_CSR (bytes p REG_DMA1_CSR OR 0x08) p)"

definition dma_end :: "u32 \<Rightarrow> SccPeripherals \<Rightarrow> SccPeripherals" where
  "dma_end memory_address p =
     (let p1 = store_long REG_DMA1_MAR memory_address (store_counter REG_DMA1_MTC 0 p);
          p2 = set_byte REG_DMA1_CSR ((bytes p1 REG_DMA1_CSR AND NOT 0x08) OR 0x80) p1
      in set_byte REG_DMA1_CCR (bytes p2 REG_DMA1_CCR AND NOT 0x80) p2)"

definition periph_ciap_dma_request ::
  "(u32 \<Rightarrow> u16 \<Rightarrow> ('v machine, unit) exec) \<Rightarrow> u16 \<Rightarrow> ('v machine, unit) exec" where
  "periph_ciap_dma_request w control s =
     (if control AND 0x4000 = 0 \<or> bytes (m_periph s) REG_DMA1_CCR AND 0x80 = 0 then (Done (), s)
      else
        let n = unat (load_counter (m_periph s) REG_DMA1_MTC);
            a = load_long (m_periph s) REG_DMA1_MAR
        in thenx (modx (\<lambda>s. s\<lparr>m_periph := dma_begin (m_periph s)\<rparr>))
             (bindx (dma_words w (control AND 0x2000 \<noteq> 0) n a) (\<lambda>a'.
               thenx (modx (\<lambda>s. s\<lparr>m_periph := dma_end a' (m_periph s)\<rparr>)) (modx cdic_dma_complete))) s)"

text \<open>
  A burst whose target is the CD interface's own control register can raise a further request inside the
  burst. \<open>depth\<close> bounds that nesting; a request beyond it is the C program's unbounded recursion.
\<close>

primrec ciap_dma :: "nat \<Rightarrow> u16 \<Rightarrow> ('v machine, unit) exec" where
  "ciap_dma 0 = (\<lambda>_. leave Undefined)"
| "ciap_dma (Suc depth) = periph_ciap_dma_request (write16_with (ciap_dma depth))"

abbreviation (input) "dma_depth \<equiv> 16 :: nat"

definition m68k_write8 :: "u32 \<Rightarrow> u8 \<Rightarrow> ('v machine, unit) exec" where
  "m68k_write8 = write8_with (ciap_dma dma_depth)"

definition m68k_write16 :: "u32 \<Rightarrow> u16 \<Rightarrow> ('v machine, unit) exec" where
  "m68k_write16 = write16_with (ciap_dma dma_depth)"

definition m68k_write32 :: "u32 \<Rightarrow> u32 \<Rightarrow> ('v machine, unit) exec" where
  "m68k_write32 a v =
     thenx (m68k_write16 a (ucast (drop_bit 16 v)))
       (thenx (m68k_write16 (a + 2) (ucast v)) (modx (note_access a)))"

text \<open>The debugger's side-effect-free read: RAM and ROM only.\<close>

definition debug_peek8 :: "u32 \<Rightarrow> 'v machine \<Rightarrow> u8 option" where
  "debug_peek8 a s =
     (case classify a of
        RGN_RAM \<Rightarrow> Some (ram_byte a s)
      | RGN_ROM \<Rightarrow> Some (g_rom s (a - CDI_ROM_BASE))
      | _ \<Rightarrow> None)"

end
