(* ===== verification/M68k_Operands.thy ===== *)
theory M68k_Operands
  imports Scc_Bus
begin

unbundle bit_operations_syntax

text \<open>
  Decoded instructions and operand access (\<^verbatim>\<open>runner/src/m68k_interp.c\<close>). The decoder lives in a separate
  repository; \<open>M68KInstr\<close> has the fields of its result that the interpreter reads. Register numbers and
  effective addresses are integers because the decoder marks an absent one with \<open>- 1\<close>.
\<close>

section \<open>Decoded instructions\<close>

text \<open>The mnemonic enumeration, grouped the way \<open>exec_one\<close> groups its cases.\<close>

datatype move_mn = MN_MOVE | MN_MOVEA | MN_MOVEQ | MN_LEA | MN_PEA | MN_TST | MN_CLR | MN_EXT | MN_SWAP | MN_EXG

datatype alu_mn = MN_ADD | MN_SUB | MN_ADDA | MN_SUBA | MN_CMP | MN_CMPA | MN_CMPM | MN_AND | MN_OR | MN_EOR
  | MN_ADDQ | MN_SUBQ

datatype imm_mn = MN_ADDI | MN_SUBI | MN_CMPI | MN_ANDI | MN_ORI | MN_EORI

datatype flow_mn = MN_BRA | MN_Bcc | MN_BSR | MN_DBcc | MN_JMP | MN_JSR | MN_RTS | MN_RTR | MN_STOP | MN_RESET
  | MN_RTE | MN_TRAP

datatype bit_mn = MN_BTST | MN_BCHG | MN_BCLR | MN_BSET

datatype unary_mn = MN_NEG | MN_NEGX | MN_NOT | MN_TAS

datatype muldiv_mn = MN_MULU | MN_MULS | MN_DIVU | MN_DIVS

datatype system_mn = MN_MOVEM | MN_LINK | MN_UNLK | MN_Scc | MN_MOVE_SR | MN_MOVE_CCR | MN_MOVE_USP
  | MN_ADDX | MN_SUBX | MN_ABCD | MN_SBCD | MN_NBCD

datatype sr_mn = MN_ORI_TO_CCR | MN_ORI_TO_SR | MN_ANDI_TO_CCR | MN_ANDI_TO_SR | MN_EORI_TO_CCR | MN_EORI_TO_SR

datatype other_mn = MN_MOVEP | MN_CHK | MN_MOVEC | MN_TRAPV | MN_ILLEGAL | MN_OTHER

datatype M68KMnemonic = MN_NOP | Move move_mn | Alu alu_mn | Imm imm_mn | Flow flow_mn | Shift shift_op | Bit bit_mn
  | Unary unary_mn | MulDiv muldiv_mn | System system_mn | ImmSR sr_mn | Other other_mn

record M68KInstr =
  i_addr :: u32
  words :: "nat \<Rightarrow> u16"
  byte_length :: u32
  mnemonic :: M68KMnemonic
  i_size :: M68KSize
  src_ea :: int
  dst_ea :: int
  i_reg :: int
  imm32 :: u32
  target_addr :: u32
  predec_mem_form :: bool
  mem_shift :: bool
  dst_is_ea :: bool

definition rn :: "M68KInstr \<Rightarrow> nat" where
  "rn ins = nat (i_reg ins)"

definition ea_mode :: "int \<Rightarrow> nat" where
  "ea_mode ea = nat (ea div 8 mod 8)"

definition ea_reg :: "int \<Rightarrow> nat" where
  "ea_reg ea = nat (ea mod 8)"

section \<open>Extension words\<close>

record ExtR =
  wi :: nat
  bp :: u32

definition er_init :: ExtR where
  "er_init = \<lparr>wi = 1, bp = 2\<rparr>"

definition er_init_at :: "nat \<Rightarrow> ExtR" where
  "er_init_at w = \<lparr>wi = w, bp = of_nat (w * 2)\<rparr>"

definition er_next :: "M68KInstr \<Rightarrow> ExtR \<Rightarrow> u16 \<times> ExtR" where
  "er_next ins e = (words ins (wi e), e\<lparr>wi := wi e + 1, bp := bp e + 2\<rparr>)"

definition er_next_dword :: "M68KInstr \<Rightarrow> ExtR \<Rightarrow> u32 \<times> ExtR" where
  "er_next_dword ins e =
     (let (hi, e1) = er_next ins e; (lo, e2) = er_next ins e1 in (push_bit 16 (ucast hi) OR ucast lo, e2))"

definition er_next_imm :: "M68KInstr \<Rightarrow> M68KSize \<Rightarrow> ExtR \<Rightarrow> u32 \<times> ExtR" where
  "er_next_imm ins sz e =
     (if sz = M68K_SIZE_L then er_next_dword ins e
      else let (w, e1) = er_next ins e in (if sz = M68K_SIZE_B then ucast (w AND 0xFF) else ucast w, e1))"

section \<open>Memory operands\<close>

fun mem_read :: "M68KSize \<Rightarrow> u32 \<Rightarrow> ('v machine, u32) exec" where
  "mem_read M68K_SIZE_B a = mapx ucast (m68k_read8 a)"
| "mem_read M68K_SIZE_L a = m68k_read32 a"
| "mem_read M68K_SIZE_W a = mapx ucast (m68k_read16 a)"

fun mem_write :: "M68KSize \<Rightarrow> u32 \<Rightarrow> u32 \<Rightarrow> ('v machine, unit) exec" where
  "mem_write M68K_SIZE_B a v = m68k_write8 a (ucast v)"
| "mem_write M68K_SIZE_L a v = m68k_write32 a v"
| "mem_write M68K_SIZE_W a v = m68k_write16 a (ucast v)"

section \<open>Effective addresses\<close>

definition sx16 :: "u16 \<Rightarrow> u32" where
  "sx16 w = scast w"

definition sx8 :: "u16 \<Rightarrow> u32" where
  "sx8 ext = scast (ucast ext :: u8)"

text \<open>The index register of a brief extension word, as a word or a long.\<close>

definition index_register :: "u16 \<Rightarrow> M68KState \<Rightarrow> u32" where
  "index_register ext c =
     (let xreg = unat (drop_bit 12 ext AND 7) in if bit ext 15 then reg_A c xreg else reg_D c xreg)"

definition index_value :: "u16 \<Rightarrow> M68KState \<Rightarrow> u32" where
  "index_value ext c =
     (if bit ext 11 then index_register ext c else scast (ucast (index_register ext c) :: u16))"

definition addr_ea :: "M68KInstr \<Rightarrow> int \<Rightarrow> ExtR \<Rightarrow> M68KState \<Rightarrow> u32 \<times> ExtR" where
  "addr_ea ins ea er c =
     (let mode = ea_mode ea; r = ea_reg ea
      in if mode = 2 then (reg_A c r, er)
         else if mode = 5 then
           let (d16, er1) = er_next ins er in (reg_A c r + sx16 d16, er1)
         else if mode = 6 then
           let (ext, er1) = er_next ins er in (reg_A c r + index_value ext c + sx8 ext, er1)
         else if mode = 7 \<and> r = 0 then
           let (ext, er1) = er_next ins er in (sx16 ext, er1)
         else if mode = 7 \<and> r = 1 then er_next_dword ins er
         else if mode = 7 \<and> r = 2 then
           let pc = i_addr ins + bp er; (d16, er1) = er_next ins er in (pc + sx16 d16, er1)
         else if mode = 7 \<and> r = 3 then
           let pc = i_addr ins + bp er; (ext, er1) = er_next ins er in (pc + index_value ext c + sx8 ext, er1)
         else (0, er))"

definition step_bytes :: "nat \<Rightarrow> M68KSize \<Rightarrow> u32" where
  "step_bytes r sz = (if r = 7 \<and> sz = M68K_SIZE_B then 2 else szbytes sz)"

text \<open>
  \<open>read_ea_ex\<close> returns the operand and the reader after its extension words. The address arithmetic of its
  modes 5 to 7.3 is the same as in \<open>addr_ea\<close>.
\<close>

definition read_ea_ex :: "M68KInstr \<Rightarrow> int \<Rightarrow> M68KSize \<Rightarrow> ExtR \<Rightarrow> bool \<Rightarrow> ('v machine, u32 \<times> ExtR) exec" where
  "read_ea_ex ins ea sz er rmw =
     (let mode = ea_mode ea; r = ea_reg ea; sb = step_bytes r sz
      in if mode = 0 then getx (\<lambda>s. (dreg r s, er))
         else if mode = 1 then getx (\<lambda>s. (areg r s, er))
         else if mode = 3 then
           bindx (getx (areg r)) (\<lambda>a. bindx (mem_read sz a) (\<lambda>v.
             thenx (modx (\<lambda>s. if \<not> rmw then set_areg r (areg r s + sb) s else s)) (ret (v, er))))
         else if mode = 4 then
           thenx (modx (\<lambda>s. set_areg r (areg r s - sb) s))
             (bindx (getx (areg r)) (\<lambda>a. mapx (\<lambda>v. (v, er)) (mem_read sz a)))
         else if mode = 7 \<and> r = 4 then ret (er_next_imm ins sz er)
         else if mode = 7 \<and> 4 < r then ret (0, er)
         else bindx (getx (\<lambda>s. addr_ea ins ea er (g_cpu s))) (\<lambda>(a, er1). mapx (\<lambda>v. (v, er1)) (mem_read sz a)))"

definition read_ea :: "M68KInstr \<Rightarrow> int \<Rightarrow> M68KSize \<Rightarrow> ExtR \<Rightarrow> ('v machine, u32 \<times> ExtR) exec" where
  "read_ea ins ea sz er = read_ea_ex ins ea sz er False"

definition write_ea_ex :: "M68KInstr \<Rightarrow> int \<Rightarrow> M68KSize \<Rightarrow> ExtR \<Rightarrow> u32 \<Rightarrow> bool \<Rightarrow> ('v machine, unit) exec" where
  "write_ea_ex ins ea sz er v rmw =
     (let mode = ea_mode ea; r = ea_reg ea; sb = step_bytes r sz
      in if mode = 0 then modx (upd_cpu (store_dn r v sz))
         else if mode = 1 then modx (\<lambda>s. s\<lparr>s_illegal_ea := True\<rparr>)
         else if mode = 3 then
           bindx (getx (areg r)) (\<lambda>a. thenx (mem_write sz a v) (modx (\<lambda>s. set_areg r (areg r s + sb) s)))
         else if mode = 4 then
           thenx (modx (\<lambda>s. if \<not> rmw then set_areg r (areg r s - sb) s else s))
             (bindx (getx (areg r)) (\<lambda>a. mem_write sz a v))
         else if mode = 7 \<and> 1 < r then ret ()
         else bindx (getx (\<lambda>s. fst (addr_ea ins ea er (g_cpu s)))) (\<lambda>a. mem_write sz a v))"

definition write_ea :: "M68KInstr \<Rightarrow> int \<Rightarrow> M68KSize \<Rightarrow> ExtR \<Rightarrow> u32 \<Rightarrow> ('v machine, unit) exec" where
  "write_ea ins ea sz er v = write_ea_ex ins ea sz er v False"

text \<open>
  The read-modify-write shape shared by the arithmetic cases: read without post-increment, compute the
  result and the condition codes, then write through the same operand. The codes are set before the write,
  so a faulting write finds them updated.
\<close>

definition rmw_ea ::
  "M68KInstr \<Rightarrow> M68KSize \<Rightarrow> ExtR \<Rightarrow> (u32 \<Rightarrow> M68KState \<Rightarrow> u32 \<times> M68KState) \<Rightarrow> ('v machine, unit) exec" where
  "rmw_ea ins sz er compute =
     bindx (read_ea_ex ins (src_ea ins) sz er True) (\<lambda>(v, _).
       bindx (getx (\<lambda>s. compute (v AND szmask sz) (g_cpu s))) (\<lambda>(r, c).
         thenx (modx (\<lambda>s. s\<lparr>g_cpu := c\<rparr>)) (write_ea_ex ins (src_ea ins) sz er r True)))"

section \<open>Stack\<close>

definition push32 :: "u32 \<Rightarrow> ('v machine, unit) exec" where
  "push32 v =
     thenx (modx (\<lambda>s. set_areg 7 (areg 7 s - 4) s)) (bindx (getx (areg 7)) (\<lambda>a. m68k_write32 a v))"

definition pop32 :: "('v machine, u32) exec" where
  "pop32 =
     bindx (getx (areg 7)) (\<lambda>a. bindx (m68k_read32 a) (\<lambda>v.
       thenx (modx (\<lambda>s. set_areg 7 (areg 7 s + 4) s)) (ret v)))"

definition push16 :: "u16 \<Rightarrow> ('v machine, unit) exec" where
  "push16 v =
     thenx (modx (\<lambda>s. set_areg 7 (areg 7 s - 2) s)) (bindx (getx (areg 7)) (\<lambda>a. m68k_write16 a v))"

definition pop16 :: "('v machine, u16) exec" where
  "pop16 =
     bindx (getx (areg 7)) (\<lambda>a. bindx (m68k_read16 a) (\<lambda>v.
       thenx (modx (\<lambda>s. set_areg 7 (areg 7 s + 2) s)) (ret v)))"

end
