(* ===== verification/M68k_Exception.thy ===== *)
theory M68k_Exception
  imports M68k_Operands
begin

unbundle bit_operations_syntax

text \<open>
  Exception entry and interrupt delivery (\<^verbatim>\<open>runner/src/runtime.c\<close>): the short and the 34-byte access-fault
  frame, STOP, the acceptance of the highest pending interrupt and the guest return push. The dispatch of the
  handler itself (generated code or interpreter) is outside this theory.
\<close>

definition write_access_fault_tail :: "u32 \<Rightarrow> u32 \<Rightarrow> ('v machine, unit) exec" where
  "write_access_fault_tail frame transfer_program_fault =
     thenx (m68k_write16 (frame + 8) 0) (
     thenx (m68k_write16 (frame + 10) 0) (
     thenx (m68k_write16 (frame + 12) 0) (
     thenx (m68k_write16 (frame + 14) 0) (
     thenx (m68k_write32 (frame + 16) 0) (
     thenx (m68k_write32 (frame + 20) transfer_program_fault) (
     thenx (m68k_write32 (frame + 24) 0) (
     bindx (getx g_fault_opcode) (\<lambda>opcode.
     thenx (m68k_write16 (frame + 28) opcode) (
     thenx (m68k_write16 (frame + 30) opcode) (
     m68k_write16 (frame + 32) 0))))))))))"

definition enter_supervisor :: "u32 \<Rightarrow> 'v machine \<Rightarrow> 'v machine" where
  "enter_supervisor frame_size s =
     (let s1 = upd_cpu (m68k_set_sr (SR (g_cpu s) OR SR_S)) s in set_areg 7 (areg 7 s1 - frame_size) s1)"

definition build_exception_frame :: "u8 \<Rightarrow> ('v machine, u32) exec" where
  "build_exception_frame vec =
     (let access_fault = (vec = 2 \<or> vec = 3) in
      bindx (getx (\<lambda>s. (g_last_access_addr s, SR (g_cpu s), PC (g_cpu s)))) (\<lambda>(transfer_program_fault, sr, pc).
      thenx (modx (enter_supervisor (if access_fault then 34 else 8))) (
      bindx (getx (areg 7)) (\<lambda>frame.
      thenx (m68k_write16 frame sr) (
      thenx (m68k_write32 (frame + 2) pc) (
      thenx (m68k_write16 (frame + 6) ((if access_fault then 0xF000 else 0) OR push_bit 2 (ucast vec))) (
      thenx (if access_fault then write_access_fault_tail frame transfer_program_fault else ret ()) (
      bindx (m68k_read32 (push_bit 2 (ucast vec))) (\<lambda>handler.
      thenx (modx (upd_cpu (\<lambda>c. c\<lparr>PC := handler\<rparr>))) (ret handler))))))))))"

definition m68k_raise_exception_frame :: "u8 \<Rightarrow> ('v machine, unit) exec" where
  "m68k_raise_exception_frame vec = thenx (build_exception_frame vec) (ret ())"

definition genesis_stop_until_interrupt :: "u16 \<Rightarrow> 'v machine \<Rightarrow> 'v machine" where
  "genesis_stop_until_interrupt sr_imm s = (upd_cpu (m68k_set_sr sr_imm) s)\<lparr>g_halted := True\<rparr>"

definition recomp_push_return :: "u32 \<Rightarrow> ('v machine, unit) exec" where
  "recomp_push_return ret_addr = push32 (ret_addr AND 0xFFFFFF)"

section \<open>Interrupts\<close>

text \<open>
  Whether an interrupt is accepted, and the bookkeeping before the frame is built: the pending edge is
  consumed, the STOP latch cleared and the vector chosen.
\<close>

definition irq_accepted :: "u16 \<Rightarrow> irq \<Rightarrow> bool" where
  "irq_accepted sr i =
     (let lvl = recomp_pending_irq_level i; ipm = unat (drop_bit 8 sr AND 7)
      in lvl \<noteq> 0 \<and> (lvl = 7 \<or> lvl > ipm))"

definition consume_irq :: "irq \<Rightarrow> u8 \<times> irq" where
  "consume_irq i =
     (let lvl = recomp_pending_irq_level i; b = level_bit (of_nat lvl)
      in if irq_onchip_pending i AND b \<noteq> 0
         then (of_nat (56 + lvl), i\<lparr>irq_onchip_pending := irq_onchip_pending i AND NOT b\<rparr>)
         else
           let vec = irq_external_vector i (of_nat lvl)
           in (if vec = 0 then of_nat (24 + lvl) else vec,
               i\<lparr>irq_pending := irq_pending i AND NOT b,
                 irq_external_vector := (irq_external_vector i)(of_nat lvl := 0)\<rparr>))"

end
