(* ===== verification/M68k_Exec.thy ===== *)
theory M68k_Exec
  imports M68k_Exception
begin

unbundle bit_operations_syntax

text \<open>
  \<open>exec_one\<close> of the interpreter (\<^verbatim>\<open>runner/src/m68k_interp.c\<close>), one definition per group of mnemonics. Each
  returns the program counter of the next instruction; \<open>None\<close> is the loud halt \<^verbatim>\<open>M68KI_HALT_UNIMPL\<close>.
\<close>

section \<open>Helpers\<close>

definition fall :: "M68KInstr \<Rightarrow> u32" where
  "fall ins = i_addr ins + byte_length ins"

definition discover :: "u32 \<Rightarrow> 'v machine \<Rightarrow> 'v machine" where
  "discover t s =
     (let t' = t AND 0xFFFFFF; ds = g_m68ki_discover s
      in if t' \<in> set ds \<or> length ds \<ge> 512 then s else s\<lparr>g_m68ki_discover := ds @ [t']\<rparr>)"

definition set_flags :: "(M68KState \<Rightarrow> M68KState) \<Rightarrow> ('v machine, unit) exec" where
  "set_flags f = modx (upd_cpu f)"

definition upd_sr :: "(u16 \<Rightarrow> u16) \<Rightarrow> M68KState \<Rightarrow> M68KState" where
  "upd_sr f c = c\<lparr>SR := f (SR c)\<rparr>"

section \<open>Moves\<close>

definition exchange :: "u16 \<Rightarrow> M68KState \<Rightarrow> M68KState" where
  "exchange w c =
     (let opmode = drop_bit 3 w AND 0x1F; rx = unat (drop_bit 9 w AND 7); ry = unat (w AND 7)
      in if opmode = 0x08 then set_D ry (reg_D c rx) (set_D rx (reg_D c ry) c)
         else if opmode = 0x09 then set_A ry (reg_A c rx) (set_A rx (reg_A c ry) c)
         else set_A ry (reg_D c rx) (set_D rx (reg_A c ry) c))"

definition extend :: "M68KSize \<Rightarrow> nat \<Rightarrow> M68KState \<Rightarrow> M68KState" where
  "extend sz r c =
     (if sz = M68K_SIZE_W
      then let v = scast (ucast (reg_D c r) :: u8) in flags_logic v M68K_SIZE_W (store_dn r v M68K_SIZE_W c)
      else let v = scast (ucast (reg_D c r) :: u16) in flags_logic v M68K_SIZE_L (set_D r v c))"

definition exec_move :: "move_mn \<Rightarrow> M68KInstr \<Rightarrow> ('v machine, unit) exec" where
  "exec_move mn ins =
     (let er = er_init; sz = i_size ins
      in case mn of
        MN_MOVE \<Rightarrow> bindx (read_ea ins (src_ea ins) sz er) (\<lambda>(v, er1).
          thenx (set_flags (flags_logic v sz)) (write_ea ins (dst_ea ins) sz er1 v))
      | MN_MOVEA \<Rightarrow> bindx (read_ea ins (src_ea ins) sz er) (\<lambda>(v, _). modx (set_areg (rn ins) (sext v sz)))
      | MN_MOVEQ \<Rightarrow>
          let v = scast (ucast (imm32 ins) :: u8)
          in set_flags (\<lambda>c. flags_logic v M68K_SIZE_L (set_D (rn ins) v c))
      | MN_LEA \<Rightarrow> modx (\<lambda>s. set_areg (rn ins) (fst (addr_ea ins (src_ea ins) er (g_cpu s))) s)
      | MN_PEA \<Rightarrow> bindx (getx (\<lambda>s. fst (addr_ea ins (src_ea ins) er (g_cpu s)))) push32
      | MN_TST \<Rightarrow> bindx (read_ea ins (src_ea ins) sz er) (\<lambda>(v, _). set_flags (flags_logic v sz))
      | MN_CLR \<Rightarrow> thenx (set_flags (upd_sr (\<lambda>sr. (sr AND NOT 0x0F) OR SR_Z))) (write_ea ins (src_ea ins) sz er 0)
      | MN_EXT \<Rightarrow> set_flags (extend sz (rn ins))
      | MN_SWAP \<Rightarrow> set_flags (\<lambda>c.
          let v = reg_D c (rn ins); w = drop_bit 16 v OR push_bit 16 v
          in flags_logic w M68K_SIZE_L (set_D (rn ins) w c))
      | MN_EXG \<Rightarrow> set_flags (exchange (words ins 0)))"

section \<open>Binary arithmetic and logic\<close>

definition logic :: "M68KSize \<Rightarrow> u32 \<Rightarrow> M68KState \<Rightarrow> u32 \<times> M68KState" where
  "logic sz r c = (r, flags_logic r sz c)"

definition to_register :: "nat \<Rightarrow> M68KSize \<Rightarrow> u32 \<times> M68KState \<Rightarrow> M68KState" where
  "to_register r sz = (\<lambda>(v, c). store_dn r v sz c)"

definition dir_to_ea :: "M68KInstr \<Rightarrow> bool" where
  "dir_to_ea ins \<longleftrightarrow> bit (words ins 0) 8"

definition exec_add_sub :: "bool \<Rightarrow> M68KInstr \<Rightarrow> ('v machine, unit) exec" where
  "exec_add_sub isadd ins =
     (let er = er_init; sz = i_size ins; m = szmask sz; r = rn ins
      in if \<not> dir_to_ea ins
         then bindx (read_ea ins (src_ea ins) sz er) (\<lambda>(v, _).
                set_flags (\<lambda>c. to_register r sz (add_sub isadd sz (reg_D c r AND m) (v AND m) c)))
         else rmw_ea ins sz er (\<lambda>a c. add_sub isadd sz a (reg_D c r AND m) c))"

definition exec_and_or :: "bool \<Rightarrow> M68KInstr \<Rightarrow> ('v machine, unit) exec" where
  "exec_and_or isand ins =
     (let er = er_init; sz = i_size ins; m = szmask sz; r = rn ins; f = (\<lambda>a b. if isand then a AND b else a OR b)
      in if \<not> dir_to_ea ins
         then bindx (read_ea ins (src_ea ins) sz er) (\<lambda>(v, _).
                set_flags (\<lambda>c. to_register r sz (logic sz (f (reg_D c r AND m) (v AND m)) c)))
         else rmw_ea ins sz er (\<lambda>a c. logic sz (f a (reg_D c r AND m)) c))"

definition exec_cmpm :: "M68KInstr \<Rightarrow> ('v machine, unit) exec" where
  "exec_cmpm ins =
     (let ay = ea_reg (src_ea ins); ax = rn ins; sz = i_size ins; m = szmask sz
      in bindx (getx (areg ay)) (\<lambda>pb. bindx (mem_read sz pb) (\<lambda>vb.
         thenx (modx (\<lambda>s. set_areg ay (areg ay s + step_bytes ay sz) s))
        (bindx (getx (areg ax)) (\<lambda>pa. bindx (mem_read sz pa) (\<lambda>va.
         thenx (modx (\<lambda>s. set_areg ax (areg ax s + step_bytes ax sz) s))
           (set_flags (flags_cmp (va AND m) (vb AND m) ((va AND m) - (vb AND m)) sz))))))))"

definition exec_quick :: "bool \<Rightarrow> M68KInstr \<Rightarrow> ('v machine, unit) exec" where
  "exec_quick isadd ins =
     (let q = (if imm32 ins \<noteq> 0 then imm32 ins else 8); r = ea_reg (src_ea ins); sz = i_size ins
      in if ea_mode (src_ea ins) = 1
         then modx (\<lambda>s. set_areg r (if isadd then areg r s + q else areg r s - q) s)
         else rmw_ea ins sz er_init (\<lambda>a. add_sub isadd sz a q))"

definition exec_alu :: "alu_mn \<Rightarrow> M68KInstr \<Rightarrow> ('v machine, unit) exec" where
  "exec_alu mn ins =
     (let er = er_init; sz = i_size ins; m = szmask sz; r = rn ins
      in case mn of
        MN_ADD \<Rightarrow> exec_add_sub True ins
      | MN_SUB \<Rightarrow> exec_add_sub False ins
      | MN_ADDA \<Rightarrow> bindx (read_ea ins (src_ea ins) sz er) (\<lambda>(v, _). modx (\<lambda>s. set_areg r (areg r s + sext v sz) s))
      | MN_SUBA \<Rightarrow> bindx (read_ea ins (src_ea ins) sz er) (\<lambda>(v, _). modx (\<lambda>s. set_areg r (areg r s - sext v sz) s))
      | MN_CMP \<Rightarrow> bindx (read_ea ins (src_ea ins) sz er) (\<lambda>(v, _).
          set_flags (\<lambda>c. let a = reg_D c r AND m; b = v AND m in flags_cmp a b (a - b) sz c))
      | MN_CMPA \<Rightarrow> bindx (read_ea ins (src_ea ins) sz er) (\<lambda>(v, _).
          set_flags (\<lambda>c. let a = reg_A c r; b = sext v sz in flags_cmp a b (a - b) M68K_SIZE_L c))
      | MN_CMPM \<Rightarrow> exec_cmpm ins
      | MN_AND \<Rightarrow> exec_and_or True ins
      | MN_OR \<Rightarrow> exec_and_or False ins
      | MN_EOR \<Rightarrow> rmw_ea ins sz er (\<lambda>a c. logic sz (a XOR (reg_D c r AND m)) c)
      | MN_ADDQ \<Rightarrow> exec_quick True ins
      | MN_SUBQ \<Rightarrow> exec_quick False ins)"

definition exec_imm :: "imm_mn \<Rightarrow> M68KInstr \<Rightarrow> ('v machine, unit) exec" where
  "exec_imm mn ins =
     (let sz = i_size ins; m = szmask sz; (imm, er1) = er_next_imm ins sz er_init; im = imm AND m
      in case mn of
        MN_CMPI \<Rightarrow> bindx (read_ea ins (src_ea ins) sz er1) (\<lambda>(v, _).
          let a = v AND m in set_flags (flags_cmp a im (a - im) sz))
      | MN_ADDI \<Rightarrow> rmw_ea ins sz er1 (\<lambda>a. add_sub True sz a im)
      | MN_SUBI \<Rightarrow> rmw_ea ins sz er1 (\<lambda>a. add_sub False sz a im)
      | MN_ANDI \<Rightarrow> rmw_ea ins sz er1 (\<lambda>a. logic sz (a AND im))
      | MN_ORI \<Rightarrow> rmw_ea ins sz er1 (\<lambda>a. logic sz (a OR im))
      | MN_EORI \<Rightarrow> rmw_ea ins sz er1 (\<lambda>a. logic sz (a XOR im)))"

section \<open>Control flow\<close>

definition cc_of :: "M68KInstr \<Rightarrow> u16" where
  "cc_of ins = drop_bit 8 (words ins 0) AND 0xF"

definition exec_dbcc :: "M68KInstr \<Rightarrow> ('v machine, u32) exec" where
  "exec_dbcc ins s =
     (if eval_cond (cc_of ins) (g_cpu s) then (Done (fall ins), s)
      else
        let dn = ((dreg (rn ins) s AND 0xFFFF) - 1) AND 0xFFFF
        in (Done (if dn \<noteq> 0xFFFF then target_addr ins else fall ins),
            upd_cpu (store_dn (rn ins) dn M68K_SIZE_W) s))"

definition exec_rte :: "('v machine, u32) exec" where
  "exec_rte =
     bindx pop16 (\<lambda>w. bindx pop32 (\<lambda>pc. bindx pop16 (\<lambda>fmt.
       thenx (modx (\<lambda>s. if fmt AND 0xF000 = 0xF000 then set_areg 7 (areg 7 s + 26) s else s))
         (thenx (modx (upd_cpu (m68k_set_sr (w AND 0xA71F)))) (ret pc)))))"

definition exec_trap :: "M68KInstr \<Rightarrow> ('v machine, u32) exec" where
  "exec_trap ins =
     thenx (modx (upd_cpu (\<lambda>c. c\<lparr>PC := fall ins AND 0xFFFFFF\<rparr>)))
       (thenx (m68k_raise_exception_frame (0x20 + ucast (imm32 ins AND 0xF))) (getx (\<lambda>s. PC (g_cpu s))))"

definition exec_flow :: "flow_mn \<Rightarrow> M68KInstr \<Rightarrow> ('v machine, u32) exec" where
  "exec_flow mn ins =
     (case mn of
        MN_BRA \<Rightarrow> ret (target_addr ins)
      | MN_Bcc \<Rightarrow> getx (\<lambda>s. if eval_cond (cc_of ins) (g_cpu s) then target_addr ins else fall ins)
      | MN_BSR \<Rightarrow> thenx (modx (discover (target_addr ins))) (thenx (push32 (fall ins)) (ret (target_addr ins)))
      | MN_DBcc \<Rightarrow> exec_dbcc ins
      | MN_JMP \<Rightarrow> bindx (getx (\<lambda>s. fst (addr_ea ins (src_ea ins) er_init (g_cpu s)))) (\<lambda>t.
          thenx (modx (discover t)) (ret t))
      | MN_JSR \<Rightarrow> bindx (getx (\<lambda>s. fst (addr_ea ins (src_ea ins) er_init (g_cpu s)))) (\<lambda>t.
          thenx (modx (discover t)) (thenx (push32 (fall ins)) (ret t)))
      | MN_RTS \<Rightarrow> pop32
      | MN_RTR \<Rightarrow> bindx pop16 (\<lambda>ccr.
          thenx (set_flags (upd_sr (\<lambda>sr. (sr AND 0xFF00) OR (ccr AND 0xFF)))) pop32)
      | MN_STOP \<Rightarrow> thenx (modx (genesis_stop_until_interrupt (ucast (imm32 ins)))) (ret (fall ins))
      | MN_RESET \<Rightarrow> ret (fall ins)
      | MN_RTE \<Rightarrow> exec_rte
      | MN_TRAP \<Rightarrow> exec_trap ins)"

section \<open>Shifts and bit operations\<close>

definition mem_shift_word :: "shift_op \<Rightarrow> u32 \<Rightarrow> M68KState \<Rightarrow> u32 \<times> M68KState" where
  "mem_shift_word mn sv c =
     (let (res, cy, v) = mem_shift_result mn sv (bit (SR c) 4)
      in (res, upd_sr (shift_sr mn False M68K_SIZE_W res cy v) c))"

definition exec_shift :: "shift_op \<Rightarrow> M68KInstr \<Rightarrow> ('v machine, unit) exec" where
  "exec_shift mn ins =
     (if mem_shift ins then rmw_ea ins M68K_SIZE_W er_init (mem_shift_word mn)
      else
        let sz = i_size ins; reg_count = src_ea ins \<ge> 0; creg = nat (src_ea ins); imm_count = unat (imm32 ins AND 63)
        in bindx (getx (shift_count reg_count creg imm_count \<circ> g_cpu)) (\<lambda>cnt.
             if shift_undefined mn sz cnt then leave Undefined
             else set_flags (do_shift mn (rn ins) sz reg_count creg imm_count)))"

definition test_bit_sr :: "u32 \<Rightarrow> nat \<Rightarrow> M68KState \<Rightarrow> M68KState" where
  "test_bit_sr src bn = upd_sr (\<lambda>sr. (sr AND NOT SR_Z) OR flag (\<not> bit src bn) SR_Z)"

definition exec_bit :: "bit_mn \<Rightarrow> M68KInstr \<Rightarrow> ('v machine, unit) exec" where
  "exec_bit mn ins =
     (let is_imm = i_reg ins < 0; on_dn = ea_mode (src_ea ins) = 0;
          bit_mask = (if on_dn then 31 else 7); bsz = (if on_dn then M68K_SIZE_L else M68K_SIZE_B);
          er = (if is_imm then er_init_at 2 else er_init)
      in bindx (getx (\<lambda>s. unat ((if is_imm then imm32 ins else dreg (rn ins) s) AND bit_mask))) (\<lambda>bn.
        case mn of
          MN_BTST \<Rightarrow> bindx (read_ea ins (src_ea ins) bsz er) (\<lambda>(v, _). set_flags (test_bit_sr (v AND szmask bsz) bn))
        | MN_BCHG \<Rightarrow> rmw_ea ins bsz er (\<lambda>a c. (a XOR push_bit bn 1, test_bit_sr a bn c))
        | MN_BCLR \<Rightarrow> rmw_ea ins bsz er (\<lambda>a c. (a AND NOT (push_bit bn 1), test_bit_sr a bn c))
        | MN_BSET \<Rightarrow> rmw_ea ins bsz er (\<lambda>a c. (a OR push_bit bn 1, test_bit_sr a bn c))))"

definition negx :: "M68KSize \<Rightarrow> u32 \<Rightarrow> M68KState \<Rightarrow> u32 \<times> M68KState" where
  "negx sz a c =
     (let sign = push_bit (szbits sz - 1) 1; x = bit (SR c) 4; zold = bit (SR c) 2;
          subtrahend = (ucast a :: u64) + of_bool x;
          r = ucast (0 - subtrahend) AND szmask sz
      in (r, upd_sr (\<lambda>sr. (sr AND NOT 0x1F) OR flag (r = 0 \<and> zold) SR_Z OR flag (r AND sign \<noteq> 0) SR_N
            OR flag (subtrahend \<noteq> 0) (SR_C OR SR_X) OR flag (a = sign \<and> \<not> x) SR_V) c))"

definition exec_unary :: "unary_mn \<Rightarrow> M68KInstr \<Rightarrow> ('v machine, unit) exec" where
  "exec_unary mn ins =
     (let sz = i_size ins; m = szmask sz
      in case mn of
        MN_NOT \<Rightarrow> rmw_ea ins sz er_init (\<lambda>a. logic sz (NOT a AND m))
      | MN_NEGX \<Rightarrow> rmw_ea ins sz er_init (negx sz)
      | MN_NEG \<Rightarrow> rmw_ea ins sz er_init (\<lambda>a c. let r = (0 - a) AND m in (r, flags_sub 0 a r sz c))
      | MN_TAS \<Rightarrow> rmw_ea ins M68K_SIZE_B er_init (\<lambda>a c. (a OR 0x80, flags_logic a M68K_SIZE_B c)))"

definition exec_muldiv :: "muldiv_mn \<Rightarrow> M68KInstr \<Rightarrow> ('v machine, unit) exec" where
  "exec_muldiv mn ins =
     bindx (read_ea ins (src_ea ins) M68K_SIZE_W er_init) (\<lambda>(v, _).
       let s = v AND 0xFFFF; r = rn ins
       in case mn of
         MN_MULU \<Rightarrow> set_flags (\<lambda>c.
           let p = ucast (ucast (reg_D c r) :: u16) * s in flags_logic p M68K_SIZE_L (set_D r p c))
       | MN_MULS \<Rightarrow> set_flags (\<lambda>c.
           let p = scast (ucast (reg_D c r) :: u16) * scast (ucast s :: u16)
           in flags_logic p M68K_SIZE_L (set_D r p c))
       | MN_DIVU \<Rightarrow> set_flags (do_div r s False)
       | MN_DIVS \<Rightarrow> set_flags (do_div r s True))"

section \<open>Register lists\<close>

definition movem_index :: "u16 \<Rightarrow> M68KState \<Rightarrow> u32" where
  "movem_index ext c = scast (ucast (index_register ext c) :: u16)"

definition movem_base :: "M68KInstr \<Rightarrow> M68KState \<Rightarrow> u32" where
  "movem_base ins c =
     (let mode = ea_mode (src_ea ins); r = ea_reg (src_ea ins); er = er_init_at 2;
          ext = fst (er_next ins er); pc = i_addr ins + bp er
      in if mode = 2 \<or> mode = 3 \<or> mode = 4 then reg_A c r
         else if mode = 5 then reg_A c r + sx16 ext
         else if mode = 6 then reg_A c r + movem_index ext c + sx8 ext
         else if mode = 7 \<and> r = 0 then sx16 ext
         else if mode = 7 \<and> r = 1 then fst (er_next_dword ins er)
         else if mode = 7 \<and> r = 2 then pc + sx16 ext
         else if mode = 7 \<and> r = 3 then pc + movem_index ext c + sx8 ext
         else 0)"

text \<open>Register number \<open>i\<close> of a list: 0 to 7 are data, 8 to 15 address registers.\<close>

definition list_register :: "nat \<Rightarrow> M68KState \<Rightarrow> u32" where
  "list_register i c = (if i \<ge> 8 then reg_A c (i - 8) else reg_D c i)"

definition set_list_register :: "nat \<Rightarrow> u32 \<Rightarrow> M68KState \<Rightarrow> M68KState" where
  "set_list_register i v c = (if i \<ge> 8 then set_A (i - 8) v c else set_D i v c)"

definition movem_size :: "M68KSize \<Rightarrow> M68KSize" where
  "movem_size sz = (if sz = M68K_SIZE_L then M68K_SIZE_L else M68K_SIZE_W)"

fun movem_store_down :: "M68KSize \<Rightarrow> nat list \<Rightarrow> u32 \<Rightarrow> ('v machine, u32) exec" where
  "movem_store_down sz [] mb = ret mb"
| "movem_store_down sz (b # bs) mb =
     bindx (getx (\<lambda>s. list_register (15 - b) (g_cpu s))) (\<lambda>rv.
       thenx (mem_write sz (mb - szbytes sz) rv) (movem_store_down sz bs (mb - szbytes sz)))"

fun movem_store_up :: "M68KSize \<Rightarrow> nat list \<Rightarrow> u32 \<Rightarrow> ('v machine, u32) exec" where
  "movem_store_up sz [] mb = ret mb"
| "movem_store_up sz (b # bs) mb =
     bindx (getx (\<lambda>s. list_register b (g_cpu s))) (\<lambda>rv.
       thenx (mem_write sz mb rv) (movem_store_up sz bs (mb + szbytes sz)))"

fun movem_load :: "M68KSize \<Rightarrow> nat list \<Rightarrow> u32 \<Rightarrow> ('v machine, u32) exec" where
  "movem_load sz [] mb = ret mb"
| "movem_load sz (b # bs) mb =
     bindx (mem_read sz mb) (\<lambda>v.
       thenx (modx (upd_cpu (set_list_register b (sext v sz)))) (movem_load sz bs (mb + szbytes sz)))"

definition listed :: "u16 \<Rightarrow> nat list" where
  "listed msk = filter (\<lambda>b. bit msk b) [0..<16]"

definition do_movem :: "M68KInstr \<Rightarrow> M68KSize \<Rightarrow> ('v machine, unit) exec" where
  "do_movem ins isz =
     (let to_reg = bit (words ins 0) 10; bs = listed (words ins 1); sz = movem_size isz;
          mode = ea_mode (src_ea ins); r = ea_reg (src_ea ins);
          settle = (\<lambda>mb. modx (\<lambda>s. if mode = 3 then set_areg r mb s else s))
      in bindx (getx (\<lambda>s. movem_base ins (g_cpu s))) (\<lambda>base.
        if \<not> to_reg \<and> mode = 4 then bindx (movem_store_down sz bs base) (\<lambda>mb. modx (set_areg r mb))
        else if \<not> to_reg then bindx (movem_store_up sz bs base) settle
        else bindx (movem_load sz bs base) settle))"

section \<open>Stack frames, status register, extended and decimal arithmetic\<close>

definition exec_link :: "M68KInstr \<Rightarrow> ('v machine, unit) exec" where
  "exec_link ins =
     (let ar = rn ins
      in thenx (modx (\<lambda>s. set_areg 7 (areg 7 s - 4) s)) (
         bindx (getx (\<lambda>s. (areg 7 s, areg ar s))) (\<lambda>(a, v).
         thenx (m68k_write32 a v) (modx (\<lambda>s.
           let s1 = set_areg ar (areg 7 s) s in set_areg 7 (areg 7 s1 + sx16 (words ins 1)) s1)))))"

definition exec_unlk :: "M68KInstr \<Rightarrow> ('v machine, unit) exec" where
  "exec_unlk ins =
     (let ar = rn ins
      in thenx (modx (\<lambda>s. set_areg 7 (areg ar s) s)) (
         bindx (getx (areg 7)) (\<lambda>a. bindx (m68k_read32 a) (\<lambda>v.
         modx (\<lambda>s. let s1 = set_areg ar v s in set_areg 7 (areg 7 s1 + 4) s1)))))"

definition do_addx_subx :: "M68KInstr \<Rightarrow> M68KSize \<Rightarrow> bool \<Rightarrow> ('v machine, unit) exec" where
  "do_addx_subx ins sz is_add =
     (let w0 = words ins 0; dst = unat (drop_bit 9 w0 AND 7); src = unat (w0 AND 7); m = szmask sz
      in if predec_mem_form ins then
           thenx (modx (\<lambda>s. set_areg src (areg src s - step_bytes src sz) s)) (
           bindx (getx (areg src)) (\<lambda>pb. bindx (mem_read sz pb) (\<lambda>vb.
           thenx (modx (\<lambda>s. set_areg dst (areg dst s - step_bytes dst sz) s)) (
           bindx (getx (areg dst)) (\<lambda>pa. bindx (mem_read sz pa) (\<lambda>va.
           bindx (getx (\<lambda>s. addx_subx is_add sz (va AND m) (vb AND m) (SR (g_cpu s)))) (\<lambda>(r, sr).
           thenx (set_flags (upd_sr (\<lambda>_. sr))) (bindx (getx (areg dst)) (\<lambda>a. mem_write sz a r)))))))))
         else set_flags (\<lambda>c.
           let (r, sr) = addx_subx is_add sz (reg_D c dst AND m) (reg_D c src AND m) (SR c)
           in store_dn dst r sz (c\<lparr>SR := sr\<rparr>)))"

definition bcd_op :: "bool \<Rightarrow> u8 \<Rightarrow> u8 \<Rightarrow> M68KState \<Rightarrow> u8 \<times> M68KState" where
  "bcd_op is_add a b c =
     (let (r, carry) = (if is_add then bcd_add else bcd_sub) a b (bit (SR c) 4)
      in (r, upd_sr (do_bcd_flags r carry) c))"

definition do_bcd :: "M68KInstr \<Rightarrow> bool \<Rightarrow> ('v machine, unit) exec" where
  "do_bcd ins is_add =
     (let dst = rn ins; src = ea_reg (src_ea ins)
      in if predec_mem_form ins then
           thenx (modx (\<lambda>s. set_areg src (areg src s - step_bytes src M68K_SIZE_B) s)) (
           bindx (getx (areg src)) (\<lambda>pb. bindx (m68k_read8 pb) (\<lambda>b.
           thenx (modx (\<lambda>s. set_areg dst (areg dst s - step_bytes dst M68K_SIZE_B) s)) (
           bindx (getx (areg dst)) (\<lambda>pa. bindx (m68k_read8 pa) (\<lambda>a.
           bindx (getx (\<lambda>s. bcd_op is_add a b (g_cpu s))) (\<lambda>(r, c).
           thenx (modx (\<lambda>s. s\<lparr>g_cpu := c\<rparr>)) (m68k_write8 pa r))))))))
         else set_flags (\<lambda>c.
           let (r, c1) = bcd_op is_add (ucast (reg_D c dst)) (ucast (reg_D c src)) c
           in set_D dst ((reg_D c1 dst AND 0xFFFFFF00) OR ucast r) c1))"

definition do_nbcd :: "M68KInstr \<Rightarrow> ('v machine, unit) exec" where
  "do_nbcd ins =
     rmw_ea ins M68K_SIZE_B er_init (\<lambda>a c. apfst ucast (bcd_op False 0 (ucast a) c))"

definition exec_system :: "system_mn \<Rightarrow> M68KInstr \<Rightarrow> ('v machine, unit) exec" where
  "exec_system mn ins =
     (let er = er_init; sz = i_size ins
      in case mn of
        MN_MOVEM \<Rightarrow> do_movem ins sz
      | MN_LINK \<Rightarrow> exec_link ins
      | MN_UNLK \<Rightarrow> exec_unlk ins
      | MN_Scc \<Rightarrow> bindx (getx (\<lambda>s. if eval_cond (cc_of ins) (g_cpu s) then 0xFF else 0))
          (write_ea ins (src_ea ins) M68K_SIZE_B er)
      | MN_MOVE_SR \<Rightarrow>
          if \<not> dst_is_ea ins
          then bindx (read_ea ins (src_ea ins) M68K_SIZE_W er) (\<lambda>(v, _).
                 set_flags (m68k_set_sr (ucast v AND 0xA71F)))
          else bindx (getx (\<lambda>s. ucast (SR (g_cpu s)))) (write_ea ins (src_ea ins) M68K_SIZE_W er)
      | MN_MOVE_CCR \<Rightarrow>
          if \<not> dst_is_ea ins
          then bindx (read_ea ins (src_ea ins) M68K_SIZE_W er) (\<lambda>(v, _).
                 set_flags (upd_sr (\<lambda>sr. (sr AND 0xFF00) OR (ucast v AND 0x1F))))
          else bindx (getx (\<lambda>s. ucast (SR (g_cpu s) AND 0x001F))) (write_ea ins (src_ea ins) M68K_SIZE_W er)
      | MN_MOVE_USP \<Rightarrow>
          if bit (words ins 0) 3 then set_flags (\<lambda>c. set_A (rn ins) (USP c) c)
          else set_flags (\<lambda>c. c\<lparr>USP := reg_A c (rn ins)\<rparr>)
      | MN_ADDX \<Rightarrow> do_addx_subx ins sz True
      | MN_SUBX \<Rightarrow> do_addx_subx ins sz False
      | MN_ABCD \<Rightarrow> do_bcd ins True
      | MN_SBCD \<Rightarrow> do_bcd ins False
      | MN_NBCD \<Rightarrow> do_nbcd ins)"

definition exec_imm_sr :: "sr_mn \<Rightarrow> M68KInstr \<Rightarrow> M68KState \<Rightarrow> M68KState" where
  "exec_imm_sr mn ins c =
     (let i = (ucast (imm32 ins) :: u16)
      in case mn of
        MN_ORI_TO_CCR \<Rightarrow> upd_sr (\<lambda>sr. (sr OR (i AND 0xFF)) AND 0xA71F) c
      | MN_ORI_TO_SR \<Rightarrow> m68k_set_sr ((SR c OR i) AND 0xA71F) c
      | MN_ANDI_TO_CCR \<Rightarrow> upd_sr (\<lambda>sr. (sr AND (0xFF00 OR (i AND 0xFF))) AND 0xA71F) c
      | MN_ANDI_TO_SR \<Rightarrow> m68k_set_sr ((SR c AND i) AND 0xA71F) c
      | MN_EORI_TO_CCR \<Rightarrow> upd_sr (\<lambda>sr. (sr XOR (i AND 0xFF)) AND 0xA71F) c
      | MN_EORI_TO_SR \<Rightarrow> m68k_set_sr ((SR c XOR i) AND 0xA71F) c)"

section \<open>One instruction\<close>

definition fall_through :: "M68KInstr \<Rightarrow> ('v machine, unit) exec \<Rightarrow> ('v machine, u32 option) exec" where
  "fall_through ins m = thenx m (ret (Some (fall ins)))"

definition record_bad :: "u32 \<Rightarrow> u16 \<Rightarrow> 'v machine \<Rightarrow> 'v machine" where
  "record_bad pc op s = s\<lparr>g_m68ki_bad_pc := pc, g_m68ki_bad_op := op\<rparr>"

definition exec_one :: "M68KInstr \<Rightarrow> ('v machine, u32 option) exec" where
  "exec_one ins =
     (case mnemonic ins of
        MN_NOP \<Rightarrow> ret (Some (fall ins))
      | Move mn \<Rightarrow> fall_through ins (exec_move mn ins)
      | Alu mn \<Rightarrow> fall_through ins (exec_alu mn ins)
      | Imm mn \<Rightarrow> fall_through ins (exec_imm mn ins)
      | Flow mn \<Rightarrow> mapx Some (exec_flow mn ins)
      | Shift mn \<Rightarrow> fall_through ins (exec_shift mn ins)
      | Bit mn \<Rightarrow> fall_through ins (exec_bit mn ins)
      | Unary mn \<Rightarrow> fall_through ins (exec_unary mn ins)
      | MulDiv mn \<Rightarrow> fall_through ins (exec_muldiv mn ins)
      | System mn \<Rightarrow> fall_through ins (exec_system mn ins)
      | ImmSR mn \<Rightarrow> fall_through ins (set_flags (exec_imm_sr mn ins))
      | Other _ \<Rightarrow> thenx (modx (record_bad (i_addr ins) (words ins 0))) (ret None))"

end
