(* ===== verification/Scc_Bus_Laws.thy ===== *)
theory Scc_Bus_Laws
  imports Scc_Bus Ikat_Laws
begin

unbundle bit_operations_syntax

text \<open>
  Laws of the memory bus: RAM as an array of bytes under 8-, 16- and 32-bit accesses, which addresses fault, and the DMA
  burst. The word view of RAM is the interface the interpreter's stack and register-list laws are proved against.
\<close>

named_theorems ram_simps \<open>RAM reads after writes\<close>

section \<open>RAM as a word store\<close>

definition is_ram :: "u32 \<Rightarrow> bool" where
  "is_ram a \<longleftrightarrow> in_ram0 a \<or> in_ram1 a"

definition ram_word :: "u32 \<Rightarrow> bool" where
  "ram_word a \<longleftrightarrow> is_ram a \<and> \<not> last_ram_byte a"

definition get16 :: "u32 \<Rightarrow> 'v machine \<Rightarrow> u16" where
  "get16 a s = be16 (ram_byte a s) (ram_byte (a + 1) s)"

definition put16 :: "u32 \<Rightarrow> u16 \<Rightarrow> 'v machine \<Rightarrow> 'v machine" where
  "put16 a v s = set_ram_byte (a + 1) (ucast v) (set_ram_byte a (ucast (drop_bit 8 v)) s)"

definition get32 :: "u32 \<Rightarrow> 'v machine \<Rightarrow> u32" where
  "get32 a s = push_bit 16 (ucast (get16 a s)) OR ucast (get16 (a + 2) s)"

definition put32 :: "u32 \<Rightarrow> u32 \<Rightarrow> 'v machine \<Rightarrow> 'v machine" where
  "put32 a v s = put16 (a + 2) (ucast v) (put16 a (ucast (drop_bit 16 v)) s)"

text \<open>\<open>k\<close> bytes from \<open>a\<close> on lie in one bank.\<close>

definition ram_room :: "u32 \<Rightarrow> nat \<Rightarrow> bool" where
  "ram_room a k \<longleftrightarrow> unat a + k \<le> 0x80000 \<or> (0x200000 \<le> unat a \<and> unat a + k \<le> 0x280000)"

lemma in_ram0_unat: "in_ram0 a \<longleftrightarrow> unat a < 0x80000"
  by (simp add: in_ram0_def word_less_nat_alt)

lemma in_ram1_unat: "in_ram1 a \<longleftrightarrow> 0x200000 \<le> unat a \<and> unat a < 0x280000"
proof -
  have "unat (a - 0x200000) = (if 0x200000 \<le> unat a then unat a - 0x200000 else unat a + 0xFFE00000)"
    using u32_less [of a] by (simp add: unat_sub_if_size word_size word_le_nat_alt)
  then show ?thesis using u32_less [of a] by (auto simp: in_ram1_def word_less_nat_alt)
qed

lemma classify_ram: "classify a = RGN_RAM \<longleftrightarrow> is_ram a"
  by (simp add: classify_def is_ram_def)

lemma last_ram_byte_unat: "last_ram_byte a \<longleftrightarrow> unat a = 0x7FFFF \<or> unat a = 0x27FFFF"
  by (simp add: last_ram_byte_def word_unat_eq_iff)

lemma unat_plus1: "unat (a :: u32) < 0x280000 \<Longrightarrow> unat (a + of_nat k) = unat a + k" if "k < 0x1000000"
  using that by (simp add: unat_word_ariths unat_of_nat)

lemma ram_room_word:
  assumes "ram_room a k" and "i + 2 \<le> k"
  shows "ram_word (a + of_nat i)"
proof -
  have "k \<le> 0x280000" using assms(1) by (auto simp: ram_room_def)
  then have "unat (a + of_nat i) = unat a + i"
    using assms by (intro unat_plus1 [rule_format]) (auto simp: ram_room_def)
  then show ?thesis
    using assms by (auto simp: ram_room_def ram_word_def is_ram_def in_ram0_unat in_ram1_unat last_ram_byte_unat)
qed

text \<open>Reads and writes of bytes.\<close>

lemma ram_byte_set [ram_simps]:
  "is_ram a \<Longrightarrow> is_ram b \<Longrightarrow> ram_byte a (set_ram_byte b v s) = (if a = b then v else ram_byte a s)"
  by (auto simp: ram_byte_def set_ram_byte_def is_ram_def in_ram0_unat in_ram1_unat)

lemma ram_byte_note [ram_simps, simp]: "ram_byte a (note_access b s) = ram_byte a s"
  by (simp add: ram_byte_def note_access_def)

lemma set_ram_byte_note: "set_ram_byte a v (note_access b s) = note_access b (set_ram_byte a v s)"
  by (simp add: set_ram_byte_def note_access_def)

lemma note_note [simp]: "note_access a (note_access b s) = note_access a s"
  by (simp add: note_access_def)

lemma ram_word_parts: "ram_word a \<Longrightarrow> is_ram a \<and> is_ram (a + 1) \<and> a \<noteq> a + 1"
  using unat_plus1 [of 1 a] by (auto simp: ram_word_def is_ram_def in_ram0_unat in_ram1_unat last_ram_byte_unat)

text \<open>Reads and writes of words.\<close>

definition apart :: "u32 \<Rightarrow> u32 \<Rightarrow> bool" where
  "apart a b \<longleftrightarrow> a \<noteq> b \<and> a + 1 \<noteq> b \<and> a \<noteq> b + 1"

lemma get16_put16_same [ram_simps, simp]: "ram_word a \<Longrightarrow> get16 a (put16 a v s) = v"
  using ram_word_parts [of a] by (simp add: get16_def put16_def ram_simps)

lemma get16_put16_apart [ram_simps]:
  "ram_word a \<Longrightarrow> ram_word b \<Longrightarrow> apart a b \<Longrightarrow> get16 a (put16 b v s) = get16 a s"
  using ram_word_parts [of a] ram_word_parts [of b] by (simp add: get16_def put16_def ram_simps apart_def)

lemma get16_note [simp]: "get16 a (note_access b s) = get16 a s"
  by (simp add: get16_def)

lemma put16_note: "put16 a v (note_access b s) = note_access b (put16 a v s)"
  by (simp add: put16_def set_ram_byte_note)

lemma get32_note [simp]: "get32 a (note_access b s) = get32 a s"
  by (simp add: get32_def)

lemma put32_note: "put32 a v (note_access b s) = note_access b (put32 a v s)"
  by (simp add: put32_def put16_note)

section \<open>Bus accesses to RAM\<close>

lemma read16_ram [simp]: "ram_word a \<Longrightarrow> m68k_read16 a s = (Done (get16 a s), note_access a s)"
  by (simp add: m68k_read16_def ram_word_def Let_def get16_def flip: classify_ram)

lemma write16_ram [simp]: "ram_word a \<Longrightarrow> m68k_write16 a v s = (Done (), note_access a (put16 a v s))"
  by (simp add: m68k_write16_def write16_with_def ram_word_def Let_def put16_def set_ram_byte_note flip: classify_ram)

definition ram_long :: "u32 \<Rightarrow> bool" where
  "ram_long a \<longleftrightarrow> ram_word a \<and> ram_word (a + 2)"

lemma read32_ram [simp]: "ram_long a \<Longrightarrow> m68k_read32 a s = (Done (get32 a s), note_access a s)"
  by (simp add: m68k_read32_def ram_long_def get32_def)

lemma write32_ram [simp]: "ram_long a \<Longrightarrow> m68k_write32 a v s = (Done (), note_access a (put32 a v s))"
  by (simp add: m68k_write32_def ram_long_def put32_def put16_note)

section \<open>A machine after power-on\<close>

text \<open>The zero-initialised globals after \<open>runtime_init\<close>, with the drive idle; the pixel engine has no state.\<close>

definition cold_machine :: "unit machine" where
  "cold_machine = drive_board.extend idle_drive (machine.fields periph_reset nvram_reset
     \<lparr>vdsc_register = (\<lambda>_. 0), display_status = 0, interrupt_status = 0, line_phase_ns = 0, raster_line = 0, image_line = 0\<rparr>
     () (\<lambda>_. 0) (\<lambda>_. 0) (\<lambda>_. 0) 0
     \<lparr>reg_D = (\<lambda>_. 0), reg_A = (\<lambda>_. 0), SR = 0, PC = 0, USP = 0, SSP = 0\<rparr>
     0 0 43 0 False 0 0 False 0 0 [] [] 0 False 0)"

section \<open>Every byte after a long write\<close>

lemma peek_note [simp]: "debug_peek8 b (note_access a s) = debug_peek8 b s"
  by (simp add: debug_peek8_def note_access_def ram_byte_def split: BusRegion.split)

lemma g_rom_set [simp]: "g_rom (set_ram_byte a v s) = g_rom s"
  by (simp add: set_ram_byte_def)

lemma peek_set:
  "is_ram a \<Longrightarrow> debug_peek8 b (set_ram_byte a v s) = (if b = a then Some v else debug_peek8 b s)"
  using classify_ram [of a] classify_ram [of b]
  by (auto simp: debug_peek8_def ram_byte_set split: BusRegion.split)

lemma peek_put16:
  "ram_word a \<Longrightarrow> debug_peek8 b (put16 a v s) =
     (if b = a then Some (ucast (drop_bit 8 v)) else if b = a + 1 then Some (ucast v) else debug_peek8 b s)"
  using ram_word_parts [of a] by (auto simp: put16_def peek_set)

lemma get32_put32 [ram_simps, simp]: "ram_long a \<Longrightarrow> get32 a (put32 a v s) = v"
  by (simp add: get32_def put32_def ram_long_def ram_simps apart_def)

text \<open>
C33: A long written to RAM reads back, is visible byte by byte in big-endian order, and no other byte of RAM or ROM changes.
\<close>
theorem bus_long_roundtrip:
  assumes "ram_long a"
  shows "\<exists>s1. m68k_write32 a v s = (Done (), s1) \<and> m68k_read32 a s1 = (Done v, s1) \<and>
    (\<forall>b. debug_peek8 b s1 =
      (if b = a then Some (ucast (drop_bit 24 v)) else if b = a + 1 then Some (ucast (drop_bit 16 v))
       else if b = a + 2 then Some (ucast (drop_bit 8 v)) else if b = a + 3 then Some (ucast v) else debug_peek8 b s))"
proof -
  have w: "ram_word a" "ram_word (a + 2)" using assms by (simp_all add: ram_long_def)
  have "(ucast (drop_bit 8 (ucast (drop_bit 16 v) :: u16)) :: u8) = ucast (drop_bit 24 v)"
    "(ucast (ucast (drop_bit 16 v) :: u16) :: u8) = ucast (drop_bit 16 v)"
    "(ucast (drop_bit 8 (ucast v :: u16)) :: u8) = ucast (drop_bit 8 v)" "(ucast (ucast v :: u16) :: u8) = ucast v"
    by (simp_all add: bitwise8)
  then have "debug_peek8 b (put32 a v s) =
      (if b = a then Some (ucast (drop_bit 24 v)) else if b = a + 1 then Some (ucast (drop_bit 16 v))
       else if b = a + 2 then Some (ucast (drop_bit 8 v)) else if b = a + 3 then Some (ucast v) else debug_peek8 b s)" for b
    by (simp add: put32_def peek_put16 w add.assoc)
  then show ?thesis
    using assms by simp
qed

section \<open>Faults\<close>

lemma no_fault_map: "fst (mapx f m s) = Bus_Error e \<longleftrightarrow> fst (m s) = Bus_Error e"
  by (simp add: mapx_def bindx_def split: prod.split outcome.split)

lemma device_reads_no_fault:
  "fst (mcd212_read a s) \<noteq> Bus_Error e" "fst (cdic_bus_read a n s) \<noteq> Bus_Error e" "fst (slave_bus_read a s) \<noteq> Bus_Error e"
  "fst (periph_bus_read a n s) \<noteq> Bus_Error e" "fst (nvram_bus_read a s) \<noteq> Bus_Error e"
  by (auto simp: mcd212_read_def cdic_bus_read_def slave_bus_read_def periph_bus_read_def nvram_bus_read_def
      split: option.split prod.split)


theorem bus_long_roundtrip_witness:
  "ram_long 0x1234 \<and> (\<exists>s1. m68k_write32 0x1234 0xCAFEBABE cold_machine = (Done (), s1) \<and> m68k_read32 0x1234 s1 = (Done 0xCAFEBABE, s1))"
proof -
  have l: "ram_long 0x1234"
    by (simp add: ram_long_def ram_word_def is_ram_def in_ram0_unat last_ram_byte_unat)
  then show ?thesis using bus_long_roundtrip [OF l, of "0xCAFEBABE" cold_machine] by blast
qed

section \<open>Blocks of RAM\<close>

text \<open>A write to RAM touches nothing else, and a pulled word changes only the CD interface.\<close>

lemma put16_frame [simp]:
  "b_ciap (put16 a v s) = b_ciap s" "m_periph (put16 a v s) = m_periph s" "g_cpu (put16 a v s) = g_cpu s"
  "b_ciap (note_access a s) = b_ciap s" "m_periph (note_access a s) = m_periph s" "g_cpu (note_access a s) = g_cpu s"
  by (simp_all add: put16_def set_ram_byte_def note_access_def)

text \<open>Bytes outside \<open>k\<close> bytes from \<open>a\<close> on.\<close>

definition same_elsewhere :: "u32 \<Rightarrow> nat \<Rightarrow> 'v machine \<Rightarrow> 'v machine \<Rightarrow> bool" where
  "same_elsewhere a k s s' \<longleftrightarrow>
     (\<forall>b. (unat a \<le> unat b \<and> unat b < unat a + k) \<or> debug_peek8 b s' = debug_peek8 b s)"

lemma same_elsewhereD:
  "same_elsewhere a k s s' \<Longrightarrow> unat b < unat a \<or> unat a + k \<le> unat b \<Longrightarrow> debug_peek8 b s' = debug_peek8 b s"
  unfolding same_elsewhere_def by (metis not_le)

lemma get16_peek: "ram_word a \<Longrightarrow> get16 a s = be16 (the (debug_peek8 a s)) (the (debug_peek8 (a + 1) s))"
  using ram_word_parts [of a] by (simp add: get16_def debug_peek8_def classify_ram [THEN iffD2])

lemma get16_elsewhere:
  assumes "same_elsewhere a k s s'" "ram_word b" "unat b + 1 < unat a \<or> unat a + k \<le> unat b"
  shows "get16 b s' = get16 b s"
proof -
  have "unat (b + 1) = unat b + 1"
    using assms(2) unat_plus1 [of 1 b] by (auto simp: ram_word_def is_ram_def in_ram0_unat in_ram1_unat)
  then have "debug_peek8 b s' = debug_peek8 b s" "debug_peek8 (b + 1) s' = debug_peek8 (b + 1) s"
    using same_elsewhereD [OF assms(1), of b] same_elsewhereD [OF assms(1), of "b + 1"] assms(3) by auto
  then show ?thesis using assms(2) by (simp add: get16_peek)
qed

lemma ram_room_split:
  assumes "ram_room a (2 * Suc n)"
  shows "ram_word a" "ram_room (a + 2) (2 * n)" "unat (a + 2) = unat a + 2"
proof -
  show "ram_word a" using ram_room_word [OF assms, of 0] by simp
  show u: "unat (a + 2) = unat a + 2" using assms unat_plus1 [of 2 a] by (auto simp: ram_room_def)
  show "ram_room (a + 2) (2 * n)" using assms by (auto simp: ram_room_def u)
qed

end
