(* ===== verification/M68k_Exec_Laws.thy ===== *)
theory M68k_Exec_Laws
  imports M68k_Exec Scc_Bus_Laws
begin

unbundle bit_operations_syntax

text \<open>
  Laws of the interpreter at the level of instructions: stack and exception frames, register lists.
\<close>

section \<open>Exception entry and return\<close>

lemma put_put_frame [simp]:
  "g_cpu (put32 a v s) = g_cpu s" "g_last_access_addr (note_access a s) = a"
  "g_fault_opcode (put16 a w s) = g_fault_opcode s" "g_fault_opcode (put32 a v s) = g_fault_opcode s"
  "g_fault_opcode (note_access a s) = g_fault_opcode s"
  by (simp_all add: put32_def put16_def set_ram_byte_def note_access_def)

lemma cpu_update_frame [simp]:
  "get16 a (upd_cpu f s) = get16 a s" "get32 a (upd_cpu f s) = get32 a s"
  "get16 a (set_areg r v s) = get16 a s" "get32 a (set_areg r v s) = get32 a s"
  "g_cpu (set_areg r v s) = set_A r v (g_cpu s)" "areg r (note_access a s) = areg r s"
  "areg r (put16 a w s) = areg r s" "areg r (put32 a v s) = areg r s" "areg r' (set_areg r v s) = (if r' = r then v else areg r' s)"
  "g_fault_opcode (upd_cpu f s) = g_fault_opcode s" "g_fault_opcode (set_areg r v s) = g_fault_opcode s"
  by (simp_all add: get16_def get32_def ram_byte_def upd_cpu_def set_areg_def areg_def put32_def put16_def set_ram_byte_def)

text \<open>The supervisor stack pointer, wherever it is kept.\<close>

definition supervisor_sp :: "M68KState \<Rightarrow> u32" where
  "supervisor_sp c = (if bit (SR c) 13 then reg_A c 7 else SSP c)"

definition frame_bytes :: "u8 \<Rightarrow> nat" where
  "frame_bytes vec = (if vec = 2 \<or> vec = 3 then 34 else 8)"

lemma unat_vector: "unat (ucast (w :: u8) :: u32) = unat w"
  using u8_less [of w] by (simp add: unsigned_ucast_eq take_bit_nat_eq_self_iff)

lemma low_vector_ram: "ram_long (push_bit 2 (ucast (vec :: u8)))"
proof -
  have "unat (push_bit 2 (ucast vec :: u32)) = 4 * unat vec"
    using u8_less [of vec] by (simp add: push_bit_eq_mult unat_word_ariths unat_vector)
  moreover from this have "unat (push_bit 2 (ucast vec :: u32) + 2) = 4 * unat vec + 2"
    using u8_less [of vec] by (simp add: unat_word_ariths)
  ultimately show ?thesis
    using u8_less [of vec] by (simp add: ram_long_def ram_word_def is_ram_def in_ram0_unat last_ram_byte_unat)
qed

lemma and_sr_s: "w AND 0x2000 \<noteq> 0 \<longleftrightarrow> bit w 13" for w :: u16
  using and_exp_eq_0_iff [of w 13] by simp

lemma enter_supervisor_cpu:
  "g_cpu (enter_supervisor k s) = (let c = g_cpu s in
     c\<lparr>SR := SR c OR SR_S, reg_A := (reg_A c)(7 := supervisor_sp c - k),
       USP := (if bit (SR c) 13 then USP c else reg_A c 7)\<rparr>)"
proof -
  have "(x XOR (x OR 0x2000)) AND 0x2000 \<noteq> 0 \<longleftrightarrow> \<not> bit x 13" for x :: u16
    unfolding and_sr_s by (simp add: bit_simps)
  then show ?thesis
    by (simp add: enter_supervisor_def Let_def m68k_set_sr_def and_sr_s supervisor_sp_def areg_def set_areg_def set_A_def)
qed


lemma frame_words:
  assumes "ram_room f 34"
  shows "ram_word f" "ram_word (f + 2)" "ram_word (f + 4)" "ram_word (f + 6)" "ram_word (f + 8)" "ram_word (f + 10)"
    "ram_word (f + 12)" "ram_word (f + 14)" "ram_word (f + 16)" "ram_word (f + 18)" "ram_word (f + 20)" "ram_word (f + 22)"
    "ram_word (f + 24)" "ram_word (f + 26)" "ram_word (f + 28)" "ram_word (f + 30)" "ram_word (f + 32)"
  using ram_room_word [OF assms, of 0] ram_room_word [OF assms, of 2] ram_room_word [OF assms, of 4] ram_room_word [OF assms, of 6]
    ram_room_word [OF assms, of 8] ram_room_word [OF assms, of 10] ram_room_word [OF assms, of 12] ram_room_word [OF assms, of 14]
    ram_room_word [OF assms, of 16] ram_room_word [OF assms, of 18] ram_room_word [OF assms, of 20] ram_room_word [OF assms, of 22]
    ram_room_word [OF assms, of 24] ram_room_word [OF assms, of 26] ram_room_word [OF assms, of 28] ram_room_word [OF assms, of 30]
    ram_room_word [OF assms, of 32]
  by simp_all

text \<open>The state around the processor that building a frame does not touch.\<close>

definition run_view :: "'v machine \<Rightarrow> irq \<times> bool \<times> u32 \<times> u32" where
  "run_view s = (b_irq s, g_halted s, g_cycle_accumulator s, g_audio_cycle_counter s)"

lemma run_view_simps [simp]:
  "run_view (put16 a w s) = run_view s" "run_view (put32 a v s) = run_view s" "run_view (note_access a s) = run_view s"
  "run_view (upd_cpu f s) = run_view s" "run_view (enter_supervisor k s) = run_view s"
  by (simp_all add: run_view_def put32_def put16_def set_ram_byte_def note_access_def upd_cpu_def enter_supervisor_def set_areg_def Let_def)

lemma fault_tail_run:
  assumes "ram_room f 34"
  shows "\<exists>s'. write_access_fault_tail f tpf s = (Done (), s') \<and> g_cpu s' = g_cpu s
    \<and> get16 f s' = get16 f s \<and> get32 (f + 2) s' = get32 (f + 2) s \<and> get16 (f + 6) s' = get16 (f + 6) s
    \<and> get32 (f + 20) s' = tpf \<and> get16 (f + 28) s' = g_fault_opcode s \<and> run_view s' = run_view s"
  unfolding write_access_fault_tail_def
  by (simp add: ram_long_def frame_words [OF assms] add.assoc)
    (simp add: get32_def put32_def ram_simps frame_words [OF assms] apart_def add.assoc)


text \<open>The stacked frame: what an exception leaves on the supervisor stack.\<close>

definition stacked :: "u8 \<Rightarrow> M68KState \<Rightarrow> u32 \<Rightarrow> 'v machine \<Rightarrow> bool" where
  "stacked vec c f s \<longleftrightarrow> get16 f s = SR c \<and> get32 (f + 2) s = PC c
     \<and> get16 (f + 6) s = (if vec = 2 \<or> vec = 3 then 0xF000 else 0) OR push_bit 2 (ucast vec)"

lemma head_words:
  assumes "ram_room f k" "8 \<le> k"
  shows "ram_word f" "ram_word (f + 2)" "ram_word (f + 4)" "ram_word (f + 6)"
  using assms ram_room_word [OF assms(1), of 0] ram_room_word [OF assms(1), of 2] ram_room_word [OF assms(1), of 4]
    ram_room_word [OF assms(1), of 6] by simp_all

lemma exception_run:
  fixes s :: "'v machine"
  assumes room: "ram_room (supervisor_sp (g_cpu s) - of_nat (frame_bytes vec)) (frame_bytes vec)"
    and f: "f = supervisor_sp (g_cpu s) - of_nat (frame_bytes vec)"
  shows "\<exists>s'. build_exception_frame vec s = (Done (get32 (push_bit 2 (ucast vec)) s'), s') \<and> stacked vec (g_cpu s) f s'
    \<and> g_cpu s' = (g_cpu (enter_supervisor (of_nat (frame_bytes vec)) s))\<lparr>PC := get32 (push_bit 2 (ucast vec)) s'\<rparr>
    \<and> (if vec = 2 \<or> vec = 3 then get32 (f + 20) s' = g_last_access_addr s \<and> get16 (f + 28) s' = g_fault_opcode s else True)
    \<and> run_view s' = run_view s"
proof -
  define s0 where s0: "s0 = enter_supervisor (of_nat (frame_bytes vec)) s"
  have a7: "areg 7 s0 = f" by (simp add: s0 areg_def enter_supervisor_cpu f Let_def)
  have w: "ram_word f" "ram_word (f + 2)" "ram_word (f + 4)" "ram_word (f + 6)"
    using head_words [OF room] by (simp_all add: frame_bytes_def f)
  define fmt :: u16 where fmt: "fmt = (if vec = 2 \<or> vec = 3 then 0xF000 else 0) OR push_bit 2 (ucast vec)"
  define X where X: "X = note_access (f + 6) (put16 (f + 6) fmt (put32 (f + 2) (PC (g_cpu s)) (put16 f (SR (g_cpu s)) s0)))"
  define rest :: "('v machine, u32) exec" where rest: "rest = bindx (m68k_read32 (push_bit 2 (ucast vec))) (\<lambda>handler.
      thenx (modx (upd_cpu (\<lambda>c. c\<lparr>PC := handler\<rparr>))) (ret handler))"
  have size: "(if vec = 2 \<or> vec = 3 then 34 else 8 :: u32) = of_nat (frame_bytes vec)" by (simp add: frame_bytes_def)
  define T :: "('v machine, unit) exec" where T: "T = (if vec = 2 \<or> vec = 3 then write_access_fault_tail f (g_last_access_addr s) else ret ())"
  have "build_exception_frame vec s =
      thenx (m68k_write16 f (SR (g_cpu s))) (thenx (m68k_write32 (f + 2) (PC (g_cpu s))) (thenx (m68k_write16 (f + 6) fmt) (thenx T rest))) s0"
    unfolding build_exception_frame_def Let_def size
    by (simp only: bindx_basic thenx_basic prod.case s0 [symmetric] a7 fmt [symmetric] T [symmetric] rest [symmetric])
  then have run: "build_exception_frame vec s = thenx T rest X"
    using w by (simp add: ram_long_def add.assoc put32_note put16_note X)
  have X': "g_cpu X = g_cpu s0" "stacked vec (g_cpu s) f X" "g_fault_opcode X = g_fault_opcode s" "run_view X = run_view s"
    by (simp_all add: X stacked_def get32_def put32_def ram_simps w apart_def add.assoc fmt)
      (simp_all add: s0, simp add: enter_supervisor_def Let_def)
  have "\<exists>Y. T X = (Done (), Y)
      \<and> g_cpu Y = g_cpu s0 \<and> stacked vec (g_cpu s) f Y
      \<and> (if vec = 2 \<or> vec = 3 then get32 (f + 20) Y = g_last_access_addr s \<and> get16 (f + 28) Y = g_fault_opcode s else True)
      \<and> run_view Y = run_view s"
  proof (cases "vec = 2 \<or> vec = 3")
    case True
    then have "ram_room f 34" using room by (simp add: frame_bytes_def f)
    from fault_tail_run [OF this, of "g_last_access_addr s" X] show ?thesis
      using True X' by (auto simp: stacked_def T)
  qed (use X' in \<open>simp add: T\<close>)
  then obtain Y where Y: "T X = (Done (), Y)"
    "g_cpu Y = g_cpu s0" "stacked vec (g_cpu s) f Y"
    "if vec = 2 \<or> vec = 3 then get32 (f + 20) Y = g_last_access_addr s \<and> get16 (f + 28) Y = g_fault_opcode s else True"
    "run_view Y = run_view s" by blast
  define h where h: "h = get32 (push_bit 2 (ucast vec)) Y"
  have "rest Y = (Done h, upd_cpu (\<lambda>c. c\<lparr>PC := h\<rparr>) (note_access (push_bit 2 (ucast vec)) Y))"
    using low_vector_ram [of vec] by (simp add: rest h)
  then have "build_exception_frame vec s = (Done h, upd_cpu (\<lambda>c. c\<lparr>PC := h\<rparr>) (note_access (push_bit 2 (ucast vec)) Y))"
    unfolding run using Y(1) by (simp only: thenx_done)
  then show ?thesis
    using Y(2-5) by (intro exI [of _ "upd_cpu (\<lambda>c. c\<lparr>PC := h\<rparr>) (note_access (push_bit 2 (ucast vec)) Y)"])
      (simp add: h stacked_def flip: s0)
qed

text \<open>What RTE does with a stacked frame.\<close>

lemma rte_run:
  assumes "stacked vec c f s" "ram_room f (frame_bytes vec)" "areg 7 s = f"
  shows "\<exists>s'. exec_rte s = (Done (PC c), s')
    \<and> g_cpu s' = m68k_set_sr (SR c AND 0xA71F) (set_A 7 (f + of_nat (frame_bytes vec)) (g_cpu s))"
proof -
  have w: "ram_word f" "ram_word (f + 2)" "ram_word (f + 4)" "ram_word (f + 6)"
    using head_words [OF assms(2)] by (simp_all add: frame_bytes_def)
  have "(0xF000 OR push_bit 2 (ucast vec)) AND 0xF000 = (0xF000 :: u16)" "push_bit 2 (ucast vec) AND 0xF000 \<noteq> (0xF000 :: u16)"
    by (simp_all add: bitwise16)
  then show ?thesis
    using assms(1,3) w
    by (simp add: exec_rte_def pop16_def pop32_def ram_long_def stacked_def frame_bytes_def add.assoc set_areg_def areg_def)
      (auto simp: upd_cpu_def set_A_def)
qed

text \<open>
C31: Exception entry followed by RTE resumes the interrupted program: for every vector the frame is built on the supervisor stack and
the processor continues in supervisor mode at the handler named in the vector table; when the handler returns with RTE
at the same stack level, the program counter, all data and address registers, the active stack pointer and the defined
bits of the status register are those before the exception.
\<close>
theorem exception_return:
  assumes "ram_room (supervisor_sp (g_cpu s) - of_nat (frame_bytes vec)) (frame_bytes vec)"
  shows "\<exists>h s1. build_exception_frame vec s = (Done h, s1) \<and> PC (g_cpu s1) = h \<and> bit (SR (g_cpu s1)) 13
      \<and> areg 7 s1 = supervisor_sp (g_cpu s) - of_nat (frame_bytes vec) \<and> h = get32 (4 * ucast vec) s1
      \<and> (\<exists>s2. exec_rte s1 = (Done (PC (g_cpu s)), s2) \<and> reg_D (g_cpu s2) = reg_D (g_cpu s)
          \<and> reg_A (g_cpu s2) = reg_A (g_cpu s) \<and> SR (g_cpu s2) = SR (g_cpu s) AND 0xA71F
          \<and> supervisor_sp (g_cpu s2) = supervisor_sp (g_cpu s))"
proof -
  define f where f: "f = supervisor_sp (g_cpu s) - of_nat (frame_bytes vec)"
  obtain s1 where s1: "build_exception_frame vec s = (Done (get32 (push_bit 2 (ucast vec)) s1), s1)" "stacked vec (g_cpu s) f s1"
    "g_cpu s1 = (g_cpu (enter_supervisor (of_nat (frame_bytes vec)) s))\<lparr>PC := get32 (push_bit 2 (ucast vec)) s1\<rparr>"
    using exception_run [OF assms f] by blast
  have a7: "areg 7 s1 = f" by (simp add: areg_def s1(3) enter_supervisor_cpu Let_def f)
  obtain s2 where s2: "exec_rte s1 = (Done (PC (g_cpu s)), s2)"
    "g_cpu s2 = m68k_set_sr (SR (g_cpu s) AND 0xA71F) (set_A 7 (f + of_nat (frame_bytes vec)) (g_cpu s1))"
    using rte_run [OF s1(2) _ a7] assms f by blast
  have bits: "bit (w AND 0xA71F) 13 = bit w 13" "bit (w OR 0x2000) 13" for w :: u16 by (simp_all add: bit_simps)
  have flip: "bit ((w OR 0x2000) XOR (w AND 0xA71F)) 13 \<longleftrightarrow> \<not> bit w 13" for w :: u16
    by (simp add: bit_simps)
  have cpu2: "reg_D (g_cpu s2) = reg_D (g_cpu s)" "reg_A (g_cpu s2) = reg_A (g_cpu s)" "SR (g_cpu s2) = SR (g_cpu s) AND 0xA71F"
      "supervisor_sp (g_cpu s2) = supervisor_sp (g_cpu s)"
    unfolding s2(2) s1(3) enter_supervisor_cpu
    by (auto simp: Let_def m68k_set_sr_def flip and_sr_s bits supervisor_sp_def f fun_eq_iff set_A_def)
  have "PC (g_cpu s1) = get32 (push_bit 2 (ucast vec)) s1" "bit (SR (g_cpu s1)) 13"
    by (simp_all add: s1(3) enter_supervisor_cpu Let_def bits(2))
  then show ?thesis
    using s1(1) s2(1) cpu2 a7 by (simp add: f push_bit_eq_mult mult.commute)
qed


theorem exception_return_witness:
  "let s = cold_machine\<lparr>g_cpu := \<lparr>reg_D = (\<lambda>i. of_nat i), reg_A = (\<lambda>i. 0x4000 + of_nat i), SR = 0x0015, PC = 0x400100, USP = 0, SSP = 0x2000\<rparr>\<rparr>
   in \<exists>h s1 s2. build_exception_frame 2 s = (Done h, s1) \<and> areg 7 s1 = 0x1FDE \<and> exec_rte s1 = (Done 0x400100, s2)
      \<and> reg_A (g_cpu s2) 7 = 0x4007 \<and> SR (g_cpu s2) = 0x0015"
proof -
  define s where s: "s = cold_machine\<lparr>g_cpu := \<lparr>reg_D = (\<lambda>i. of_nat i), reg_A = (\<lambda>i. 0x4000 + of_nat i), SR = 0x0015, PC = 0x400100, USP = 0, SSP = 0x2000\<rparr>\<rparr>"
  have c: "g_cpu s = \<lparr>reg_D = (\<lambda>i. of_nat i), reg_A = (\<lambda>i. 0x4000 + of_nat i), SR = 0x0015, PC = 0x400100, USP = 0, SSP = 0x2000\<rparr>"
    by (simp add: s)
  have sp: "supervisor_sp (g_cpu s) - of_nat (frame_bytes 2) = 0x1FDE" by (simp add: c supervisor_sp_def frame_bytes_def)
  have "ram_room (supervisor_sp (g_cpu s) - of_nat (frame_bytes 2)) (frame_bytes 2)"
    unfolding sp by (simp add: ram_room_def frame_bytes_def)
  from exception_return [OF this] show ?thesis
    unfolding Let_def s [symmetric] sp by (fastforce simp: c)
qed

end
