(* ===== verification/M68k_Movem_Laws.thy ===== *)
theory M68k_Movem_Laws
  imports M68k_Exec_Laws
begin

unbundle bit_operations_syntax

text \<open>
  Saving and restoring registers with MOVEM. The laws the register-list loops need of memory are an interface, which RAM
  provides at both transfer sizes.
\<close>

section \<open>Blocks of operands\<close>

lemma room_split_top:
  assumes "ram_room lo (k + w)"
  shows "ram_room (lo + of_nat k) w" "ram_room lo k" "unat (lo + of_nat k) = unat lo + k"
proof -
  have "k + w \<le> 0x280000" using assms by (auto simp: ram_room_def)
  then show u: "unat (lo + of_nat k) = unat lo + k"
    using assms u32_less [of lo] by (auto simp: ram_room_def unat_word_ariths unat_of_nat)
  show "ram_room (lo + of_nat k) w" "ram_room lo k"
    using assms by (auto simp: ram_room_def u)
qed

lemma elsewhere_trans:
  assumes "same_elsewhere a k s t" "same_elsewhere b m t u"
    and "unat c \<le> unat a" "unat a + k \<le> unat c + n" "unat c \<le> unat b" "unat b + m \<le> unat c + n"
  shows "same_elsewhere c n s u"
  unfolding same_elsewhere_def
proof
  fix x :: u32
  show "(unat c \<le> unat x \<and> unat x < unat c + n) \<or> debug_peek8 x u = debug_peek8 x s"
    using same_elsewhereD [OF assms(1), of x] same_elsewhereD [OF assms(2), of x] assms(3-) by (cases "unat c \<le> unat x \<and> unat x < unat c + n") auto
qed

lemma elsewhere_0: "same_elsewhere a 0 s t \<longleftrightarrow> (\<forall>b. debug_peek8 b t = debug_peek8 b s)"
  by (auto simp: same_elsewhere_def)

lemma peek_cpu [simp]: "debug_peek8 b (upd_cpu f s) = debug_peek8 b s" "debug_peek8 b (set_areg r v s) = debug_peek8 b s"
  by (simp_all add: debug_peek8_def ram_byte_def upd_cpu_def set_areg_def cong: BusRegion.case_cong)

lemma elsewhere_neutral [simp]:
  "same_elsewhere a k s (note_access b t) = same_elsewhere a k s t" "same_elsewhere a k s (set_areg r v t) = same_elsewhere a k s t"
  "same_elsewhere a k s (upd_cpu f t) = same_elsewhere a k s t" "same_elsewhere a k s s"
  by (simp_all add: same_elsewhere_def)

text \<open>The \<open>k\<close> bytes from \<open>a\<close> on hold the same in both states.\<close>

definition same_block :: "u32 \<Rightarrow> nat \<Rightarrow> 'v machine \<Rightarrow> 'v machine \<Rightarrow> bool" where
  "same_block a k s t \<longleftrightarrow> (\<forall>b. unat a \<le> unat b \<and> unat b < unat a + k \<longrightarrow> debug_peek8 b t = debug_peek8 b s)"

lemma same_block_refl [simp]: "same_block a k s s"
  by (simp add: same_block_def)

lemma same_block_sub: "same_block a k s t \<Longrightarrow> unat a \<le> unat b \<Longrightarrow> unat b + w \<le> unat a + k \<Longrightarrow> same_block b w s t"
  by (auto simp: same_block_def)

lemma get16_block:
  assumes "ram_word a" "same_block a 2 s s'"
  shows "get16 a s' = get16 a s"
proof -
  have "unat (a + 1) = unat a + 1"
    using assms(1) unat_plus1 [of 1 a] by (auto simp: ram_word_def is_ram_def in_ram0_unat in_ram1_unat)
  then have "debug_peek8 a s' = debug_peek8 a s" "debug_peek8 (a + 1) s' = debug_peek8 (a + 1) s"
    using assms(2) by (simp_all add: same_block_def)
  then show ?thesis using assms(1) by (simp add: get16_peek)
qed

locale operand_store =
  fixes sz :: M68KSize and width :: nat
    and get :: "u32 \<Rightarrow> 'v machine \<Rightarrow> u32" and put :: "u32 \<Rightarrow> u32 \<Rightarrow> 'v machine \<Rightarrow> 'v machine"
  assumes width: "szbytes sz = of_nat width"
    and fetch: "ram_room a width \<Longrightarrow> mem_read sz a s = (Done (get a s), note_access a s)"
    and store: "ram_room a width \<Longrightarrow> mem_write sz a v s = (Done (), note_access a (put a v s))"
    and same: "ram_room a width \<Longrightarrow> sext (get a (put a v s)) sz = sext v sz"
    and put_elsewhere: "ram_room a width \<Longrightarrow> same_elsewhere a width s (put a v s)"
    and put_cpu: "g_cpu (put a v s) = g_cpu s"
    and get_local: "ram_room a width \<Longrightarrow> same_block a width s s' \<Longrightarrow> get a s' = get a s"
begin

lemma get_elsewhere:
  "same_elsewhere b k s s' \<Longrightarrow> ram_room a width \<Longrightarrow> unat a + width \<le> unat b \<or> unat b + k \<le> unat a \<Longrightarrow> get a s' = get a s"
  by (rule get_local) (auto simp: same_block_def intro: same_elsewhereD)

lemma get_note: "ram_room a width \<Longrightarrow> get a (note_access b s) = get a s"
  by (rule get_elsewhere [of a 0]) simp_all

lemma store_down_run:
  assumes "ram_room (mb - of_nat (width * length bs)) (width * length bs)"
  shows "\<exists>s'. movem_store_down sz bs mb s = (Done (mb - of_nat (width * length bs)), s') \<and> g_cpu s' = g_cpu s
    \<and> same_elsewhere (mb - of_nat (width * length bs)) (width * length bs) s s'
    \<and> (\<forall>j<length bs. sext (get (mb - of_nat (width * Suc j)) s') sz = sext (list_register (15 - bs ! j) (g_cpu s)) sz)"
  using assms
proof (induction bs arbitrary: mb s)
  case Nil
  then show ?case by simp
next
  case (Cons b bs)
  let ?k = "width * length bs"
  define a where a: "a = mb - of_nat width"
  define lo where lo: "lo = a - of_nat ?k"
  have lo': "mb - of_nat (width * length (b # bs)) = lo" "lo + of_nat ?k = a" by (simp_all add: lo a algebra_simps)
  have "ram_room lo (?k + width)" using Cons.prems unfolding lo' by (simp add: add.commute)
  note room = room_split_top [OF this, unfolded lo']
  define v where v: "v = list_register (15 - b) (g_cpu s)"
  define t where t: "t = note_access a (put a v s)"
  have cpu: "g_cpu t = g_cpu s" by (simp add: t put_cpu)
  have step: "movem_store_down sz (b # bs) mb s = movem_store_down sz bs a t"
    using store [OF room(1), of v s] by (simp add: v t a width)
  obtain s' where s': "movem_store_down sz bs a t = (Done lo, s')" "g_cpu s' = g_cpu t" "same_elsewhere lo ?k t s'"
    "\<forall>j<length bs. sext (get (a - of_nat (width * Suc j)) s') sz = sext (list_register (15 - bs ! j) (g_cpu t)) sz"
    using Cons.IH [of a t] room(2) by (auto simp: lo)
  have first: "sext (get a s') sz = sext v sz"
    using get_elsewhere [OF s'(3) room(1)] room(3) same [OF room(1), of v s] by (simp add: t get_note room(1))
  have "same_elsewhere lo (width * length (b # bs)) s s'"
    using put_elsewhere [OF room(1), of s v] s'(3) room(3) by (intro elsewhere_trans [of a width s t lo ?k s']) (simp_all add: t)
  moreover have "sext (get (mb - of_nat (width * Suc j)) s') sz = sext (list_register (15 - (b # bs) ! j) (g_cpu s)) sz"
    if "j < length (b # bs)" for j
    using that first s'(4) cpu by (cases j) (simp_all add: a v algebra_simps)
  ultimately show ?case
    unfolding lo' by (intro exI [of _ s'] conjI allI impI) (simp_all only: step s'(1,2) cpu)
qed

lemma load_run:
  assumes "ram_room mb (width * length bs)" "distinct bs"
  shows "\<exists>s'. movem_load sz bs mb s = (Done (mb + of_nat (width * length bs)), s') \<and> same_elsewhere mb 0 s s'
    \<and> (\<forall>j<length bs. list_register (bs ! j) (g_cpu s') = sext (get (mb + of_nat (width * j)) s) sz)
    \<and> (\<forall>i. i \<notin> set bs \<longrightarrow> list_register i (g_cpu s') = list_register i (g_cpu s))"
  using assms
proof (induction bs arbitrary: mb s)
  case Nil
  then show ?case by simp
next
  case (Cons b bs)
  have "ram_room mb (width + width * length bs)" using Cons.prems(1) by simp
  note room = room_split_top [OF this]
  have w: "ram_room mb width" using room(2) .
  define v where v: "v = sext (get mb s) sz"
  define t where t: "t = upd_cpu (set_list_register b v) (note_access mb s)"
  have step: "movem_load sz (b # bs) mb s = movem_load sz bs (mb + of_nat width) t"
    using fetch [OF w, of s] by (simp add: v t width)
  obtain s' where s': "movem_load sz bs (mb + of_nat width) t = (Done (mb + of_nat width + of_nat (width * length bs)), s')"
    "same_elsewhere (mb + of_nat width) 0 t s'"
    "\<forall>j<length bs. list_register (bs ! j) (g_cpu s') = sext (get (mb + of_nat width + of_nat (width * j)) t) sz"
    "\<forall>i. i \<notin> set bs \<longrightarrow> list_register i (g_cpu s') = list_register i (g_cpu t)"
    using Cons.IH [of "mb + of_nat width" t] room(1) Cons.prems(2) by auto
  have reg: "list_register i (g_cpu t) = (if i = b then v else list_register i (g_cpu s))" for i
    by (auto simp: t list_register_def set_list_register_def)
  have "same_elsewhere mb 0 s s'"
    using s'(2) by (simp add: elsewhere_0 t)
  moreover have "list_register ((b # bs) ! j) (g_cpu s') = sext (get (mb + of_nat (width * j)) s) sz" if "j < length (b # bs)" for j
  proof (cases j)
    case 0
    then show ?thesis using s'(4) Cons.prems(2) by (simp add: reg v)
  next
    case (Suc i)
    have "width * i + width \<le> width * length bs" using that Suc mult_le_mono2 [of "Suc i" "length bs" width] by simp
    then have "ram_room (mb + of_nat width + of_nat (width * i)) width"
      using room_split_top(1) [of "mb + of_nat width" "width * i" width] room(1) by (auto simp: ram_room_def)
    then have "get (mb + of_nat width + of_nat (width * i)) t = get (mb + of_nat width + of_nat (width * i)) s"
      by (intro get_elsewhere [where k = 0 and b = "mb + of_nat width + of_nat (width * i)"]) (simp_all add: t same_elsewhere_def)
    then show ?thesis using s'(3) that Suc by (simp add: algebra_simps)
  qed
  ultimately show ?case
    using step s'(1,4) reg by (auto simp: algebra_simps)
qed

end

section \<open>RAM as an operand store\<close>

lemma put16_elsewhere:
  assumes "ram_word a"
  shows "same_elsewhere a 2 s (put16 a v s)"
proof -
  have "unat (a + 1) = unat a + 1"
    using assms unat_plus1 [of 1 a] by (auto simp: ram_word_def is_ram_def in_ram0_unat in_ram1_unat)
  then show ?thesis
    using peek_put16 [OF assms, of _ v s] by (auto simp: same_elsewhere_def)
qed

lemma room_word: "ram_room a 2 \<Longrightarrow> ram_word a"
  using ram_room_word [of a 2 0] by simp

lemma room_long:
  assumes "ram_room a 4"
  shows "ram_word a" "ram_word (a + 2)" "unat (a + 2) = unat a + 2"
  using ram_room_word [OF assms, of 0] ram_room_word [OF assms, of 2] room_split_top(3) [of a 2 2] assms by simp_all

lemma sext_low_word: "sext (ucast (ucast (v :: u32) :: u16)) M68K_SIZE_W = sext v M68K_SIZE_W"
proof -
  have "(ucast (ucast (ucast v :: u16) :: u32) :: u16) = ucast v" by (simp add: bitwise16)
  then show ?thesis by simp
qed

interpretation ram_words: operand_store M68K_SIZE_W 2 "\<lambda>a s. ucast (get16 a s)" "\<lambda>a v. put16 a (ucast v)"
proof
  fix a v and s s' :: "'a machine"
  assume "ram_room a 2"
  note w = room_word [OF this]
  show "mem_read M68K_SIZE_W a s = (Done (ucast (get16 a s)), note_access a s)"
    using w by (simp add: mapx_def)
  show "mem_write M68K_SIZE_W a v s = (Done (), note_access a (put16 a (ucast v) s))"
    using w by simp
  show "sext (ucast (get16 a (put16 a (ucast v) s))) M68K_SIZE_W = sext v M68K_SIZE_W"
    using w by (simp only: get16_put16_same sext_low_word)
  show "same_elsewhere a 2 s (put16 a (ucast v) s)" using w by (rule put16_elsewhere)
  assume "same_block a 2 s s'"
  then show "ucast (get16 a s') = (ucast (get16 a s) :: u32)"
    by (simp only: get16_block [OF w])
qed simp_all

interpretation ram_longs: operand_store M68K_SIZE_L 4 get32 put32
proof
  fix a v and s s' :: "'a machine"
  assume r: "ram_room a 4"
  note w = room_long [OF r]
  have l: "ram_long a" using w by (simp add: ram_long_def)
  then show "mem_read M68K_SIZE_L a s = (Done (get32 a s), note_access a s)"
    "mem_write M68K_SIZE_L a v s = (Done (), note_access a (put32 a v s))"
    "sext (get32 a (put32 a v s)) M68K_SIZE_L = sext v M68K_SIZE_L" by simp_all
  show "same_elsewhere a 4 s (put32 a v s)"
    unfolding put32_def
    by (rule elsewhere_trans [OF put16_elsewhere [OF w(1)] put16_elsewhere [OF w(2)]]) (simp_all only: w(3))
  assume e: "same_block a 4 s s'"
  have "same_block a 2 s s'" "same_block (a + 2) 2 s s'" using w(3) by (simp_all add: same_block_sub [OF e])
  then show "get32 a s' = get32 a s" by (simp add: get32_def get16_block w(1,2))
qed simp_all

section \<open>Saving and restoring\<close>

lemma filter_reversed:
  assumes "\<And>b. b < 16 \<Longrightarrow> P b = Q (15 - b)"
  shows "filter Q [0..<16] = rev (map ((-) 15) (filter P [0..<16]))"
proof -
  have "rev (map ((-) 15) (filter P [0..<16])) = rev (map ((-) 15) (filter (Q \<circ> (-) 15) [0..<16]))"
    using assms by (intro arg_cong [of _ _ rev] arg_cong [of _ _ "map _"] filter_cong) simp_all
  also have "\<dots> = filter Q (rev (map ((-) 15) [0..<16]))" by (simp only: filter_map flip: rev_filter)
  also have "rev (map ((-) 15) [0..<16]) = [0..<16 :: nat]" by code_simp
  finally show ?thesis by simp
qed

lemma listed_reversed: "(\<And>b. b < 16 \<Longrightarrow> bit m1 b = bit m2 (15 - b)) \<Longrightarrow> listed m2 = rev (map ((-) 15) (listed m1))"
  unfolding listed_def by (rule filter_reversed)

lemma listed_facts: "distinct (listed m)" "i \<in> set (listed m) \<longleftrightarrow> i < 16 \<and> bit m i"
  by (auto simp: listed_def)

context operand_store
begin

lemma save_restore:
  fixes s :: "'v machine"
  assumes room: "ram_room (a - of_nat k) k" and k: "k = width * length bs"
    and cs: "cs = rev (map ((-) 15) bs)" "distinct cs"
  shows "\<exists>t. movem_store_down sz bs a s = (Done (a - of_nat k), t) \<and> g_cpu t = g_cpu s \<and> same_elsewhere (a - of_nat k) k s t \<and>
    (\<forall>t'. same_block (a - of_nat k) k t t' \<longrightarrow> (\<exists>u. movem_load sz cs (a - of_nat k) t' = (Done a, u) \<and>
      (\<forall>i. list_register i (g_cpu u) = (if i \<in> set cs then sext (list_register i (g_cpu s)) sz else list_register i (g_cpu t')))))"
proof -
  let ?lo = "a - of_nat k"
  obtain t where t: "movem_store_down sz bs a s = (Done ?lo, t)" "g_cpu t = g_cpu s" "same_elsewhere ?lo k s t"
    "\<forall>j<length bs. sext (get (a - of_nat (width * Suc j)) t) sz = sext (list_register (15 - bs ! j) (g_cpu s)) sz"
    using store_down_run [of a bs s] room k by auto
  have len: "length cs = length bs" by (simp add: cs)
  have "\<exists>u. movem_load sz cs ?lo t' = (Done a, u) \<and>
      (\<forall>i. list_register i (g_cpu u) = (if i \<in> set cs then sext (list_register i (g_cpu s)) sz else list_register i (g_cpu t')))"
    if same': "same_block ?lo k t t'" for t'
  proof -
    obtain u where u: "movem_load sz cs ?lo t' = (Done a, u)"
      "\<forall>j<length cs. list_register (cs ! j) (g_cpu u) = sext (get (?lo + of_nat (width * j)) t') sz"
      "\<forall>i. i \<notin> set cs \<longrightarrow> list_register i (g_cpu u) = list_register i (g_cpu t')"
      using load_run [of ?lo cs t'] room k cs(2) len by auto
    have "list_register (cs ! j) (g_cpu u) = sext (list_register (cs ! j) (g_cpu s)) sz" if j: "j < length cs" for j
    proof -
      define m where m: "m = length bs - Suc j"
      have mj: "m < length bs" "j + Suc m = length bs" using j len by (simp_all add: m)
      have km: "k = width * j + width * Suc m" unfolding k mj(2) [symmetric] by (rule add_mult_distrib2)
      then have kj: "width * j + width \<le> k" by simp
      then have "ram_room ?lo (width * j + width)" using room by (auto simp: ram_room_def)
      note part = room_split_top [OF this]
      have pos: "?lo + of_nat (width * j) = a - of_nat (width * Suc m)" by (simp add: km algebra_simps)
      have "same_block (?lo + of_nat (width * j)) width t t'"
        by (rule same_block_sub [OF same']; unfold part(3)) (use kj in linarith)+
      then have e: "get (?lo + of_nat (width * j)) t' = get (?lo + of_nat (width * j)) t"
        using part(1) by (rule get_local [rotated])
      have c: "cs ! j = 15 - bs ! m" using j len mj by (simp add: cs rev_nth m)
      show ?thesis using u(2) [rule_format, OF j] t(4) [rule_format, OF mj(1)] unfolding c by (simp only: e [unfolded pos] pos)
    qed
    then show ?thesis using u(1,3) by (intro exI [of _ u]) (auto simp: in_set_conv_nth)
  qed
  then show ?thesis using t(1-3) by blast
qed

end

text \<open>The bytes a register list takes.\<close>

definition list_bytes :: "M68KInstr \<Rightarrow> M68KSize \<Rightarrow> nat" where
  "list_bytes ins isz = unat (szbytes (movem_size isz)) * length (listed (words ins 1))"

lemma save_restore_lists:
  assumes "k = unat (szbytes (movem_size isz)) * length bs" "ram_room (a - of_nat k) k" "cs = rev (map ((-) 15) bs)" "distinct cs"
  shows "\<exists>t. movem_store_down (movem_size isz) bs a s = (Done (a - of_nat k), t) \<and> g_cpu t = g_cpu s \<and>
    same_elsewhere (a - of_nat k) k s t \<and>
    (\<forall>t'. same_block (a - of_nat k) k t t' \<longrightarrow> (\<exists>u. movem_load (movem_size isz) cs (a - of_nat k) t' = (Done a, u) \<and>
      (\<forall>i. list_register i (g_cpu u) =
        (if i \<in> set cs then sext (list_register i (g_cpu s)) (movem_size isz) else list_register i (g_cpu t')))))"
proof (cases "isz = M68K_SIZE_L")
  case True
  then have "movem_size isz = M68K_SIZE_L" by (simp add: movem_size_def)
  then show ?thesis using ram_longs.save_restore [of a k bs cs s] assms by (simp only: szbytes.simps) simp
next
  case False
  then have "movem_size isz = M68K_SIZE_W" by (simp add: movem_size_def)
  then show ?thesis using ram_words.save_restore [of a k bs cs s] assms by (simp only: szbytes.simps) simp
qed

lemma movem_base_auto: "ea_mode (src_ea ins) \<in> {3, 4} \<Longrightarrow> movem_base ins c = reg_A c (ea_reg (src_ea ins))"
  by (auto simp: movem_base_def Let_def)

text \<open>
C32: MOVEM to predecrement and MOVEM from postincrement with the mirrored register list are inverse: whatever runs in
between, if it keeps the saved bytes and the pointer, every listed register comes back (sign-extended when the transfer is by
word), registers off the list are not touched, the pointer returns to its value, and only the saved block was written.
\<close>
theorem movem_save_restore:
  assumes store: "\<not> bit (words save 0) 10" "ea_mode (src_ea save) = 4" "ea_reg (src_ea save) = r"
    and load: "bit (words restore 0) 10" "ea_mode (src_ea restore) = 3" "ea_reg (src_ea restore) = r"
    and mirrored: "\<forall>b<16. bit (words save 1) b = bit (words restore 1) (15 - b)"
    and base: "base = reg_A (g_cpu s) r - of_nat (list_bytes save isz)" and room: "ram_room base (list_bytes save isz)"
  shows "\<exists>t. do_movem save isz s = (Done (), t) \<and> g_cpu t = set_A r base (g_cpu s) \<and> same_elsewhere base (list_bytes save isz) s t \<and>
    (\<forall>t'. same_block base (list_bytes save isz) t t' \<and> reg_A (g_cpu t') r = base \<longrightarrow>
      (\<exists>u. do_movem restore isz t' = (Done (), u) \<and> reg_A (g_cpu u) r = reg_A (g_cpu s) r \<and>
        (\<forall>i<16. i \<noteq> 8 + r \<longrightarrow> list_register i (g_cpu u) =
          (if bit (words restore 1) i then sext (list_register i (g_cpu s)) (movem_size isz) else list_register i (g_cpu t')))))"
proof -
  let ?k = "list_bytes save isz"
  have mirror: "listed (words restore 1) = rev (map ((-) 15) (listed (words save 1)))"
    using mirrored by (intro listed_reversed) simp
  obtain t where t: "movem_store_down (movem_size isz) (listed (words save 1)) (reg_A (g_cpu s) r) s = (Done base, t)"
    "g_cpu t = g_cpu s" "same_elsewhere base ?k s t"
    "\<forall>t'. same_block base ?k t t' \<longrightarrow> (\<exists>u. movem_load (movem_size isz) (listed (words restore 1)) base t' = (Done (reg_A (g_cpu s) r), u) \<and>
      (\<forall>i. list_register i (g_cpu u) = (if i \<in> set (listed (words restore 1)) then sext (list_register i (g_cpu s)) (movem_size isz)
        else list_register i (g_cpu t'))))"
    using save_restore_lists [OF list_bytes_def [of save isz] room [unfolded base] mirror listed_facts(1), of s]
    unfolding base by blast
  have saved: "do_movem save isz s = (Done (), set_areg r base t)"
    using store t(1) by (simp add: do_movem_def Let_def movem_base_auto)
  have "\<exists>u. do_movem restore isz t' = (Done (), u) \<and> reg_A (g_cpu u) r = reg_A (g_cpu s) r \<and>
        (\<forall>i<16. i \<noteq> 8 + r \<longrightarrow> list_register i (g_cpu u) =
          (if bit (words restore 1) i then sext (list_register i (g_cpu s)) (movem_size isz) else list_register i (g_cpu t')))"
    if same': "same_block base ?k (set_areg r base t) t'" and ptr: "reg_A (g_cpu t') r = base" for t'
  proof -
    have "same_block base ?k t t'" using same' by (simp add: same_block_def)
    then obtain u where u: "movem_load (movem_size isz) (listed (words restore 1)) base t' = (Done (reg_A (g_cpu s) r), u)"
      "\<forall>i. list_register i (g_cpu u) = (if i \<in> set (listed (words restore 1)) then sext (list_register i (g_cpu s)) (movem_size isz)
        else list_register i (g_cpu t'))" using t(4) by blast
    have "do_movem restore isz t' = (Done (), set_areg r (reg_A (g_cpu s) r) u)"
      using load u(1) ptr by (simp add: do_movem_def Let_def movem_base_auto)
    moreover have "list_register i (g_cpu (set_areg r v u)) = list_register i (g_cpu u)" if "i \<noteq> 8 + r" for i v
      using that by (auto simp: list_register_def set_areg_def upd_cpu_def)
    ultimately show ?thesis
      using u(2) by (intro exI [of _ "set_areg r (reg_A (g_cpu s) r) u"]) (simp add: listed_facts(2) set_areg_def upd_cpu_def)
  qed
  moreover have "g_cpu (set_areg r base t) = set_A r base (g_cpu s)" by (simp add: set_areg_def upd_cpu_def t(2))
  ultimately show ?thesis
    using saved t(3) by (intro exI [of _ "set_areg r base t"]) simp
qed

definition movem_instr :: "u16 \<Rightarrow> u16 \<Rightarrow> M68KInstr" where
  "movem_instr op msk = \<lparr>i_addr = 0x400000, words = (\<lambda>i. if i = 0 then op else if i = 1 then msk else 0), byte_length = 4,
     mnemonic = System MN_MOVEM, i_size = M68K_SIZE_L, src_ea = uint (op AND 0x3F), dst_ea = 0, i_reg = 0, imm32 = 0, target_addr = 0,
     predec_mem_form = False, mem_shift = False, dst_is_ea = False\<rparr>"

theorem movem_save_restore_witness:
  "let save = movem_instr 0x48E7 0x3020; restore = movem_instr 0x4CDF 0x040C;
     s = cold_machine\<lparr>g_cpu := \<lparr>reg_D = (\<lambda>i. 0x11110000 + of_nat i), reg_A = (\<lambda>i. 0x4000 + of_nat i), SR = 0, PC = 0, USP = 0, SSP = 0\<rparr>\<rparr>
   in \<exists>t u. do_movem save M68K_SIZE_L s = (Done (), t) \<and> reg_A (g_cpu t) 7 = 0x3FFB \<and>
     do_movem restore M68K_SIZE_L (upd_cpu (set_D 3 99) t) = (Done (), u) \<and> reg_D (g_cpu u) 3 = 0x11110003 \<and> reg_A (g_cpu u) 7 = 0x4007"
proof -
  define save where save: "save = movem_instr 0x48E7 0x3020"
  define restore where restore: "restore = movem_instr 0x4CDF 0x040C"
  define s where s: "s = cold_machine\<lparr>g_cpu := \<lparr>reg_D = (\<lambda>i. 0x11110000 + of_nat i), reg_A = (\<lambda>i. 0x4000 + of_nat i), SR = 0, PC = 0, USP = 0, SSP = 0\<rparr>\<rparr>"
  have "listed 0x3020 = [5, 12, 13]" by code_simp
  then have n: "list_bytes save M68K_SIZE_L = 12" by (simp add: list_bytes_def save movem_instr_def movem_size_def)
  have "list_all (\<lambda>b. bit (0x3020 :: u16) b = bit (0x040C :: u16) (15 - b)) [0..<16]" by code_simp
  then have masks: "\<forall>b<16. bit (words save 1) b = bit (words restore 1) (15 - b)"
    by (simp add: list_all_iff save restore movem_instr_def)
  have ops: "\<not> bit (words save 0) 10" "ea_mode (src_ea save) = 4" "ea_reg (src_ea save) = 7"
    "bit (words restore 0) 10" "ea_mode (src_ea restore) = 3" "ea_reg (src_ea restore) = 7" "bit (words restore 1) 3"
    unfolding save restore by (simp_all add: movem_instr_def ea_mode_def ea_reg_def)
  have sp: "0x3FFB = reg_A (g_cpu s) 7 - of_nat (list_bytes save M68K_SIZE_L)" unfolding n by (simp add: s)
  obtain t where t: "do_movem save M68K_SIZE_L s = (Done (), t)" "g_cpu t = set_A 7 0x3FFB (g_cpu s)"
    "\<forall>t'. same_block 0x3FFB (list_bytes save M68K_SIZE_L) t t' \<and> reg_A (g_cpu t') 7 = 0x3FFB \<longrightarrow>
      (\<exists>u. do_movem restore M68K_SIZE_L t' = (Done (), u) \<and> reg_A (g_cpu u) 7 = reg_A (g_cpu s) 7 \<and>
        (\<forall>i<16. i \<noteq> 8 + 7 \<longrightarrow> list_register i (g_cpu u) =
          (if bit (words restore 1) i then sext (list_register i (g_cpu s)) (movem_size M68K_SIZE_L) else list_register i (g_cpu t'))))"
    using movem_save_restore [OF ops(1-6) masks sp] by (auto simp: n ram_room_def)
  obtain u where "do_movem restore M68K_SIZE_L (upd_cpu (set_D 3 99) t) = (Done (), u)" "reg_A (g_cpu u) 7 = 0x4007"
    "list_register 3 (g_cpu u) = sext (list_register 3 (g_cpu s)) (movem_size M68K_SIZE_L)"
    using t(3) [rule_format, of "upd_cpu (set_D 3 99) t"] ops(7) t(2) by (force simp: same_block_def s)
  then show ?thesis
    unfolding Let_def save [symmetric] restore [symmetric] s [symmetric]
    using t(1,2) by (auto simp: list_register_def movem_size_def s)
qed

end
