(* ===== verification/Mcd212_Video.thy ===== *)
theory Mcd212_Video
  imports Exec_Monad "HOL-Library.Signed_Division"
begin

unbundle bit_operations_syntax

text \<open>
  The pixel pipeline of \<^verbatim>\<open>runner/src/mcd212_video.c\<close>: display registers and the control words that set them, the line
  decoders (colour lookup, RGB555, delta YUV, run length), mosaic and pixel hold, and the two-plane compositor with mattes
  and the hardware cursor. Planes are numbered 0 (A) and 1 (B) as in the source. Register arrays are lists of the
  declared length; rows and frames are functions from the pixel index. \<^verbatim>\<open>video_error\<close> ends the program: the outcome
  \<open>Aborted\<close>; a store beyond a decoded row is \<open>Undefined\<close>. Presentation capture (\<^verbatim>\<open>cdi_raster_*\<close>) is off, as in the
  \<^verbatim>\<open>CDI_RASTER_REFERENCE\<close> build.
\<close>

section \<open>Outcomes without state\<close>

fun bindo :: "'a outcome \<Rightarrow> ('a \<Rightarrow> 'b outcome) \<Rightarrow> 'b outcome" where
  "bindo (Done x) k = k x"
| "bindo (Bus_Error a) k = Bus_Error a"
| "bindo Aborted k = Aborted"
| "bindo Undefined k = Undefined"

fun of_option :: "'a option \<Rightarrow> 'a outcome" where
  "of_option None = Aborted"
| "of_option (Some x) = Done x"

lemma bindo_Done:
  "bindo m k = Done y \<longleftrightarrow> (\<exists>x. m = Done x \<and> k x = Done y)" "Done y = bindo m k \<longleftrightarrow> (\<exists>x. m = Done x \<and> k x = Done y)"
  by (cases m; auto)+

lemma bindo_assoc: "bindo (bindo m k) h = bindo m (\<lambda>x. bindo (k x) h)"
  by (cases m) auto

section \<open>State\<close>

datatype Coding = CODING_OFF | CODING_RGB555 | CODING_DYUV | CODING_CLUT8 | CODING_CLUT7 | CODING_CLUT77 | CODING_CLUT4

datatype FileType = FILE_BITMAP | FILE_RUN_LENGTH | FILE_MOSAIC

datatype BitsPerPixel = BITS_NORMAL_8 | BITS_DOUBLE_4 | BITS_HIGH_8

record PlaneSetup =
  coding :: Coding
  file_type :: FileType
  bits_per_pixel :: BitsPerPixel
  mosaic_repeat :: u8
  transparency :: u8
  contribution :: u8
  hold_enabled :: bool
  hold_count :: u8
  dyuv_initial :: u32
  transparent_color :: u32
  color_mask :: u32

record CursorSetup =
  cursor_x :: u16
  cursor_y :: u16
  pattern :: "u16 list"
  cursor_enabled :: bool
  cursor_color :: u8
  high_resolution :: bool
  complementary_blink :: bool
  on_units :: u8
  off_units :: u8
  start_field :: u64

record VideoRegisters =
  plane :: "PlaneSetup list"
  cursor :: CursorSetup
  clut :: "u32 list"
  matte_command :: "u32 list"
  clut_bank :: u8
  backdrop :: u8
  plane_b_front :: bool
  mixing :: bool
  plane_a_high_clut :: bool
  two_mattes :: bool
  external_video :: bool

record CompletedLine =
  line_registers :: VideoRegisters
  line_address :: "nat \<Rightarrow> u32"
  line_width :: "nat \<Rightarrow> u16"
  line_consumed :: "nat \<Rightarrow> u16"
  line_bytes :: "nat \<Rightarrow> u8 list"
  line_decoded :: "nat \<Rightarrow> nat \<Rightarrow> u32"
  line_valid :: bool

record VideoPipeline =
  registers :: VideoRegisters
  decoded :: "nat \<Rightarrow> nat \<Rightarrow> u32"
  contribution_lut :: "nat \<Rightarrow> nat \<Rightarrow> u8"
  frame :: "nat \<Rightarrow> nat \<Rightarrow> u32"
  plane_frame :: "nat \<Rightarrow> nat \<Rightarrow> u32"
  verdict_frame :: "nat \<Rightarrow> u8"
  width :: u16
  height :: u16
  published_width :: u16
  published_height :: u16
  drawing_buffer :: nat
  published_buffer :: nat
  generation :: u64
  publish_sequence :: u64
  published_hash :: u64
  content_generation :: u64
  scanout_jobs :: u64
  fused_jobs :: u64
  reused_jobs :: u64
  completed_lines :: "nat \<Rightarrow> CompletedLine"

abbreviation row_capacity :: nat where
  "row_capacity \<equiv> 768"

abbreviation line_limit :: nat where
  "line_limit \<equiv> 560"

definition upd_plane :: "nat \<Rightarrow> (PlaneSetup \<Rightarrow> PlaneSetup) \<Rightarrow> VideoRegisters \<Rightarrow> VideoRegisters" where
  "upd_plane p f r = r\<lparr>plane := (plane r)[p := f (plane r ! p)]\<rparr>"

section \<open>Memory and colours\<close>

text \<open>The two DRAM banks the display fetches from.\<close>

type_synonym dram = "(u32 \<Rightarrow> u8) \<times> (u32 \<Rightarrow> u8)"

definition dram_byte :: "dram \<Rightarrow> u32 \<Rightarrow> u8 outcome" where
  "dram_byte m a =
     (if a < 0x80000 then Done (fst m a)
      else if a \<ge> 0x200000 \<and> a - 0x200000 < 0x80000 then Done (snd m (a - 0x200000))
      else Aborted)"

definition saturate :: "int \<Rightarrow> u8" where
  "saturate x = (if x < 0 then 0 else if x > 255 then 255 else word_of_int x)"

definition argb :: "u8 \<Rightarrow> u8 \<Rightarrow> u8 \<Rightarrow> u32" where
  "argb red green blue = 0xFF000000 OR push_bit 16 (ucast red) OR push_bit 8 (ucast green) OR ucast blue"

definition yrgb_color :: "u8 \<Rightarrow> u32" where
  "yrgb_color code =
     (let level = (if bit code 3 then 255 else 127)
      in argb (if bit code 2 then level else 0) (if bit code 1 then level else 0) (if bit code 0 then level else 0))"

definition plane_a_coding :: "u32 \<Rightarrow> Coding" where
  "plane_a_coding code =
     (if code = 1 then CODING_CLUT8 else if code = 3 then CODING_CLUT7 else if code = 4 then CODING_CLUT77
      else if code = 5 then CODING_DYUV else if code = 11 then CODING_CLUT4 else CODING_OFF)"

definition plane_b_coding :: "u32 \<Rightarrow> Coding" where
  "plane_b_coding code =
     (if code = 1 then CODING_RGB555 else if code = 3 then CODING_CLUT7 else if code = 5 then CODING_DYUV
      else if code = 11 then CODING_CLUT4 else CODING_OFF)"

section \<open>Reset and control words\<close>

definition blank_plane :: PlaneSetup where
  "blank_plane = \<lparr>coding = CODING_OFF, file_type = FILE_BITMAP, bits_per_pixel = BITS_NORMAL_8, mosaic_repeat = 1, transparency = 0,
     contribution = 0, hold_enabled = False, hold_count = 1, dyuv_initial = 0, transparent_color = 0, color_mask = 0\<rparr>"

definition blank_registers :: VideoRegisters where
  "blank_registers = \<lparr>plane = [blank_plane, blank_plane],
     cursor = \<lparr>cursor_x = 0, cursor_y = 0, pattern = replicate 16 0, cursor_enabled = False, cursor_color = 0, high_resolution = False,
       complementary_blink = False, on_units = 0, off_units = 0, start_field = 0\<rparr>,
     clut = replicate 256 0, matte_command = replicate 8 0, clut_bank = 0, backdrop = 0, plane_b_front = False, mixing = True,
     plane_a_high_clut = False, two_mattes = False, external_video = False\<rparr>"

definition contribution_entry :: "nat \<Rightarrow> nat \<Rightarrow> u8" where
  "contribution_entry factor component = saturate (int factor * (int component - 16) sdiv 63 + 16)"

definition blank_line :: CompletedLine where
  "blank_line = \<lparr>line_registers = blank_registers, line_address = (\<lambda>_. 0), line_width = (\<lambda>_. 0), line_consumed = (\<lambda>_. 0),
     line_bytes = (\<lambda>_. []), line_decoded = (\<lambda>_ _. 0), line_valid = False\<rparr>"

definition mcd212_video_reset :: VideoPipeline where
  "mcd212_video_reset = \<lparr>registers = blank_registers, decoded = (\<lambda>_ _. 0), contribution_lut = contribution_entry,
     frame = (\<lambda>_ _. 0), plane_frame = (\<lambda>_ _. 0), verdict_frame = (\<lambda>_. 0), width = 768, height = 280, published_width = 768,
     published_height = 280, drawing_buffer = 1, published_buffer = 0, generation = 0, publish_sequence = 0, published_hash = 0,
     content_generation = 0, scanout_jobs = 0, fused_jobs = 0, reused_jobs = 0, completed_lines = (\<lambda>_. blank_line)\<rparr>"

definition configure_file_type :: "nat \<Rightarrow> u32 \<Rightarrow> VideoRegisters \<Rightarrow> VideoRegisters outcome" where
  "configure_file_type p ins r =
     (let typ = ins AND 3; bits = drop_bit 8 ins AND 3;
          ft = (if typ \<le> 1 then FILE_BITMAP else if typ = 2 then FILE_RUN_LENGTH else FILE_MOSAIC);
          rep = push_bit (1 + unat (drop_bit 2 ins AND 3)) 1;
          set = (\<lambda>b. upd_plane p (\<lambda>q. q\<lparr>file_type := ft, mosaic_repeat := rep, bits_per_pixel := b\<rparr>) r)
      in if bits = 0 then Done (set BITS_NORMAL_8)
         else if bits = 1 then Done (set BITS_DOUBLE_4)
         else if bits = 2 then Done (set BITS_HIGH_8)
         else Aborted)"

definition cursor_control :: "u32 \<Rightarrow> u64 \<Rightarrow> CursorSetup \<Rightarrow> CursorSetup outcome" where
  "cursor_control ins field c =
     (let on = ucast (drop_bit 19 ins AND 7); off = ucast (drop_bit 16 ins AND 7)
      in if on = 0 \<and> off \<noteq> 0 then Aborted
         else Done (c\<lparr>cursor_color := ucast (ins AND 15), cursor_enabled := bit ins 23, complementary_blink := bit ins 22,
           on_units := on, off_units := off, high_resolution := bit ins 15, start_field := field\<rparr>))"

definition control_registers :: "nat \<Rightarrow> u8 \<Rightarrow> u32 \<Rightarrow> u64 \<Rightarrow> VideoRegisters \<Rightarrow> VideoRegisters outcome" where
  "control_registers p opcode ins field r =
     (let operand = ins AND 0x00FFFFFF; a = (p = 0); b = (p = 1); only = (\<lambda>c f. Done (if c then f r else r))
      in if opcode \<ge> 0x80 \<and> opcode \<le> 0xBF then
           only (a \<or> clut_bank r \<ge> 2)
             (\<lambda>r. r\<lparr>clut := (clut r)[unat (clut_bank r) * 64 + unat (opcode - 0x80) := 0xFF000000 OR operand]\<rparr>)
         else if opcode \<ge> 0xD0 \<and> opcode \<le> 0xD7 then
           Done (r\<lparr>matte_command := (matte_command r)[unat (opcode - 0xD0) := operand]\<rparr>)
         else if opcode = 0x78 then configure_file_type p ins r
         else if opcode = 0xC0 then
           only a (\<lambda>r. upd_plane 1 (\<lambda>q. q\<lparr>coding := plane_b_coding (drop_bit 8 ins AND 15)\<rparr>)
             (upd_plane 0 (\<lambda>q. q\<lparr>coding := plane_a_coding (ins AND 15)\<rparr>)
               (r\<lparr>plane_a_high_clut := bit ins 22, two_mattes := bit ins 19, external_video := bit ins 18\<rparr>)))
         else if opcode = 0xC1 then
           only a (\<lambda>r. upd_plane 1 (\<lambda>q. q\<lparr>transparency := ucast (drop_bit 8 ins AND 15)\<rparr>)
             (upd_plane 0 (\<lambda>q. q\<lparr>transparency := ucast (ins AND 15)\<rparr>) (r\<lparr>mixing := \<not> bit ins 23\<rparr>)))
         else if opcode = 0xC2 then only a (\<lambda>r. r\<lparr>plane_b_front := bit ins 0\<rparr>)
         else if opcode = 0xC3 then Done (r\<lparr>clut_bank := ucast (ins AND 3)\<rparr>)
         else if opcode = 0xC4 then only a (upd_plane 0 (\<lambda>q. q\<lparr>transparent_color := operand\<rparr>))
         else if opcode = 0xC6 then only b (upd_plane 1 (\<lambda>q. q\<lparr>transparent_color := operand\<rparr>))
         else if opcode = 0xC7 then only a (upd_plane 0 (\<lambda>q. q\<lparr>color_mask := operand\<rparr>))
         else if opcode = 0xC9 then only b (upd_plane 1 (\<lambda>q. q\<lparr>color_mask := operand\<rparr>))
         else if opcode = 0xCA then only a (upd_plane 0 (\<lambda>q. q\<lparr>dyuv_initial := operand\<rparr>))
         else if opcode = 0xCB then only b (upd_plane 1 (\<lambda>q. q\<lparr>dyuv_initial := operand\<rparr>))
         else if opcode = 0xCD then
           only a (\<lambda>r. r\<lparr>cursor := (cursor r)\<lparr>cursor_x := ucast (ins AND 0x3FF), cursor_y := ucast (drop_bit 12 ins AND 0x3FF)\<rparr>\<rparr>)
         else if opcode = 0xCE then
           (if a then bindo (cursor_control ins field (cursor r)) (\<lambda>c. Done (r\<lparr>cursor := c\<rparr>)) else Done r)
         else if opcode = 0xCF then
           only a (\<lambda>r. r\<lparr>cursor := (cursor r)\<lparr>pattern := (pattern (cursor r))[unat (drop_bit 16 ins AND 15) := ucast ins]\<rparr>\<rparr>)
         else if opcode = 0xD8 then only a (\<lambda>r. r\<lparr>backdrop := ucast (ins AND 15)\<rparr>)
         else if opcode = 0xD9 \<or> opcode = 0xDA then
           only (opcode = 0xD9 \<and> a \<or> opcode = 0xDA \<and> b) (upd_plane p (\<lambda>q. q\<lparr>hold_enabled := bit ins 23, hold_count := ucast ins\<rparr>))
         else if opcode = 0xDB then only a (upd_plane 0 (\<lambda>q. q\<lparr>contribution := ucast (ins AND 63)\<rparr>))
         else if opcode = 0xDC then only b (upd_plane 1 (\<lambda>q. q\<lparr>contribution := ucast (ins AND 63)\<rparr>))
         else Done r)"

definition mcd212_video_control :: "nat \<Rightarrow> u32 \<Rightarrow> VideoPipeline \<Rightarrow> VideoPipeline outcome" where
  "mcd212_video_control p ins v =
     (if p \<ge> 2 then Aborted
      else bindo (control_registers p (ucast (drop_bit 24 ins)) ins (generation v) (registers v)) (\<lambda>r. Done (v\<lparr>registers := r\<rparr>)))"

definition mcd212_video_begin_frame :: "bool \<Rightarrow> u16 \<Rightarrow> u16 \<Rightarrow> bool \<Rightarrow> VideoPipeline \<Rightarrow> VideoPipeline outcome" where
  "mcd212_video_begin_frame hle base_width base_height interlaced v =
     (let w = ucast base_width * 2; h = (if interlaced then ucast base_height * 2 else ucast base_height)
      in if w > (768 :: u32) \<or> h > (560 :: u32) then Aborted
         else Done ((if hle \<and> (w \<noteq> ucast (width v) \<or> h \<noteq> ucast (height v)) then v\<lparr>completed_lines := (\<lambda>_. blank_line)\<rparr> else v)
           \<lparr>width := ucast w, height := ucast h\<rparr>))"

end
