(* ===== verification/Mcd212_Decode.thy ===== *)
theory Mcd212_Decode
  imports Mcd212_Video
begin

unbundle bit_operations_syntax

text \<open>
  Line decoders of \<^verbatim>\<open>runner/src/mcd212_video.c\<close>. A decoder delivers the pixels it stores, in order, and the
  number of bytes it consumed; \<open>decode_plane\<close> places them in the cleared row, then mosaic and pixel hold rework the row in
  place.
\<close>

section \<open>Colour lookup and RGB555\<close>

definition clut_lookup :: "VideoRegisters \<Rightarrow> nat \<Rightarrow> nat \<Rightarrow> u32" where
  "clut_lookup r p index =
     (let bank_start = (if p = 1 then 128 else if coding (plane r ! 0) = CODING_CLUT77 \<and> plane_a_high_clut r then 128 else 0)
      in clut r ! ((bank_start + index) mod 256))"

definition doubled :: "bool \<Rightarrow> u32 \<Rightarrow> u32 list" where
  "doubled d color = (if d then [color, color] else [color])"

fun clut4_pixels :: "(nat \<Rightarrow> u32) \<Rightarrow> dram \<Rightarrow> u32 \<Rightarrow> nat \<Rightarrow> u32 list outcome" where
  "clut4_pixels look m a 0 = Done []"
| "clut4_pixels look m a (Suc 0) = bindo (dram_byte m a) (\<lambda>packed. Done [look (unat (drop_bit 4 packed))])"
| "clut4_pixels look m a (Suc (Suc n)) =
     bindo (dram_byte m a) (\<lambda>packed. bindo (clut4_pixels look m (a + 1) n) (\<lambda>px.
       Done (look (unat (drop_bit 4 packed)) # look (unat (packed AND 15)) # px)))"

fun clut_pixels :: "(nat \<Rightarrow> u32) \<Rightarrow> u8 \<Rightarrow> bool \<Rightarrow> dram \<Rightarrow> u32 \<Rightarrow> nat \<Rightarrow> u32 list outcome" where
  "clut_pixels look msk d m a 0 = Done []"
| "clut_pixels look msk d m a (Suc n) =
     bindo (dram_byte m a) (\<lambda>x. bindo (clut_pixels look msk d m (a + 1) n) (\<lambda>px.
       Done (doubled d (look (unat (x AND msk))) @ px)))"

definition decode_clut :: "VideoRegisters \<Rightarrow> dram \<Rightarrow> nat \<Rightarrow> u32 \<Rightarrow> u16 \<Rightarrow> bool \<Rightarrow> (u32 list \<times> u16) outcome" where
  "decode_clut r m p a pixels d =
     (let c = coding (plane r ! p)
      in if c = CODING_CLUT4
         then bindo (clut4_pixels (clut_lookup r p) m a (unat pixels)) (\<lambda>px. Done (px, of_nat ((unat pixels + 1) div 2)))
         else bindo (clut_pixels (clut_lookup r p) (if c = CODING_CLUT8 then 0xFF else 0x7F) d m a (unat pixels)) (\<lambda>px.
           Done (px, pixels)))"

definition rgb555_color :: "u8 \<Rightarrow> u8 \<Rightarrow> u32" where
  "rgb555_color h l =
     (let packed = ucast (be16 h l)
      in (if bit packed 15 then 0x80000000 else 0) OR push_bit 16 (drop_bit 7 packed AND 0xF8) OR
         push_bit 8 (drop_bit 2 packed AND 0xF8) OR push_bit 3 packed AND 0xF8)"

fun rgb555_pixels :: "dram \<Rightarrow> u32 \<Rightarrow> u32 \<Rightarrow> nat \<Rightarrow> u32 list outcome" where
  "rgb555_pixels m a b 0 = Done []"
| "rgb555_pixels m a b (Suc n) =
     bindo (dram_byte m a) (\<lambda>h. bindo (dram_byte m b) (\<lambda>l. bindo (rgb555_pixels m (a + 1) (b + 1) n) (\<lambda>px.
       Done (rgb555_color h l # rgb555_color h l # px))))"

definition decode_rgb555 :: "dram \<Rightarrow> u32 \<Rightarrow> u32 \<Rightarrow> u16 \<Rightarrow> (u32 list \<times> u16) outcome" where
  "decode_rgb555 m address_a address_b pixels =
     bindo (rgb555_pixels m address_a address_b (unat pixels)) (\<lambda>px. Done (px, pixels))"

section \<open>Delta YUV\<close>

definition dyuv_rgb :: "u8 \<Rightarrow> u8 \<Rightarrow> u8 \<Rightarrow> u32" where
  "dyuv_rgb y u v =
     argb (saturate (uint y + 351 * (uint v - 128) sdiv 256))
       (saturate (uint y - 86 * (uint u - 128) sdiv 256 - 179 * (uint v - 128) sdiv 256))
       (saturate (uint y + 444 * (uint u - 128) sdiv 256))"

definition dyuv_delta :: "u8 list" where
  "dyuv_delta = [0x00, 0x01, 0x04, 0x09, 0x10, 0x1B, 0x2C, 0x4F, 0x80, 0xB1, 0xD4, 0xE5, 0xF0, 0xF7, 0xFC, 0xFF]"

definition half_delta :: "int \<Rightarrow> int" where
  "half_delta d = (if d \<ge> 0 then d div 2 else - ((- d + 1) div 2))"

fun dyuv_pixels :: "bool \<Rightarrow> dram \<Rightarrow> u32 \<Rightarrow> u8 \<times> u8 \<times> u8 \<Rightarrow> nat \<Rightarrow> u32 list outcome" where
  "dyuv_pixels d m a (y, u, v) 0 = Done []"
| "dyuv_pixels d m a (y, u, v) (Suc n) =
     bindo (dram_byte m a) (\<lambda>b1. bindo (dram_byte m (a + 1)) (\<lambda>b2.
       let du = dyuv_delta ! unat (drop_bit 4 b1); dv = dyuv_delta ! unat (drop_bit 4 b2);
           y1 = y + dyuv_delta ! unat (b1 AND 15); y2 = y1 + dyuv_delta ! unat (b2 AND 15);
           mu = u + word_of_int (half_delta (sint du)); mv = v + word_of_int (half_delta (sint dv))
       in bindo (dyuv_pixels d m (a + 2) (y2, u + du, v + dv) (n - 1)) (\<lambda>px.
            Done (doubled d (dyuv_rgb y1 mu mv) @ (if n = 0 then [] else doubled d (dyuv_rgb y2 (u + du) (v + dv))) @ px))))"

definition decode_dyuv :: "VideoRegisters \<Rightarrow> dram \<Rightarrow> nat \<Rightarrow> u32 \<Rightarrow> u16 \<Rightarrow> bool \<Rightarrow> (u32 list \<times> u16) outcome" where
  "decode_dyuv r m p a pixels d =
     (let i = dyuv_initial (plane r ! p)
      in bindo (dyuv_pixels d m a (ucast (drop_bit 16 i), ucast (drop_bit 8 i), ucast i) (unat pixels)) (\<lambda>px.
           Done (px, of_nat ((unat pixels + 1) div 2 * 2))))"

section \<open>Run length\<close>

text \<open>One command of a run-length line: the format byte, the repetitions (zero for "to the end") and its length.\<close>

definition rle_command :: "dram \<Rightarrow> u32 \<Rightarrow> (u8 \<times> nat \<times> nat) outcome" where
  "rle_command m a =
     bindo (dram_byte m a) (\<lambda>format.
       if bit format 7 then bindo (dram_byte m (a + 1)) (\<lambda>n. Done (format, unat n, 2)) else Done (format, 1, 1))"

text \<open>
  Runs of pairs for 4-bit lines, of single pixels otherwise; the number is of pixels still to produce. A line of pairs with one pixel
  left makes no progress and reads on until a fetch leaves DRAM.
\<close>

function rle_pairs :: "(nat \<Rightarrow> u32) \<Rightarrow> dram \<Rightarrow> u32 \<Rightarrow> nat \<Rightarrow> (u32 list \<times> nat) outcome" where
  "rle_pairs look m a left =
     (if left = 0 then Done ([], 0)
      else if left = 1 then Aborted
      else bindo (rle_command m a) (\<lambda>(format, n, used).
        let k = (if n = 0 then left div 2 else min n (left div 2))
        in bindo (rle_pairs look m (a + of_nat used) (left - 2 * k)) (\<lambda>(px, c).
          Done (concat (replicate k [look (unat (drop_bit 4 format AND 7)), look (unat (format AND 7))]) @ px, used + c))))"
  by auto

termination
  by (relation "measure (\<lambda>(_, _, _, left). left)") auto

function rle_pixels :: "(nat \<Rightarrow> u32) \<Rightarrow> bool \<Rightarrow> dram \<Rightarrow> u32 \<Rightarrow> nat \<Rightarrow> (u32 list \<times> nat) outcome" where
  "rle_pixels look d m a left =
     (if left = 0 then Done ([], 0)
      else bindo (rle_command m a) (\<lambda>(format, n, used).
        let k = (if n = 0 then left else min n left)
        in bindo (rle_pixels look d m (a + of_nat used) (left - k)) (\<lambda>(px, c).
          Done (concat (replicate k (doubled d (look (unat (format AND 0x7F))))) @ px, used + c))))"
  by auto

termination
  by (relation "measure (\<lambda>(_, _, _, _, left). left)") auto

declare rle_pairs.simps [simp del] rle_pixels.simps [simp del]

definition decode_run_length :: "VideoRegisters \<Rightarrow> dram \<Rightarrow> nat \<Rightarrow> u32 \<Rightarrow> u16 \<Rightarrow> (u32 list \<times> u16) outcome" where
  "decode_run_length r m p a output_pixels =
     bindo (if bits_per_pixel (plane r ! p) = BITS_DOUBLE_4 then rle_pairs (clut_lookup r p) m a (unat output_pixels)
            else rle_pixels (clut_lookup r p) (output_pixels \<le> 384) m a (unat output_pixels)) (\<lambda>(px, c). Done (px, of_nat c))"

section \<open>A plane's row\<close>

type_synonym rows = "nat \<Rightarrow> nat \<Rightarrow> u32"

definition store_row :: "nat \<Rightarrow> u32 list \<Rightarrow> rows \<Rightarrow> rows outcome" where
  "store_row q px rs = (if length px \<le> row_capacity then Done (rs(q := (\<lambda>i. if i < length px then px ! i else rs q i))) else Undefined)"

text \<open>\<open>while (x--) output[x] = output[x / mosaic]\<close>, downwards from the row's width.\<close>

fun mosaic_row :: "nat \<Rightarrow> nat \<Rightarrow> (nat \<Rightarrow> u32) \<Rightarrow> nat \<Rightarrow> u32" where
  "mosaic_row mosaic 0 row = row"
| "mosaic_row mosaic (Suc x) row = mosaic_row mosaic x (row(x := row (x div mosaic)))"

definition wide_source :: "PlaneSetup \<Rightarrow> bool" where
  "wide_source st \<longleftrightarrow>
     (file_type st = FILE_BITMAP \<or> file_type st = FILE_MOSAIC) \<and> coding st = CODING_CLUT4 \<or>
     file_type st = FILE_RUN_LENGTH \<and> (bits_per_pixel st = BITS_DOUBLE_4 \<or> bits_per_pixel st = BITS_HIGH_8)"

text \<open>The display width is \<open>w\<close>; the rows are those of both planes.\<close>

definition decode_plane :: "VideoRegisters \<Rightarrow> u16 \<Rightarrow> dram \<Rightarrow> nat \<Rightarrow> u32 \<Rightarrow> u32 \<Rightarrow> u16 \<Rightarrow> rows \<Rightarrow> (rows \<times> u16) outcome" where
  "decode_plane r w m p address address_a source_width rs0 =
     (let st = plane r ! p; rs = rs0(p := (\<lambda>_. 0)); original = (if wide_source st then w else source_width);
          mosaic = (if file_type st = FILE_MOSAIC then unat (mosaic_repeat st) else 1);
          d = (coding st \<noteq> CODING_CLUT4 \<and> original \<le> 384);
          narrow = (if mosaic > 1 then of_nat ((unat original + mosaic - 1) div mosaic) else original)
      in if coding st = CODING_OFF then Done (rs, 0)
         else if file_type st = FILE_RUN_LENGTH
         then bindo (decode_run_length r m p address original) (\<lambda>(px, c). bindo (store_row p px rs) (\<lambda>rs'. Done (rs', c)))
         else bindo (if coding st = CODING_RGB555
                then bindo (decode_rgb555 m address_a address narrow) (\<lambda>(px, c). bindo (store_row 1 px rs) (\<lambda>rs'. Done (rs', c)))
                else bindo (if coding st = CODING_DYUV then decode_dyuv r m p address narrow d else decode_clut r m p address narrow d)
                  (\<lambda>(px, c). bindo (store_row p px rs) (\<lambda>rs'. Done (rs', c))))
           (\<lambda>(rs', c). Done (if mosaic > 1 then rs'(p := mosaic_row mosaic (unat w) (rs' p)) else rs', c)))"

section \<open>Pixel hold\<close>

function hold_row :: "nat \<Rightarrow> nat \<Rightarrow> nat \<Rightarrow> (nat \<Rightarrow> u32) \<Rightarrow> nat \<Rightarrow> u32" where
  "hold_row h w start row =
     (if start < w \<and> h > 0
      then hold_row h w (start + h) (fold (\<lambda>x rw. rw(x := rw start)) [start + 1..<min (start + h) w] row)
      else row)"
  by auto

termination
  by (relation "measure (\<lambda>(h, w, start, _). w - start)") auto

declare hold_row.simps [simp del]

definition apply_pixel_hold :: "VideoRegisters \<Rightarrow> u16 \<Rightarrow> nat \<Rightarrow> rows \<Rightarrow> rows outcome" where
  "apply_pixel_hold r w p rs =
     (let st = plane r ! p
      in if \<not> hold_enabled st then Done rs
         else if hold_count st = 0 then Aborted
         else Done (rs(p := hold_row (unat (hold_count st)) (unat w) 0 (rs p))))"

end
