(* ===== verification/Mcd212_Compose.thy ===== *)
theory Mcd212_Compose
  imports Mcd212_Decode
begin

unbundle bit_operations_syntax

text \<open>
  The compositor of \<^verbatim>\<open>runner/src/mcd212_video.c\<close>: contribution factors, transparency, mattes and the hardware
  cursor, the line-by-line reference drawing and the publication of a finished frame.
\<close>

section \<open>Pixels\<close>

definition apply_contribution :: "(nat \<Rightarrow> nat \<Rightarrow> u8) \<Rightarrow> u32 \<Rightarrow> u8 \<Rightarrow> u32" where
  "apply_contribution lut pixel factor =
     (let t = lut (unat (factor AND 63)); part = (\<lambda>n. ucast (t (unat (drop_bit n pixel AND 255))))
      in pixel AND 0xFF000000 OR push_bit 16 (part 16) OR push_bit 8 (part 8) OR part 0)"

definition matches_color_key :: "VideoRegisters \<Rightarrow> nat \<Rightarrow> u32 \<Rightarrow> bool" where
  "matches_color_key r p pixel =
     (let st = plane r ! p
      in (pixel OR color_mask st) AND 0x00FCFCFC = (transparent_color st OR color_mask st) AND 0x00FCFCFC)"

definition transparent_pixel :: "VideoRegisters \<Rightarrow> nat \<Rightarrow> u32 \<Rightarrow> (nat \<Rightarrow> bool) \<Rightarrow> bool" where
  "transparent_pixel r p pixel matte =
     (let control = transparency (plane r ! p); c = control AND 7;
          predicate =
            (if c = 0 then True else if c = 1 then matches_color_key r p pixel else if c = 2 then bit pixel 31
             else if c = 3 then matte 0 else if c = 4 then matte 1
             else if c = 5 then matte 0 \<or> matches_color_key r p pixel
             else if c = 6 then matte 1 \<or> matches_color_key r p pixel else False)
      in predicate = (\<not> bit control 3))"

definition add_planes :: "u32 \<Rightarrow> u32 \<Rightarrow> u32" where
  "add_planes a b =
     (let sum = (\<lambda>n. saturate (uint (drop_bit n a AND 255) + uint (drop_bit n b AND 255) - 16)) in argb (sum 16) (sum 8) (sum 0))"

section \<open>Mattes\<close>

record MatteState =
  matte_next :: "nat \<Rightarrow> nat"
  matte_limit :: "nat \<Rightarrow> nat"
  matte_flag :: "nat \<Rightarrow> bool"
  matte_factor :: "nat \<Rightarrow> u8"

definition initialize_matte_state :: "VideoRegisters \<Rightarrow> MatteState" where
  "initialize_matte_state r =
     (let selected = (if bit (matte_command r ! 0) 16 then 1 else 0)
      in if two_mattes r
         then \<lparr>matte_next = (\<lambda>i. if i = 0 then 0 else 4), matte_limit = (\<lambda>i. if i = 0 then 4 else 8), matte_flag = (\<lambda>_. False),
           matte_factor = (\<lambda>i. contribution (plane r ! i))\<rparr>
         else \<lparr>matte_next = (\<lambda>i. if i = selected then 0 else 8), matte_limit = (\<lambda>_. 8), matte_flag = (\<lambda>_. False),
           matte_factor = (\<lambda>i. contribution (plane r ! i))\<rparr>)"

definition matte_position :: "u32 \<Rightarrow> nat" where
  "matte_position command = unat (command AND 0x3FF)"

definition matte_effect :: "nat \<Rightarrow> u32 \<Rightarrow> MatteState \<Rightarrow> MatteState" where
  "matte_effect i command st =
     (let oper = drop_bit 20 command AND 15; val = ucast (drop_bit 10 command AND 63);
          st = (if oper = 4 \<or> oper = 12 \<or> oper = 13 then st\<lparr>matte_factor := (matte_factor st)(0 := val)\<rparr> else st);
          st = (if oper = 6 \<or> oper = 14 \<or> oper = 15 then st\<lparr>matte_factor := (matte_factor st)(1 := val)\<rparr> else st);
          st = (if oper = 8 \<or> oper = 12 \<or> oper = 14 then st\<lparr>matte_flag := (matte_flag st)(i := False)\<rparr> else st);
          st = (if oper = 9 \<or> oper = 13 \<or> oper = 15 then st\<lparr>matte_flag := (matte_flag st)(i := True)\<rparr> else st)
      in st\<lparr>matte_next := (matte_next st)(i := Suc (matte_next st i))\<rparr>)"

lemma matte_effect_next [simp]:
  "matte_next (matte_effect i c st) = (matte_next st)(i := Suc (matte_next st i))" "matte_limit (matte_effect i c st) = matte_limit st"
  by (simp_all add: matte_effect_def Let_def)

function matte_loop :: "VideoRegisters \<Rightarrow> nat \<Rightarrow> nat \<Rightarrow> MatteState \<Rightarrow> MatteState" where
  "matte_loop r i x st =
     (let command = matte_command r ! matte_next st i
      in if \<not> matte_next st i < matte_limit st i then st
         else if matte_position command > x then st
         else if drop_bit 20 command AND 15 = 0 then st\<lparr>matte_next := (matte_next st)(i := matte_limit st i)\<rparr>
         else matte_loop r i x (matte_effect i command st))"
  by auto

termination
  by (relation "measure (\<lambda>(r, i, x, st). matte_limit st i - matte_next st i)") auto

declare matte_loop.simps [simp del]

definition apply_matte_commands :: "VideoRegisters \<Rightarrow> nat \<Rightarrow> MatteState \<Rightarrow> MatteState" where
  "apply_matte_commands r x st = matte_loop r 1 x (matte_loop r 0 x st)"

section \<open>Composition\<close>

definition compose_pixel :: "VideoRegisters \<Rightarrow> (nat \<Rightarrow> nat \<Rightarrow> u8) \<Rightarrow> MatteState \<Rightarrow> u32 \<Rightarrow> u32 \<Rightarrow> u32 \<times> u8" where
  "compose_pixel r lut matte raw_a raw_b =
     (let a = apply_contribution lut raw_a (matte_factor matte 0); b = apply_contribution lut raw_b (matte_factor matte 1);
          ta = transparent_pixel r 0 raw_a (matte_flag matte); tb = transparent_pixel r 1 raw_b (matte_flag matte);
          front = (if plane_b_front r then b else a); back = (if plane_b_front r then a else b);
          front_t = (if plane_b_front r then tb else ta); back_t = (if plane_b_front r then ta else tb);
          verdict = (if ta then 1 else 0) OR (if tb then 2 else 0)
      in if mixing r \<and> \<not> ta \<and> \<not> tb then (add_planes a b, verdict OR 0x20)
         else if \<not> front_t then (front OR 0xFF000000, verdict OR 0x04)
         else if \<not> back_t then (back OR 0xFF000000, verdict OR 0x08)
         else (yrgb_color (backdrop r), verdict OR 0x10))"

definition cursor_visible :: "CursorSetup \<Rightarrow> u16 \<Rightarrow> bool" where
  "cursor_visible c line \<longleftrightarrow> cursor_enabled c \<and> unat (cursor_y c) \<le> unat line \<and> unat line < unat (cursor_y c) + 16"

text \<open>The cursor's colour in the given field, or nothing in the dark phase of a plain blink.\<close>

definition cursor_shade :: "CursorSetup \<Rightarrow> u64 \<Rightarrow> u32 option" where
  "cursor_shade c field =
     (let color = yrgb_color (cursor_color c); on = 12 * ucast (on_units c); off = 12 * ucast (off_units c);
          phase = (field - start_field c) mod (on + off)
      in if off_units c \<noteq> 0 \<and> phase \<ge> on
         then (if complementary_blink c then Some (color XOR 0x00FFFFFF) else None)
         else Some color)"

definition cursor_dots :: "CursorSetup \<Rightarrow> u16 \<Rightarrow> nat \<Rightarrow> nat list" where
  "cursor_dots c line w =
     (let pat = pattern c ! (unat line - unat (cursor_y c)); scale = (if high_resolution c then 1 else 2)
      in concat (map (\<lambda>i. if bit pat (15 - i) then filter (\<lambda>x. x < w) (map (\<lambda>j. unat (cursor_x c) + i * scale + j) [0..<scale]) else []) [0..<16]))"

definition draw_cursor :: "VideoPipeline \<Rightarrow> u16 \<Rightarrow> nat \<Rightarrow> (nat \<Rightarrow> u32) \<Rightarrow> nat \<Rightarrow> u32" where
  "draw_cursor v line base pixels =
     (let c = cursor (registers v)
      in if \<not> cursor_visible c line then pixels
         else case cursor_shade c (generation v) of
           None \<Rightarrow> pixels
         | Some color \<Rightarrow> fold (\<lambda>x px. px(base + x := color)) (cursor_dots c line (unat (width v))) pixels)"

text \<open>Storing the result of one pixel: the frame being drawn and the diagnostic snapshots.\<close>

definition put_pixel :: "nat \<Rightarrow> u32 \<Rightarrow> u32 \<Rightarrow> u32 \<times> u8 \<Rightarrow> VideoPipeline \<Rightarrow> VideoPipeline" where
  "put_pixel i raw_a raw_b pv v =
     (let d = drawing_buffer v
      in v\<lparr>frame := (frame v)(d := (frame v d)(i := fst pv)),
           plane_frame := (plane_frame v)(0 := (plane_frame v 0)(i := raw_a OR 0xFF000000), 1 := (plane_frame v 1)(i := raw_b OR 0xFF000000)),
           verdict_frame := (verdict_frame v)(i := snd pv)\<rparr>)"

fun compose_pixels :: "nat \<Rightarrow> nat list \<Rightarrow> MatteState \<Rightarrow> VideoPipeline \<Rightarrow> VideoPipeline" where
  "compose_pixels base [] matte v = v"
| "compose_pixels base (x # xs) matte v =
     (let r = registers v; raw_a = decoded v 0 x; raw_b = decoded v 1 x; matte' = apply_matte_commands r x matte
      in compose_pixels base xs matte' (put_pixel (base + x) raw_a raw_b (compose_pixel r (contribution_lut v) matte' raw_a raw_b) v))"

definition place_cursor :: "u16 \<Rightarrow> nat \<Rightarrow> VideoPipeline \<Rightarrow> VideoPipeline" where
  "place_cursor line base v = v\<lparr>frame := (frame v)(drawing_buffer v := draw_cursor v line base (frame v (drawing_buffer v)))\<rparr>"

definition compose_line :: "u16 \<Rightarrow> VideoPipeline \<Rightarrow> VideoPipeline" where
  "compose_line line v =
     (let base = unat line * unat (width v)
      in if line \<ge> height v then v
         else place_cursor line base (compose_pixels base [0..<unat (width v)] (initialize_matte_state (registers v)) v))"

section \<open>Drawing a line: the reference\<close>

definition draw_line_reference ::
    "dram \<Rightarrow> u32 \<Rightarrow> u32 \<Rightarrow> u16 \<Rightarrow> u16 \<Rightarrow> u16 \<Rightarrow> VideoPipeline \<Rightarrow> (VideoPipeline \<times> u16 \<times> u16) outcome" where
  "draw_line_reference m address_a address_b line wa wb v =
     (let r = registers v
      in bindo (decode_plane r (width v) m 0 address_a address_a wa (decoded v)) (\<lambda>(rs1, ca).
         bindo (decode_plane r (width v) m 1 address_b address_a wb rs1) (\<lambda>(rs2, cb).
         bindo (apply_pixel_hold r (width v) 0 rs2) (\<lambda>rs3.
         bindo (apply_pixel_hold r (width v) 1 rs3) (\<lambda>rs4.
           Done (compose_line line (v\<lparr>decoded := rs4\<rparr>), if coding (plane r ! 1) = CODING_RGB555 then cb else ca, cb))))))"

section \<open>Publication\<close>

fun hash_bytes :: "u64 \<Rightarrow> u8 list \<Rightarrow> u64" where
  "hash_bytes h [] = h"
| "hash_bytes h (b # bs) = hash_bytes ((h XOR ucast b) * 0x00000100000001B3) bs"

text \<open>The bytes of the first \<open>n\<close> pixels in the host's (little-endian) order.\<close>

definition pixel_bytes :: "(nat \<Rightarrow> u32) \<Rightarrow> nat \<Rightarrow> u8 list" where
  "pixel_bytes px n = concat (map (\<lambda>i. map (\<lambda>k. ucast (drop_bit (8 * k) (px i))) [0..<4]) [0..<n])"

definition hash_frame_bytes :: "(nat \<Rightarrow> u32) \<Rightarrow> nat \<Rightarrow> u64" where
  "hash_frame_bytes px n = hash_bytes 0x14650FB0739D0383 (pixel_bytes px n)"

definition frame_pixels :: nat where
  "frame_pixels = 768 * 560"

definition same_pixels :: "(nat \<Rightarrow> u32) \<Rightarrow> (nat \<Rightarrow> u32) \<Rightarrow> nat \<Rightarrow> bool" where
  "same_pixels f g n \<longleftrightarrow> list_all (\<lambda>i. f i = g i) [0..<n]"

definition copy_pixels :: "nat \<Rightarrow> (nat \<Rightarrow> u32) \<Rightarrow> (nat \<Rightarrow> u32) \<Rightarrow> nat \<Rightarrow> u32" where
  "copy_pixels n src dst = (\<lambda>i. if i < n then src i else dst i)"

definition mcd212_video_end_frame :: "bool \<Rightarrow> VideoPipeline \<Rightarrow> VideoPipeline" where
  "mcd212_video_end_frame hle v =
     (let done = drawing_buffer v; other = 1 - done; n = unat (width v) * unat (height v);
          same = same_pixels (frame v (published_buffer v)) (frame v done) n;
          same_content = (generation v \<noteq> 0 \<and> same \<and> width v = published_width v \<and> height v = published_height v);
          hash = (if same_content then published_hash v else hash_frame_bytes (frame v done) n);
          v = v\<lparr>published_buffer := done, published_width := width v, published_height := height v,
                published_hash := (if hle then hash else published_hash v),
                content_generation := (if hle \<and> same_content then content_generation v else content_generation v + 1),
                generation := generation v + 1, publish_sequence := publish_sequence v + 2, drawing_buffer := other\<rparr>
      in if hle \<and> same then v
         else v\<lparr>frame := (frame v)(other := copy_pixels (if hle then n else frame_pixels) (frame v done) (frame v other))\<rparr>)"

text \<open>
  A reader sees the last finished frame: the whole frame, or nothing new when the content is the one it has. Publication
  is one step here, so the retry of the sequence lock never runs; a destination that is too small ends the program.
\<close>

definition published_pixels :: "VideoPipeline \<Rightarrow> u32 list" where
  "published_pixels v = map (frame v (published_buffer v)) [0..<unat (published_width v) * unat (published_height v)]"

text \<open>The capacity is that of the destination, if there is one; the results are the copied pixels, their number, the geometry and the field.\<close>

definition mcd212_video_copy_frame :: "u32 option \<Rightarrow> VideoPipeline \<Rightarrow> (u32 list \<times> u32 \<times> u16 \<times> u16 \<times> u64) outcome" where
  "mcd212_video_copy_frame destination v =
     (let w = published_width v; h = published_height v; pixels = ucast w * ucast h
      in case destination of
           None \<Rightarrow> Done ([], pixels, w, h, generation v)
         | Some capacity \<Rightarrow> if capacity < pixels then Aborted else Done (published_pixels v, pixels, w, h, generation v))"

definition mcd212_video_copy_changed_frame ::
    "u32 option \<Rightarrow> u64 \<Rightarrow> VideoPipeline \<Rightarrow> (u32 list \<times> u32 \<times> u16 \<times> u16 \<times> u64 \<times> u64) outcome" where
  "mcd212_video_copy_changed_frame destination previous_content v =
     (let w = published_width v; h = published_height v; field = generation v; identity = content_generation v;
          copied = (if field \<noteq> 0 \<and> identity \<noteq> previous_content then ucast w * ucast h else 0)
      in case destination of
           None \<Rightarrow> Done ([], copied, w, h, field, identity)
         | Some capacity \<Rightarrow>
             if copied = 0 then Done ([], copied, w, h, field, identity)
             else if capacity < copied then Aborted
             else Done (published_pixels v, copied, w, h, field, identity))"

definition mcd212_video_frame_hash :: "bool \<Rightarrow> VideoPipeline \<Rightarrow> u64 \<times> u16 \<times> u16 \<times> u64" where
  "mcd212_video_frame_hash hle v =
     (let w = published_width v; h = published_height v
      in (if hle \<and> generation v \<noteq> 0 then published_hash v
          else hash_frame_bytes (frame v (published_buffer v)) (unat w * unat h), w, h, generation v))"

end
