(* ===== verification/Mcd212_Scanout.thy ===== *)
theory Mcd212_Scanout
  imports Mcd212_Compose
begin

unbundle bit_operations_syntax

text \<open>
  The optimised scanout of \<^verbatim>\<open>runner/src/mcd212_video.c\<close> (built with \<^verbatim>\<open>CDI_VIDEO_HLE\<close>): a job composes spans of equal source
  colour and matte state, feeding run-length lines straight from memory, and a completed line is reused while its whole
  input is unchanged.
\<close>

record ScanoutSource =
  s_address :: u32
  s_color :: u32
  s_end :: nat
  s_pixels :: nat
  s_produced :: nat
  s_scale :: nat
  s_consumed :: u16
  s_direct :: bool

definition scanout_source ::
    "VideoRegisters \<Rightarrow> u16 \<Rightarrow> dram \<Rightarrow> nat \<Rightarrow> u32 \<Rightarrow> u32 \<Rightarrow> u16 \<Rightarrow> rows \<Rightarrow> (ScanoutSource \<times> rows) outcome" where
  "scanout_source r w m p address address_a source_width rs =
     (let st = plane r ! p;
          wd = (if file_type st = FILE_RUN_LENGTH \<and> bits_per_pixel st = BITS_HIGH_8 then w else source_width);
          scale = (if wd \<le> 384 then 2 else 1);
          direct = (\<not> hold_enabled st \<and> coding st \<in> {CODING_CLUT8, CODING_CLUT7, CODING_CLUT77, CODING_CLUT4} \<and>
            file_type st = FILE_RUN_LENGTH \<and> bits_per_pixel st \<noteq> BITS_DOUBLE_4 \<and> unat wd * scale = unat w);
          source = \<lparr>s_address = address, s_color = 0, s_end = 0, s_pixels = unat wd, s_produced = 0, s_scale = scale,
            s_consumed = 0, s_direct = direct\<rparr>
      in if direct then Done (source, rs(p := (\<lambda>i. if i < unat w then rs p i else 0)))
         else bindo (decode_plane r w m p address address_a source_width rs) (\<lambda>(rs1, c).
              bindo (apply_pixel_hold r w p rs1) (\<lambda>rs2. Done (source\<lparr>s_consumed := c\<rparr>, rs2))))"

function run_end :: "(nat \<Rightarrow> u32) \<Rightarrow> nat \<Rightarrow> u32 \<Rightarrow> nat \<Rightarrow> nat" where
  "run_end row w color e = (if e < w \<and> row e = color then run_end row w color (Suc e) else e)"
  by auto

termination
  by (relation "measure (\<lambda>(row, w, color, e). w - e)") auto

declare run_end.simps [simp del]

definition scanout_next ::
    "VideoRegisters \<Rightarrow> u16 \<Rightarrow> dram \<Rightarrow> nat \<Rightarrow> (nat \<Rightarrow> u32) \<Rightarrow> nat \<Rightarrow> ScanoutSource \<Rightarrow> ScanoutSource outcome" where
  "scanout_next r w m p row x s =
     (if x < s_end s then Done s
      else if s_direct s then
        bindo (rle_command m (s_address s + ucast (s_consumed s))) (\<lambda>(format, n, used).
          let remaining = s_pixels s - s_produced s; k = (if n = 0 then remaining else min n remaining); produced = s_produced s + k
          in Done (s\<lparr>s_consumed := s_consumed s + of_nat used, s_produced := produced, s_end := produced * s_scale s,
               s_color := clut_lookup r p (unat (format AND 0x7F))\<rparr>))
      else Done (s\<lparr>s_color := row x, s_end := run_end row (unat w) (row x) (x + 1)\<rparr>))"

definition scanout_matte_end :: "VideoRegisters \<Rightarrow> u16 \<Rightarrow> MatteState \<Rightarrow> nat" where
  "scanout_matte_end r w st =
     fold (\<lambda>i e. if matte_next st i < matte_limit st i then min e (matte_position (matte_command r ! matte_next st i)) else e)
       [0, 1] (unat w)"

definition scanout_span :: "nat \<Rightarrow> nat \<Rightarrow> nat \<Rightarrow> u32 \<Rightarrow> u32 \<Rightarrow> MatteState \<Rightarrow> VideoPipeline \<Rightarrow> VideoPipeline" where
  "scanout_span base x e raw_a raw_b matte v =
     (let pv = compose_pixel (registers v) (contribution_lut v) matte raw_a raw_b
      in fold (\<lambda>i. put_pixel (base + i) raw_a raw_b pv) [x..<e] v)"

definition fill_row :: "ScanoutSource \<Rightarrow> nat \<Rightarrow> nat \<Rightarrow> nat \<Rightarrow> rows \<Rightarrow> rows" where
  "fill_row s p x e rs = (if s_direct s then rs(p := (\<lambda>i. if x \<le> i \<and> i < e then s_color s else rs p i)) else rs)"

text \<open>The loop over spans. Each span advances, so the width bounds their number; running out would be a span that does not.\<close>

fun scanout_loop ::
    "nat \<Rightarrow> dram \<Rightarrow> nat \<Rightarrow> nat \<Rightarrow> ScanoutSource \<Rightarrow> ScanoutSource \<Rightarrow> MatteState \<Rightarrow> VideoPipeline \<Rightarrow>
     (ScanoutSource \<times> ScanoutSource \<times> VideoPipeline) outcome" where
  "scanout_loop 0 m base x a b matte v = (if x < unat (width v) then Undefined else Done (a, b, v))"
| "scanout_loop (Suc fuel) m base x a b matte v =
     (if \<not> x < unat (width v) then Done (a, b, v)
      else let r = registers v; w = width v
        in bindo (scanout_next r w m 0 (decoded v 0) x a) (\<lambda>a'.
           bindo (scanout_next r w m 1 (decoded v 1) x b) (\<lambda>b'.
             let matte' = apply_matte_commands r x matte; e = min (min (s_end a') (s_end b')) (scanout_matte_end r w matte');
                 v' = v\<lparr>decoded := fill_row b' 1 x e (fill_row a' 0 x e (decoded v))\<rparr>
             in scanout_loop fuel m base e a' b' matte' (scanout_span base x e (s_color a') (s_color b') matte' v'))))"

definition scanout_job ::
    "dram \<Rightarrow> u32 \<Rightarrow> u32 \<Rightarrow> u16 \<Rightarrow> u16 \<Rightarrow> u16 \<Rightarrow> VideoPipeline \<Rightarrow> (VideoPipeline \<times> u16 \<times> u16) outcome" where
  "scanout_job m address_a address_b line wa wb v =
     (let r = registers v; w = width v; base = unat line * unat w
      in bindo (scanout_source r w m 0 address_a address_a wa (decoded v)) (\<lambda>(a, rs1).
         bindo (scanout_source r w m 1 address_b address_a wb rs1) (\<lambda>(b, rs2).
         bindo (scanout_loop (unat w) m base 0 a b (initialize_matte_state r)
             (v\<lparr>decoded := rs2, fused_jobs := (if s_direct a \<or> s_direct b then fused_jobs v + 1 else fused_jobs v)\<rparr>)) (\<lambda>(a', b', v').
           Done (place_cursor line base v',
             if coding (plane r ! 1) = CODING_RGB555 then s_consumed b' else s_consumed a', s_consumed b')))))"

section \<open>Reuse of completed lines\<close>

definition line_source :: "dram \<Rightarrow> u32 \<Rightarrow> u16 \<Rightarrow> u8 list option" where
  "line_source m address count =
     (let n = unat count
      in if n = 0 then Some []
         else if n > 2 * row_capacity then None
         else if address < 0x80000 \<and> n \<le> 0x80000 - unat address then Some (map (\<lambda>i. fst m (address + of_nat i)) [0..<n])
         else if address \<ge> 0x200000 \<and> address - 0x200000 < 0x80000 \<and> n \<le> 0x80000 - unat (address - 0x200000)
         then Some (map (\<lambda>i. snd m (address - 0x200000 + of_nat i)) [0..<n])
         else None)"

definition line_eligible :: "VideoRegisters \<Rightarrow> u16 \<Rightarrow> bool" where
  "line_eligible r line \<longleftrightarrow>
     coding (plane r ! 1) \<noteq> CODING_RGB555 \<and> \<not> (cursor_visible (cursor r) line \<and> off_units (cursor r) \<noteq> 0)"

definition line_key :: "VideoRegisters \<Rightarrow> VideoRegisters" where
  "line_key r = (if \<not> cursor_enabled (cursor r) \<or> off_units (cursor r) = 0 then r\<lparr>cursor := (cursor r)\<lparr>start_field := 0\<rparr>\<rparr> else r)"

definition line_reusable :: "dram \<Rightarrow> u32 \<Rightarrow> u32 \<Rightarrow> u16 \<Rightarrow> u16 \<Rightarrow> VideoRegisters \<Rightarrow> CompletedLine \<Rightarrow> bool" where
  "line_reusable m a b wa wb r job \<longleftrightarrow>
     line_valid job \<and> line_address job 0 = a \<and> line_address job 1 = b \<and> line_width job 0 = wa \<and> line_width job 1 = wb \<and>
     line_registers job = line_key r \<and>
     (\<forall>p\<in>{0, 1}. line_source m (line_address job p) (line_consumed job p) = Some (line_bytes job p))"

definition set_job :: "u16 \<Rightarrow> CompletedLine \<Rightarrow> VideoPipeline \<Rightarrow> VideoPipeline" where
  "set_job line job v = v\<lparr>completed_lines := (completed_lines v)(unat line := job)\<rparr>"

text \<open>What remains in the entry after a job ran: the inputs and, when both sources lie in one bank, the finished rows.\<close>

definition record_line ::
    "dram \<Rightarrow> u32 \<Rightarrow> u32 \<Rightarrow> u16 \<Rightarrow> u16 \<Rightarrow> u16 \<Rightarrow> VideoRegisters \<Rightarrow> rows \<Rightarrow> bool \<Rightarrow> u16 \<Rightarrow> u16 \<Rightarrow> CompletedLine \<Rightarrow> CompletedLine" where
  "record_line m a b line wa wb r rs eligible ca cb job0 =
     (let job = job0\<lparr>line_valid := False, line_consumed := (line_consumed job0)(0 := ca, 1 := cb)\<rparr>;
          named = job\<lparr>line_address := (line_address job)(0 := a, 1 := b), line_width := (line_width job)(0 := wa, 1 := wb)\<rparr>
      in if \<not> eligible then job
         else case line_source m a ca of
           None \<Rightarrow> named
         | Some sa \<Rightarrow> (case line_source m b cb of
             None \<Rightarrow> named\<lparr>line_bytes := (line_bytes named)(0 := sa)\<rparr>
           | Some sb \<Rightarrow> named\<lparr>line_bytes := (line_bytes named)(0 := sa, 1 := sb), line_registers := line_key r, line_decoded := rs,
               line_valid := True\<rparr>))"

definition reusable_line ::
    "dram \<Rightarrow> u32 \<Rightarrow> u32 \<Rightarrow> u16 \<Rightarrow> u16 \<Rightarrow> u16 \<Rightarrow> VideoPipeline \<Rightarrow> (VideoPipeline \<times> u16 \<times> u16) outcome" where
  "reusable_line m a b line wa wb v =
     (let r = registers v; job = completed_lines v (unat line); eligible = line_eligible r line
      in if eligible \<and> line_reusable m a b wa wb r job
         then Done (v\<lparr>decoded := (decoded v)(0 := line_decoded job 0, 1 := line_decoded job 1), reused_jobs := reused_jobs v + 1\<rparr>, line_consumed job 0, line_consumed job 1)
         else bindo (scanout_job m a b line wa wb (set_job line (job\<lparr>line_valid := False\<rparr>) v)) (\<lambda>(v', ca, cb).
           Done (set_job line (record_line m a b line wa wb r (decoded v') eligible ca cb job) v', ca, cb)))"

definition mcd212_video_draw_line ::
    "bool \<Rightarrow> dram \<Rightarrow> u32 \<Rightarrow> u32 \<Rightarrow> u16 \<Rightarrow> u16 \<Rightarrow> u16 \<Rightarrow> VideoPipeline \<Rightarrow> (VideoPipeline \<times> u16 \<times> u16) outcome" where
  "mcd212_video_draw_line hle m a b line wa wb v0 =
     (let v = v0\<lparr>scanout_jobs := scanout_jobs v0 + 1\<rparr>
      in if hle \<and> line < height v then reusable_line m a b line wa wb v else draw_line_reference m a b line wa wb v)"

end
