(* ===== verification/Mcd212_Engine.thy ===== *)
theory Mcd212_Engine
  imports Scc_Bus Mcd212_Scanout M68k_Exception
begin

unbundle bit_operations_syntax

text \<open>
  The display controller's register and scan engine (\<^verbatim>\<open>runner/src/mcd212.c\<close>) on the whole machine: live video
  and control pointers, initial and dynamic control areas, the raster counters, the frame boundary, the clock
  quantum that drives every board device, and the idle batch of a stopped processor. The runtime's entry points
  into the clock (\<^verbatim>\<open>runtime.c\<close>) and the scripted input that follows the frame counter (\<^verbatim>\<open>slave.c\<close>) are here too.
  Events for the debugger and the host's real-time wait have no effect on the machine and are left out.
\<close>

type_synonym board = "VideoPipeline machine"

section \<open>Registers and geometry\<close>

abbreviation (input) "REG_CSR2W \<equiv> 0x00 :: u32"
abbreviation (input) "REG_DCR2 \<equiv> 0x02 :: u32"
abbreviation (input) "REG_VSR2 \<equiv> 0x04 :: u32"
abbreviation (input) "REG_DDR2 \<equiv> 0x08 :: u32"
abbreviation (input) "REG_DCP2 \<equiv> 0x0A :: u32"
abbreviation (input) "REG_CSR1W \<equiv> 0x10 :: u32"
abbreviation (input) "REG_DCR1 \<equiv> 0x12 :: u32"
abbreviation (input) "REG_VSR1 \<equiv> 0x14 :: u32"
abbreviation (input) "REG_DDR1 \<equiv> 0x18 :: u32"
abbreviation (input) "REG_DCP1 \<equiv> 0x1A :: u32"
abbreviation (input) "DCR_DISPLAY_ENABLE \<equiv> 0x8000 :: u16"
abbreviation (input) "DCR_CLOCK_FORMAT \<equiv> 0x4000 :: u16"
abbreviation (input) "DCR_FRAME_DURATION \<equiv> 0x2000 :: u16"
abbreviation (input) "DCR_SCAN_MODE \<equiv> 0x1000 :: u16"
abbreviation (input) "DCR_COLOR_MODE \<equiv> 0x0800 :: u16"
abbreviation (input) "DCR_ICA_ENABLE \<equiv> 0x0200 :: u16"
abbreviation (input) "STATUS_DISPLAY_ACTIVE \<equiv> 0x80 :: u8"
abbreviation (input) "STATUS_PARITY \<equiv> 0x20 :: u8"

definition plane_dcr :: "nat \<Rightarrow> u32" where "plane_dcr p = (if p \<noteq> 0 then REG_DCR2 else REG_DCR1)"
definition plane_vsr :: "nat \<Rightarrow> u32" where "plane_vsr p = (if p \<noteq> 0 then REG_VSR2 else REG_VSR1)"
definition plane_ddr :: "nat \<Rightarrow> u32" where "plane_ddr p = (if p \<noteq> 0 then REG_DDR2 else REG_DDR1)"
definition plane_dcp :: "nat \<Rightarrow> u32" where "plane_dcp p = (if p \<noteq> 0 then REG_DCP2 else REG_DCP1)"

definition ntsc_duration :: "'v machine \<Rightarrow> bool" where
  "ntsc_duration s \<longleftrightarrow> vreg REG_DCR1 s AND DCR_FRAME_DURATION \<noteq> 0"

definition interlaced :: "'v machine \<Rightarrow> bool" where
  "interlaced s \<longleftrightarrow> vreg REG_DCR1 s AND DCR_SCAN_MODE \<noteq> 0"

definition clock_format :: "'v machine \<Rightarrow> bool" where
  "clock_format s \<longleftrightarrow> vreg REG_DCR1 s AND DCR_CLOCK_FORMAT \<noteq> 0"

definition standard_bit :: "'v machine \<Rightarrow> bool" where
  "standard_bit s \<longleftrightarrow> vreg REG_CSR1W s AND 0x0002 \<noteq> 0"

definition display_enable :: "'v machine \<Rightarrow> bool" where
  "display_enable s \<longleftrightarrow> vreg REG_DCR1 s AND DCR_DISPLAY_ENABLE \<noteq> 0"

definition total_raster_lines :: "'v machine \<Rightarrow> u32" where
  "total_raster_lines s = (if ntsc_duration s then 262 else 312)"

definition blanking_lines :: "'v machine \<Rightarrow> u32" where
  "blanking_lines s = (if ntsc_duration s then 22 else if standard_bit s then 72 else 32)"

definition raster_line_period_ns :: "'v machine \<Rightarrow> rat" where
  "raster_line_period_ns s = (if clock_format s then 63560 else 64000)"

definition raster_width :: "'v machine \<Rightarrow> u32" where
  "raster_width s = (if \<not> clock_format s \<and> \<not> standard_bit s then 360 else 384)"

definition raster_height :: "'v machine \<Rightarrow> u32" where
  "raster_height s = (if ntsc_duration s then 240 else if \<not> clock_format s \<and> \<not> standard_bit s then 240 else 280)"

section \<open>Display memory and pointers\<close>

definition read_dram_byte :: "u32 \<Rightarrow> ('v machine, u8) exec" where
  "read_dram_byte address s =
     (if address < CDI_RAM_SIZE then (Done (g_ram0 s address), s)
      else if address \<ge> CDI_RAM1_BASE \<and> address - CDI_RAM1_BASE < CDI_RAM_SIZE
      then (Done (g_ram1 s (address - CDI_RAM1_BASE)), s)
      else (Aborted, s))"

definition fetch_control_instruction :: "u32 \<Rightarrow> ('v machine, u32) exec" where
  "fetch_control_instruction address =
     fold (\<lambda>i m. bindx m (\<lambda>v. bindx (read_dram_byte (address + i)) (\<lambda>b. ret (push_bit 8 v OR ucast b))))
       [0, 1, 2, 3] (ret 0)"

definition read_pointer :: "u32 \<Rightarrow> u32 \<Rightarrow> 'v machine \<Rightarrow> u32" where
  "read_pointer upper_register lower_register s =
     push_bit 16 (ucast (vreg upper_register s AND 0x003F)) OR ucast (vreg lower_register s)"

definition video_start :: "nat \<Rightarrow> 'v machine \<Rightarrow> u32" where
  "video_start p = read_pointer (plane_dcr p) (plane_vsr p)"

definition dynamic_control_pointer :: "nat \<Rightarrow> 'v machine \<Rightarrow> u32" where
  "dynamic_control_pointer p = read_pointer (plane_ddr p) (plane_dcp p)"

definition set_video_start :: "nat \<Rightarrow> u32 \<Rightarrow> 'v machine \<Rightarrow> 'v machine" where
  "set_video_start p address s =
     (let control = plane_dcr p; preserved = vreg control s AND (if p \<noteq> 0 then 0x0B00 else 0xFB00)
      in set_vreg (plane_vsr p) (ucast address) (set_vreg control (preserved OR ucast (drop_bit 16 address AND 0x3F)) s))"

definition set_dynamic_control_pointer :: "nat \<Rightarrow> u32 \<Rightarrow> 'v machine \<Rightarrow> 'v machine" where
  "set_dynamic_control_pointer p address s =
     (let data_descriptor = plane_ddr p
      in set_vreg (plane_dcp p) (ucast address)
           (set_vreg data_descriptor ((vreg data_descriptor s AND 0x0F00) OR ucast (drop_bit 16 address AND 0x3F)) s))"

section \<open>Control programs\<close>

definition signal_control_interrupt :: "nat \<Rightarrow> 'v machine \<Rightarrow> 'v machine" where
  "signal_control_interrupt p s =
     (let control = vreg (if p \<noteq> 0 then REG_CSR2W else REG_CSR1W) s;
          s' = upd_vdsc (\<lambda>d. d\<lparr>interrupt_status :=
                 (interrupt_status d AND (if p \<noteq> 0 then 0x05 else 0x03)) OR (if p \<noteq> 0 then 0x02 else 0x04)\<rparr>) s
      in if control AND 0x8000 = 0 then s'\<lparr>b_irq := cdi_irq_raise_onchip (periph_lir (m_periph s)) 1 (b_irq s)\<rparr> else s')"

datatype ControlResult = CONTROL_CONTINUE | CONTROL_STOP

definition apply_display_parameters :: "nat \<Rightarrow> u32 \<Rightarrow> 'v machine \<Rightarrow> 'v machine" where
  "apply_display_parameters p instruction s =
     (let control = plane_dcr p; descriptor = plane_ddr p;
          color_mode = ucast (drop_bit 4 instruction AND 1); mosaic_factor = ucast (drop_bit 2 instruction AND 3);
          file_type = ucast (instruction AND 3); control_mask = (if p \<noteq> 0 then 0x033F else 0xF33F);
          s1 = set_vreg control ((vreg control s AND control_mask) OR push_bit 11 color_mode) s
      in set_vreg descriptor ((vreg descriptor s1 AND 0x003F) OR push_bit 10 mosaic_factor OR push_bit 8 file_type) s1)"

text \<open>The stream cursor is passed in and returned, as it is a pointer in the code.\<close>

definition execute_flow_command :: "nat \<Rightarrow> u32 \<Rightarrow> u32 \<Rightarrow> bool \<Rightarrow> ('v machine, ControlResult \<times> u32) exec" where
  "execute_flow_command p instruction stream_address initial_area s =
     (let opcode = drop_bit 28 instruction; aligned_pointer = instruction AND 0x003FFFFC;
          byte_pointer = instruction AND 0x003FFFFF;
          result = (if opcode = 3 \<or> opcode = 5 then CONTROL_STOP else CONTROL_CONTINUE)
      in if opcode = 0 then (Done (CONTROL_STOP, stream_address), s)
         else if opcode = 2 \<or> opcode = 3
         then (Done (result, stream_address), set_dynamic_control_pointer p aligned_pointer s)
         else if opcode = 4
         then (if initial_area then (Done (result, byte_pointer), s)
               else (Done (result, stream_address), set_video_start p byte_pointer s))
         else if opcode = 5 then (Done (result, stream_address), set_video_start p byte_pointer s)
         else if opcode = 6 then (Done (result, stream_address), signal_control_interrupt p s)
         else if opcode = 7 \<and> drop_bit 24 instruction = 0x78
         then (Done (result, stream_address), apply_display_parameters p instruction s)
         else (Done (result, stream_address), s))"

text \<open>A call into the pixel pipeline; leaving it early leaves the machine as it was before the call.\<close>

definition videox :: "(board \<Rightarrow> (VideoPipeline \<times> 'a) outcome) \<Rightarrow> (board, 'a) exec" where
  "videox f s = (case f s of
       Done (v, x) \<Rightarrow> (Done x, s\<lparr>m_video := v\<rparr>)
     | Bus_Error a \<Rightarrow> (Bus_Error a, s) | Aborted \<Rightarrow> (Aborted, s) | Undefined \<Rightarrow> (Undefined, s))"

definition video_control :: "nat \<Rightarrow> u32 \<Rightarrow> (board, unit) exec" where
  "video_control p instruction = videox (\<lambda>s. bindo (mcd212_video_control p instruction (m_video s)) (\<lambda>v. Done (v, ())))"

fun initial_area_loop :: "nat \<Rightarrow> nat \<Rightarrow> u32 \<Rightarrow> (board, unit) exec" where
  "initial_area_loop p 0 pos = ret ()"
| "initial_area_loop p (Suc left) pos =
     bindx (fetch_control_instruction pos) (\<lambda>instruction.
     bindx (execute_flow_command p instruction (pos + 4) True) (\<lambda>(result, pos').
       if result = CONTROL_STOP then ret ()
       else thenx (video_control p instruction) (initial_area_loop p left pos')))"

definition run_initial_control_area :: "nat \<Rightarrow> (board, unit) exec" where
  "run_initial_control_area p s =
     (let words_per_blanking_line = (if clock_format s then 120 else 112);
          limit = words_per_blanking_line * unat (blanking_lines s);
          pos = (if interlaced s \<and> display_status (vdsc s) AND STATUS_PARITY = 0 then 0x404 else 0x400);
          pos' = (if p \<noteq> 0 then pos + CDI_RAM1_BASE else pos)
      in initial_area_loop p limit pos' s)"

fun dynamic_area_loop :: "nat \<Rightarrow> nat \<Rightarrow> (board, unit) exec" where
  "dynamic_area_loop p 0 = ret ()"
| "dynamic_area_loop p (Suc left) =
     bindx (getx (dynamic_control_pointer p)) (\<lambda>pos.
     thenx (modx (set_dynamic_control_pointer p (pos + 4)))
       (bindx (fetch_control_instruction pos) (\<lambda>instruction.
        bindx (execute_flow_command p instruction pos False) (\<lambda>(result, _).
          if result = CONTROL_STOP then ret ()
          else thenx (video_control p instruction) (dynamic_area_loop p left)))))"

definition run_dynamic_control_area :: "nat \<Rightarrow> (board, unit) exec" where
  "run_dynamic_control_area p s = dynamic_area_loop p (if clock_format s then 16 else 8) s"

section \<open>Raster\<close>

text \<open>The build option of the optimised scanout and the frame at which the program is parked (0 for never).\<close>

record display_config =
  video_hle :: bool
  g_stop_frame :: u64

definition begin_active_line :: "'v machine \<Rightarrow> 'v machine" where
  "begin_active_line s =
     (let s1 = upd_vdsc (\<lambda>d. d\<lparr>display_status := display_status d OR STATUS_DISPLAY_ACTIVE\<rparr>) s
      in if \<not> interlaced s \<or> g_frame_count s AND 1 \<noteq> 0
         then upd_vdsc (\<lambda>d. d\<lparr>display_status := display_status d OR STATUS_PARITY\<rparr>) s1
         else upd_vdsc (\<lambda>d. d\<lparr>display_status := display_status d AND NOT STATUS_PARITY,
                             image_line := (if image_line d = 0 then 1 else image_line d)\<rparr>) s1)"

definition plane_width :: "nat \<Rightarrow> u32 \<Rightarrow> 'v machine \<Rightarrow> u16" where
  "plane_width p w s = ucast (w * (if vreg (plane_dcr p) s AND DCR_COLOR_MODE \<noteq> 0 then 2 else 1))"

definition video_begin_frame :: "display_config \<Rightarrow> (board, unit) exec" where
  "video_begin_frame c = videox (\<lambda>s.
     bindo (mcd212_video_begin_frame (video_hle c) (ucast (raster_width s)) (ucast (raster_height s)) (interlaced s) (m_video s))
       (\<lambda>v. Done (v, ())))"

definition video_draw_line :: "display_config \<Rightarrow> (board, u16 \<times> u16) exec" where
  "video_draw_line c = videox (\<lambda>s.
     mcd212_video_draw_line (video_hle c) (g_ram0 s, g_ram1 s) (video_start 0 s) (video_start 1 s) (image_line (vdsc s))
       (plane_width 0 (raster_width s) s) (plane_width 1 (raster_width s) s) (m_video s))"

definition draw_active_line :: "display_config \<Rightarrow> (board, unit) exec" where
  "draw_active_line c s0 =
     thenx (if image_line (vdsc s0) \<le> 1 then video_begin_frame c else ret ())
       (\<lambda>s. if \<not> display_enable s then (Done (), s)
         else
           let start_a = video_start 0 s; start_b = video_start 1 s
           in bindx (video_draw_line c) (\<lambda>(consumed_a, consumed_b).
              thenx (modx (set_video_start 0 (start_a + ucast consumed_a)))
             (thenx (modx (set_video_start 1 (start_b + ucast consumed_b)))
             (thenx (\<lambda>s. if vreg REG_DCR1 s AND 0x0300 = 0x0300 then run_dynamic_control_area 0 s else (Done (), s))
                    (\<lambda>s. if vreg REG_DCR2 s AND 0x0300 = 0x0300 then run_dynamic_control_area 1 s else (Done (), s))))) s) s0"

text \<open>Scripted input that is due at the finished frame, applied in order.\<close>

function cdi_input_schedule_advance :: "u64 \<Rightarrow> 'v machine \<Rightarrow> 'v machine" where
  "cdi_input_schedule_advance completed_frame s =
     (if input_schedule_position s < length (input_schedule s) \<and>
         fst (input_schedule s ! input_schedule_position s) \<le> completed_frame
      then cdi_input_schedule_advance completed_frame
        (s\<lparr>b_input := cdi_input_set (snd (input_schedule s ! input_schedule_position s)) (b_input s),
           input_schedule_position := Suc (input_schedule_position s)\<rparr>)
      else s)"
  by auto
termination
  by (relation "measure (\<lambda>(_, s). length (input_schedule s) - input_schedule_position s)") auto

declare cdi_input_schedule_advance.simps [simp del]

definition finish_frame :: "display_config \<Rightarrow> (board, unit) exec" where
  "finish_frame c s =
     (let s1 = upd_vdsc (\<lambda>d. d\<lparr>display_status := display_status d AND NOT STATUS_DISPLAY_ACTIVE,
                              raster_line := 0, image_line := 0\<rparr>) s;
          s2 = s1\<lparr>m_video := mcd212_video_end_frame (video_hle c) (m_video s1), g_frame_count := g_frame_count s1 + 1\<rparr>;
          s3 = cdi_input_schedule_advance (g_frame_count s2) s2
      in if g_stop_frame c \<noteq> 0 \<and> g_frame_count s3 \<ge> g_stop_frame c then (Aborted, s3) else (Done (), s3))"

definition initial_control_areas :: "(board, unit) exec" where
  "initial_control_areas =
     thenx (\<lambda>s. if vreg REG_DCR1 s AND DCR_ICA_ENABLE \<noteq> 0 then run_initial_control_area 0 s else (Done (), s))
           (\<lambda>s. if vreg REG_DCR2 s AND DCR_ICA_ENABLE \<noteq> 0 then run_initial_control_area 1 s else (Done (), s))"

definition advance_one_raster_line :: "display_config \<Rightarrow> (board, unit) exec" where
  "advance_one_raster_line c s0 =
     (let s = upd_vdsc (\<lambda>d. d\<lparr>raster_line := raster_line d + 1\<rparr>) s0
      in if raster_line (vdsc s) \<le> blanking_lines s
         then if raster_line (vdsc s) = 1 \<and> display_enable s then initial_control_areas s else (Done (), s)
         else thenx (draw_active_line c)
           (thenx (\<lambda>s. (Done (), upd_vdsc (\<lambda>d. d\<lparr>image_line := image_line d + (if interlaced s then 2 else 1)\<rparr>) s))
             (\<lambda>s. if raster_line (vdsc s) \<ge> total_raster_lines s then finish_frame c s else (Done (), s)))
           (begin_active_line s))"

section \<open>The clock quantum\<close>

text \<open>A computation that may not return: \<open>None\<close> stands for a loop that never ends.\<close>

partial_function (option) raster_loop :: "display_config \<Rightarrow> board \<Rightarrow> (unit outcome \<times> board) option" where
  "raster_loop c s =
     (if line_phase_ns (vdsc s) \<ge> raster_line_period_ns s
      then (case advance_one_raster_line c
              (upd_vdsc (\<lambda>d. d\<lparr>line_phase_ns := dsub (line_phase_ns d) (raster_line_period_ns s)\<rparr>) s) of
              (r, s') \<Rightarrow> if r = Done () then raster_loop c s' else Some (r, s'))
      else Some (Done (), s))"

abbreviation (input) "CDI_PACE_CHUNK_CYCLES \<equiv> 151049 :: u64"

text \<open>The host's clock decides only how long the host waits; the pending cycles are what the board sees.\<close>

definition runtime_pace_cycles :: "u32 \<Rightarrow> 'v machine \<Rightarrow> 'v machine" where
  "runtime_pace_cycles cycles s =
     (let pending = s_pace_pending_cycles s + ucast cycles
      in if \<not> s_realtime_pacing s then s
         else if pending < CDI_PACE_CHUNK_CYCLES then s\<lparr>s_pace_pending_cycles := pending\<rparr>
         else s\<lparr>s_pace_pending_cycles := 0\<rparr>)"

definition cycle_ns :: rat where
  "cycle_ns = ddiv 1000000000 15104900"

text \<open>The conversion of a non-negative double to \<^verbatim>\<open>uint64_t\<close>.\<close>

definition to_u64 :: "rat \<Rightarrow> u64" where
  "to_u64 x = word_of_int \<lfloor>x\<rfloor>"

definition board_devices :: "u32 \<Rightarrow> rat \<Rightarrow> 'v machine \<Rightarrow> 'v machine option" where
  "board_devices cycles elapsed_ns s =
     (let (p, i) = periph_increment_timer cycles (m_periph s, b_irq s);
          s1 = slave_increment_time (to_u64 elapsed_ns) (s\<lparr>m_periph := p, b_irq := i\<rparr>);
          s2 = cdic_increment_time (to_u64 elapsed_ns) s1
      in map_option (\<lambda>r. s2\<lparr>m_nvram := r, g_total_cycles := g_total_cycles s2 + ucast cycles\<rparr>)
           (nvram_increment_clock elapsed_ns (m_nvram s2)))"

definition mcd212_tick :: "display_config \<Rightarrow> u32 \<Rightarrow> board \<Rightarrow> (unit outcome \<times> board) option" where
  "mcd212_tick c cycles s =
     (let elapsed_ns = dmul (of_nat (unat cycles)) cycle_ns
      in Option.bind (board_devices cycles elapsed_ns s) (\<lambda>s1.
           map_option (\<lambda>(r, s2). (r, if r = Done () then runtime_pace_cycles cycles s2 else s2))
             (raster_loop c (upd_vdsc (\<lambda>d. d\<lparr>line_phase_ns := dadd (line_phase_ns d) elapsed_ns\<rparr>) s1))))"

section \<open>Reset and observation\<close>

definition mcd212_reset :: "board \<Rightarrow> board" where
  "mcd212_reset s = s\<lparr>vdsc := \<lparr>vdsc_register = (\<lambda>_. 0), display_status = 0, interrupt_status = 0, line_phase_ns = 0,
     raster_line = 0, image_line = 0\<rparr>, m_video := mcd212_video_reset\<rparr>"

definition mcd212_render_frame :: "board \<Rightarrow> u32 list outcome" where
  "mcd212_render_frame s = bindo (mcd212_video_copy_frame (Some (768 * 560)) (m_video s)) (\<lambda>r. Done (fst r))"

definition mcd212_framebuffer_info :: "board \<Rightarrow> (u32 \<times> u16 \<times> u16 \<times> u64) outcome" where
  "mcd212_framebuffer_info s = bindo (mcd212_video_copy_frame None (m_video s)) (\<lambda>r. Done (snd r))"

end
