(* ===== verification/M68k_Step.thy ===== *)
theory M68k_Step
  imports M68k_Exec Mcd212_Engine
begin

unbundle bit_operations_syntax

text \<open>
  Stepping the interpreter (\<^verbatim>\<open>runner/src/m68k_interp.c\<close>): the instruction window, the SCC68070 timing table, one
  instruction with its bus-error landing pad and its device time, and the two run loops; and the runtime's exception
  timing and interrupt delivery (\<^verbatim>\<open>runner/src/runtime.c\<close>). The decoder is another repository's code and a parameter:
  it maps the 64 bytes at an address, and that address, to an instruction. Trace and discovery records are left out.
\<close>

section \<open>Computations with device time\<close>

text \<open>\<open>None\<close> stands for a computation that never returns.\<close>

type_synonym 'a timed = "board \<Rightarrow> ('a outcome \<times> board) option"

definition lift :: "(board, 'a) exec \<Rightarrow> 'a timed" where
  "lift m s = Some (m s)"

definition bindt :: "'a timed \<Rightarrow> ('a \<Rightarrow> 'b timed) \<Rightarrow> 'b timed" where
  "bindt m k s =
     (case m s of
        None \<Rightarrow> None
      | Some (Done x, s') \<Rightarrow> k x s'
      | Some (Bus_Error a, s') \<Rightarrow> Some (Bus_Error a, s')
      | Some (Aborted, s') \<Rightarrow> Some (Aborted, s')
      | Some (Undefined, s') \<Rightarrow> Some (Undefined, s'))"

lemma bindt_lift [simp]: "m s = (Done x, s') \<Longrightarrow> bindt (lift m) k s = k x s'"
  by (simp add: bindt_def lift_def)

lemma bindt_some [simp]: "m s = Some (Done x, s') \<Longrightarrow> bindt m k s = k x s'"
  by (simp add: bindt_def)

lemma lift_apply [simp]: "lift m s = Some (m s)"
  by (simp add: lift_def)

section \<open>Exception timing and interrupts\<close>

definition glue_check_vblank :: "display_config \<Rightarrow> unit timed" where
  "glue_check_vblank c s =
     bindt (mcd212_tick c (g_cycle_accumulator s)) (\<lambda>_. lift (modx (\<lambda>s. s\<lparr>g_cycle_accumulator := 0\<rparr>))) s"

definition runtime_defer_exception_cycles :: "display_config \<Rightarrow> u32 \<Rightarrow> unit timed" where
  "runtime_defer_exception_cycles c cycles s =
     bindt (if g_cycle_accumulator s \<noteq> 0 then glue_check_vblank c else lift (ret ()))
       (\<lambda>_. lift (modx (\<lambda>s. s\<lparr>g_cycle_accumulator := cycles, g_audio_cycle_counter := g_audio_cycle_counter s + cycles\<rparr>))) s"

text \<open>\<open>armed\<close> is whether the top-level loop has set the landing pad; the result tells whether control went there.\<close>

definition recomp_take_irq :: "display_config \<Rightarrow> bool \<Rightarrow> bool timed" where
  "recomp_take_irq c armed s =
     (if \<not> irq_accepted (SR (g_cpu s)) (b_irq s) \<or> \<not> armed then Some (Done False, s)
      else
        let (vec, i) = consume_irq (b_irq s)
        in bindt (lift (build_exception_frame vec)) (\<lambda>_.
           bindt (runtime_defer_exception_cycles c 65) (\<lambda>_. lift (ret True))) (s\<lparr>b_irq := i, g_halted := False\<rparr>))"

section \<open>Instruction fetch\<close>

abbreviation (input) "BUSWIN \<equiv> 64 :: nat"

fun read_window :: "nat \<Rightarrow> u32 \<Rightarrow> ('v machine, u8 list) exec" where
  "read_window 0 a = ret []"
| "read_window (Suc n) a = bindx (m68k_read8 (a AND 0xFFFFFF)) (\<lambda>b. mapx ((#) b) (read_window n (a + 1)))"

definition busview :: "u32 \<Rightarrow> ('v machine, u8 list) exec" where
  "busview pc = read_window BUSWIN (pc AND 0xFFFFFF)"

type_synonym decoder = "u8 list \<Rightarrow> u32 \<Rightarrow> M68KInstr option"

definition m68k_interp_decode_at :: "decoder \<Rightarrow> u32 \<Rightarrow> ('v machine, M68KInstr option) exec" where
  "m68k_interp_decode_at decode pc =
     bindx (getx g_last_access_addr) (\<lambda>saved.
     bindx (busview pc) (\<lambda>win.
     thenx (modx (note_access saved)) (ret (decode win (pc AND 0xFFFFFF)))))"

text \<open>A bus error in recompiled code; \<open>False\<close> when no landing pad is set, and the access then ends the program.\<close>

definition recomp_bus_error :: "display_config \<Rightarrow> decoder \<Rightarrow> bool \<Rightarrow> bool timed" where
  "recomp_bus_error c decode armed s =
     (if \<not> armed then Some (Done False, s)
      else
        bindt (lift (m68k_interp_decode_at decode (PC (g_cpu s)))) (\<lambda>found.
        bindt (lift (modx (\<lambda>s1.
          let len = (case found of None \<Rightarrow> 0 | Some ins \<Rightarrow> byte_length ins);
              opcode = (case found of None \<Rightarrow> 0 | Some ins \<Rightarrow> if len \<noteq> 0 then words ins 0 else 0)
          in (upd_cpu (\<lambda>cpu. cpu\<lparr>PC := (PC cpu + len) AND 0xFFFFFF\<rparr>) s1)
               \<lparr>g_fault_opcode := opcode, g_last_access_addr := g_last_access_addr s\<rparr>))) (\<lambda>_.
        bindt (lift (build_exception_frame 2)) (\<lambda>_.
        bindt (runtime_defer_exception_cycles c 158) (\<lambda>_. lift (ret True))))) s)"

section \<open>Instruction periods\<close>

fun cyc_popcount :: "nat \<Rightarrow> u16 \<Rightarrow> nat" where
  "cyc_popcount 0 v = 0"
| "cyc_popcount (Suc n) v = (if v = 0 then 0 else unat (v AND 1) + cyc_popcount n (drop_bit 1 v))"

definition cyc_popcount16 :: "u16 \<Rightarrow> nat" where
  "cyc_popcount16 v = cyc_popcount 16 v"

definition cyc_ea :: "u16 \<Rightarrow> nat \<Rightarrow> nat" where
  "cyc_ea ea6 sb =
     (let mode = drop_bit 3 ea6 AND 7; reg = ea6 AND 7; isL = (sb = 4)
      in if mode = 0 \<or> mode = 1 then 0
         else if mode = 2 \<or> mode = 3 then (if isL then 8 else 4)
         else if mode = 4 then (if isL then 11 else 7)
         else if mode = 5 then (if isL then 15 else 11)
         else if mode = 6 then (if isL then 18 else 14)
         else if reg = 0 then (if isL then 12 else 8)
         else if reg = 1 then (if isL then 16 else 12)
         else if reg = 2 then (if isL then 15 else 11)
         else if reg = 3 then (if isL then 18 else 14)
         else if reg = 4 then (if isL then 8 else 4)
         else 0)"

definition sb_of :: "M68KSize \<Rightarrow> nat" where
  "sb_of sz = (case sz of M68K_SIZE_L \<Rightarrow> 4 | M68K_SIZE_B \<Rightarrow> 1 | M68K_SIZE_W \<Rightarrow> 2)"

definition cyc_write :: "bool \<Rightarrow> bool \<Rightarrow> nat" where
  "cyc_write to_memory isL = (if to_memory then (if isL then 8 else 4) else 0)"

definition cyc_movem :: "u16 \<Rightarrow> u16 \<Rightarrow> nat" where
  "cyc_movem op list =
     (let eamode = drop_bit 3 op AND 7; eareg = op AND 7; szl = bit op 6;
          base = (if (eamode = 7 \<and> eareg \<le> 1) \<or> eamode \<le> 4 then 19 else 16) + (if bit op 10 then 3 else 0) - (if szl then 4 else 0)
      in base + cyc_ea (op AND 0x3F) (if szl then 4 else 2) + cyc_popcount16 list * (if szl then 11 else 7))"

fun cyc_move :: "move_mn \<Rightarrow> u16 \<Rightarrow> nat \<Rightarrow> nat" where
  "cyc_move MN_MOVE op sb =
     7 + cyc_ea (op AND 0x3F) sb + cyc_ea (push_bit 3 (drop_bit 6 op AND 7) OR (drop_bit 9 op AND 7)) sb"
| "cyc_move MN_MOVEA op sb = 7 + cyc_ea (op AND 0x3F) sb"
| "cyc_move MN_MOVEQ op sb = 7"
| "cyc_move MN_LEA op sb = (if drop_bit 3 op AND 7 = 7 \<and> op AND 7 \<le> 1 then 6 else 3) + cyc_ea (op AND 0x3F) 2"
| "cyc_move MN_PEA op sb = (if drop_bit 3 op AND 7 = 7 \<and> op AND 7 \<le> 1 then 13 else 10) + cyc_ea (op AND 0x3F) 4"
| "cyc_move MN_TST op sb = 7 + cyc_ea (op AND 0x3F) sb"
| "cyc_move MN_CLR op sb = 7 + cyc_ea (op AND 0x3F) sb"
| "cyc_move MN_EXT op sb = 7"
| "cyc_move MN_SWAP op sb = 7"
| "cyc_move MN_EXG op sb = 13"

fun cyc_alu :: "alu_mn \<Rightarrow> u16 \<Rightarrow> nat \<Rightarrow> nat" where
  "cyc_alu MN_CMP op sb = 7 + cyc_ea (op AND 0x3F) sb"
| "cyc_alu MN_CMPM op sb = (if sb = 4 then 26 else 18)"
| "cyc_alu MN_EOR op sb = 7 + cyc_ea (op AND 0x3F) sb + cyc_write (drop_bit 3 op AND 7 \<noteq> 0) (sb = 4)"
| "cyc_alu MN_ADDA op sb = 7 + cyc_ea (op AND 0x3F) (if bit op 8 then 4 else 2)"
| "cyc_alu MN_SUBA op sb = 7 + cyc_ea (op AND 0x3F) (if bit op 8 then 4 else 2)"
| "cyc_alu MN_CMPA op sb = 7 + cyc_ea (op AND 0x3F) (if bit op 8 then 4 else 2)"
| "cyc_alu MN_ADDQ op sb = (if drop_bit 3 op AND 7 = 1 then 7
     else 7 + cyc_ea (op AND 0x3F) sb + cyc_write (drop_bit 3 op AND 7 \<noteq> 0) (sb = 4))"
| "cyc_alu MN_SUBQ op sb = (if drop_bit 3 op AND 7 = 1 then 7
     else 7 + cyc_ea (op AND 0x3F) sb + cyc_write (drop_bit 3 op AND 7 \<noteq> 0) (sb = 4))"
| "cyc_alu _ op sb = 7 + cyc_ea (op AND 0x3F) sb + cyc_write (bit op 8) (sb = 4)"

fun cyc_imm :: "imm_mn \<Rightarrow> u16 \<Rightarrow> nat \<Rightarrow> nat" where
  "cyc_imm MN_CMPI op sb = 14 + cyc_ea (op AND 0x3F) sb + (if sb = 4 then 4 else 0)"
| "cyc_imm MN_ADDI op sb = 14 + cyc_ea (op AND 0x3F) sb +
     (if drop_bit 3 op AND 7 \<noteq> 0 then (if sb = 4 then 12 else 4) else if sb = 4 then 4 else 0)"
| "cyc_imm MN_SUBI op sb = 14 + cyc_ea (op AND 0x3F) sb +
     (if drop_bit 3 op AND 7 \<noteq> 0 then (if sb = 4 then 12 else 4) else if sb = 4 then 4 else 0)"
| "cyc_imm MN_ORI op sb = 14 + cyc_ea (op AND 0x3F) sb + (if sb = 4 then (if drop_bit 3 op AND 7 \<noteq> 0 then 8 else 4) else 0) +
     (if drop_bit 3 op AND 7 \<noteq> 0 then 4 else 0)"
| "cyc_imm _ op sb = cyc_ea (op AND 0x3F) sb + (if sb = 4 then (if drop_bit 3 op AND 7 \<noteq> 0 then 8 else 4) else 0) +
     (if drop_bit 3 op AND 7 \<noteq> 0 then 18 else 14)"

text \<open>Control flow; only RTE looks at memory, at the format word of the frame it will pop.\<close>

definition cyc_rte :: "('v machine, nat) exec" where
  "cyc_rte = bindx (getx (areg 7)) (\<lambda>sp. bindx (m68k_read16 ((sp + 6) AND 0xFFFFFF)) (\<lambda>fmt.
     ret (if fmt AND 0xF000 = 0xF000 then 146 else 39)))"

fun cyc_flow :: "flow_mn \<Rightarrow> u16 \<Rightarrow> M68KState \<Rightarrow> nat" where
  "cyc_flow MN_RTS op cpu = 15"
| "cyc_flow MN_RTR op cpu = 22"
| "cyc_flow MN_STOP op cpu = 13"
| "cyc_flow MN_RESET op cpu = 154"
| "cyc_flow MN_RTE op cpu = 39"
| "cyc_flow MN_BRA op cpu = (if op AND 0xFF = 0 then 14 else 13)"
| "cyc_flow MN_Bcc op cpu = (if op AND 0xFF = 0 then 14 else 13)"
| "cyc_flow MN_BSR op cpu = (if op AND 0xFF = 0 then 22 else 17)"
| "cyc_flow MN_DBcc op cpu = (if eval_cond (drop_bit 8 op AND 0xF) cpu then 14 else 17)"
| "cyc_flow MN_JMP op cpu = (if drop_bit 3 op AND 7 = 7 \<and> op AND 7 \<le> 1 then 6 else 3) + cyc_ea (op AND 0x3F) 1"
| "cyc_flow MN_JSR op cpu = (if drop_bit 3 op AND 7 = 7 \<and> op AND 7 \<le> 1 then 17 else 14) + cyc_ea (op AND 0x3F) 1"
| "cyc_flow MN_TRAP op cpu = 52"

definition cyc_shift :: "M68KInstr \<Rightarrow> M68KState \<Rightarrow> nat" where
  "cyc_shift ins cpu =
     (let op = words ins 0; cnt = unat (drop_bit 9 op AND 7);
          shift = (if bit op 5 then unat (reg_D cpu cnt mod 64) else if cnt \<noteq> 0 then cnt else 8)
      in if mem_shift ins then 14 + cyc_ea (op AND 0x3F) 2 else 13 + 3 * shift)"

fun cyc_system :: "system_mn \<Rightarrow> M68KInstr \<Rightarrow> nat" where
  "cyc_system MN_MOVEM ins = cyc_movem (words ins 0) (words ins 1)"
| "cyc_system MN_LINK ins = 25"
| "cyc_system MN_UNLK ins = 15"
| "cyc_system MN_MOVE_USP ins = 7"
| "cyc_system MN_Scc ins = (if drop_bit 3 (words ins 0) AND 7 \<noteq> 0 then 17 else 13) + cyc_ea (words ins 0 AND 0x3F) 1"
| "cyc_system MN_NBCD ins = (if drop_bit 3 (words ins 0) AND 7 \<noteq> 0 then 14 else 10) + cyc_ea (words ins 0 AND 0x3F) 1"
| "cyc_system MN_ABCD ins = (if predec_mem_form ins then 31 else 10)"
| "cyc_system MN_SBCD ins = (if predec_mem_form ins then 31 else 10)"
| "cyc_system MN_ADDX ins = (if predec_mem_form ins then (if sb_of (i_size ins) = 4 then 40 else 28) else 7)"
| "cyc_system MN_SUBX ins = (if predec_mem_form ins then (if sb_of (i_size ins) = 4 then 40 else 28) else 7)"
| "cyc_system _ ins = (if dst_is_ea ins then (if drop_bit 3 (words ins 0) AND 7 \<noteq> 0 then 11 else 7) else 10) +
     cyc_ea (words ins 0 AND 0x3F) 2"

fun cyc_unary :: "unary_mn \<Rightarrow> u16 \<Rightarrow> nat \<Rightarrow> nat" where
  "cyc_unary MN_TAS op sb = 10 + cyc_ea (op AND 0x3F) 1 + (if drop_bit 3 op AND 7 \<noteq> 0 then 1 else 0)"
| "cyc_unary _ op sb = 7 + cyc_ea (op AND 0x3F) sb + cyc_write (drop_bit 3 op AND 7 \<noteq> 0) (sb = 4)"

fun cyc_muldiv :: "muldiv_mn \<Rightarrow> u16 \<Rightarrow> nat" where
  "cyc_muldiv MN_DIVS op = 169 + cyc_ea (op AND 0x3F) 2"
| "cyc_muldiv MN_DIVU op = 130 + cyc_ea (op AND 0x3F) 2"
| "cyc_muldiv _ op = 76 + cyc_ea (op AND 0x3F) 2"

definition cyc_bit :: "bit_mn \<Rightarrow> u16 \<Rightarrow> nat" where
  "cyc_bit mn op =
     (let static = (if bit op 8 then 0 else 7); in_memory = (drop_bit 3 op AND 7 \<noteq> 0); ea = cyc_ea (op AND 0x3F) 1
      in if mn = MN_BTST then 7 + static + (if in_memory then ea else 0) else 10 + static + (if in_memory then ea + 4 else 0))"

fun cyc_other :: "other_mn \<Rightarrow> u16 \<Rightarrow> nat" where
  "cyc_other MN_MOVEP op = (if bit op 7 then (if bit op 6 then 39 else 25) else if bit op 6 then 36 else 22)"
| "cyc_other MN_CHK op = 19 + cyc_ea (op AND 0x3F) 2"
| "cyc_other MN_MOVEC op = 12"
| "cyc_other MN_TRAPV op = 10"
| "cyc_other MN_ILLEGAL op = 55"
| "cyc_other MN_OTHER op = 14"

definition m68k_cycles :: "M68KInstr \<Rightarrow> ('v machine, nat) exec" where
  "m68k_cycles ins =
     (let op = words ins 0; sb = sb_of (i_size ins)
      in case mnemonic ins of
           MN_NOP \<Rightarrow> ret 7
         | Move mn \<Rightarrow> ret (cyc_move mn op sb)
         | Alu mn \<Rightarrow> ret (cyc_alu mn op sb)
         | Imm mn \<Rightarrow> ret (cyc_imm mn op sb)
         | Flow mn \<Rightarrow> if mn = MN_RTE then cyc_rte else getx (\<lambda>s. cyc_flow mn op (g_cpu s))
         | Shift mn \<Rightarrow> getx (\<lambda>s. cyc_shift ins (g_cpu s))
         | Bit mn \<Rightarrow> ret (cyc_bit mn op)
         | Unary mn \<Rightarrow> ret (cyc_unary mn op sb)
         | MulDiv mn \<Rightarrow> ret (cyc_muldiv mn op)
         | System mn \<Rightarrow> ret (cyc_system mn ins)
         | ImmSR mn \<Rightarrow> ret 14
         | Other mn \<Rightarrow> ret (cyc_other mn op))"

section \<open>Stepping and running\<close>

datatype M68kiStatus = M68KI_OK | M68KI_HALT_UNIMPL | M68KI_HALT_GUARD | M68KI_HALT_BADADDR | M68KI_REENTER

text \<open>Device time after an instruction: a trap's cost waits for the handler, any other is spent with what waited.\<close>

definition spend_cycles :: "display_config \<Rightarrow> M68KMnemonic \<Rightarrow> u32 \<Rightarrow> unit timed" where
  "spend_cycles c mn cyc s =
     (if mn = Flow MN_TRAP then runtime_defer_exception_cycles c cyc s
      else mcd212_tick c (g_cycle_accumulator s + cyc) (s\<lparr>g_cycle_accumulator := 0\<rparr>))"

definition finish_instruction :: "display_config \<Rightarrow> M68KInstr \<Rightarrow> u32 \<Rightarrow> u32 option \<Rightarrow> M68kiStatus timed" where
  "finish_instruction c ins cyc next s =
     (case next of
        None \<Rightarrow> Some (Done M68KI_HALT_UNIMPL, s)
      | Some pc \<Rightarrow>
          if s_illegal_ea s then Some (Done M68KI_HALT_UNIMPL, record_bad (i_addr ins) (words ins 0) s)
          else bindt (spend_cycles c (mnemonic ins) cyc) (\<lambda>_. lift (ret M68KI_OK))
                 (upd_cpu (\<lambda>cpu. cpu\<lparr>PC := pc AND 0xFFFFFF\<rparr>) s))"

text \<open>The landing pad around an instruction: a bus error in it becomes exception 2 with the post-fetch program counter.\<close>

definition execute_armed :: "display_config \<Rightarrow> M68KInstr \<Rightarrow> u32 \<Rightarrow> M68kiStatus timed" where
  "execute_armed c ins cyc s =
     (let fault_pc = (i_addr ins + byte_length ins) AND 0xFFFFFF
      in case exec_one ins (s\<lparr>g_fault_opcode := words ins 0, s_illegal_ea := False\<rparr>) of
           (Bus_Error a, s1) \<Rightarrow>
             bindt (lift (m68k_raise_exception_frame 2)) (\<lambda>_.
             bindt (runtime_defer_exception_cycles c 158) (\<lambda>_. lift (ret M68KI_OK)))
               (upd_cpu (\<lambda>cpu. cpu\<lparr>PC := fault_pc\<rparr>) s1)
         | (Aborted, s1) \<Rightarrow> Some (Aborted, s1)
         | (Undefined, s1) \<Rightarrow> Some (Undefined, s1)
         | (Done next, s1) \<Rightarrow> finish_instruction c ins cyc next s1)"

definition m68k_interp_step :: "display_config \<Rightarrow> decoder \<Rightarrow> M68kiStatus timed" where
  "m68k_interp_step c decode s =
     (let pc = PC (g_cpu s) AND 0xFFFFFF
      in if pc AND 1 \<noteq> 0 then Some (Done M68KI_HALT_BADADDR, s\<lparr>g_m68ki_bad_pc := pc\<rparr>)
         else
           bindt (lift (busview pc)) (\<lambda>win. case decode win pc of
               None \<Rightarrow>
                 bindt (lift (modx (\<lambda>s. s\<lparr>g_m68ki_bad_pc := pc\<rparr>))) (\<lambda>_.
                 bindt (lift (m68k_read16 pc)) (\<lambda>op.
                 bindt (lift (modx (\<lambda>s. s\<lparr>g_m68ki_bad_op := op\<rparr>))) (\<lambda>_. lift (ret M68KI_HALT_UNIMPL))))
             | Some ins \<Rightarrow> bindt (lift (m68k_cycles ins)) (\<lambda>cyc. execute_armed c ins (of_nat cyc))) s)"

abbreviation (input) "M68KI_INSN_GUARD \<equiv> 50000000 :: nat"

text \<open>The loops with \<open>left\<close> instructions to go before the guard; \<open>known\<close> is the dispatch table's membership test.\<close>

definition after_step :: "M68kiStatus timed \<Rightarrow> M68kiStatus \<Rightarrow> M68kiStatus timed" where
  "after_step continue st s =
     (if st \<noteq> M68KI_OK then Some (Done st, s) else if g_halted s then Some (Done M68KI_OK, s) else continue s)"

definition guard_halt :: "M68kiStatus timed" where
  "guard_halt s = Some (Done M68KI_HALT_GUARD, s\<lparr>g_m68ki_bad_pc := PC (g_cpu s)\<rparr>)"

primrec run_loop :: "display_config \<Rightarrow> decoder \<Rightarrow> u32 \<Rightarrow> nat \<Rightarrow> M68kiStatus timed" where
  "run_loop c decode stop_pc 0 =
     (\<lambda>s. if PC (g_cpu s) = stop_pc AND 0xFFFFFF then Some (Done M68KI_OK, s)
       else bindt (m68k_interp_step c decode) (after_step guard_halt) s)"
| "run_loop c decode stop_pc (Suc left) =
     (\<lambda>s. if PC (g_cpu s) = stop_pc AND 0xFFFFFF then Some (Done M68KI_OK, s)
       else bindt (m68k_interp_step c decode) (after_step (run_loop c decode stop_pc left)) s)"

definition enter_run :: "u32 \<Rightarrow> board \<Rightarrow> board" where
  "enter_run entry_pc s = (upd_cpu (\<lambda>cpu. cpu\<lparr>PC := entry_pc AND 0xFFFFFF\<rparr>) s)\<lparr>g_m68ki_discover := []\<rparr>"

definition m68k_interp_run :: "display_config \<Rightarrow> decoder \<Rightarrow> u32 \<Rightarrow> u32 \<Rightarrow> M68kiStatus timed" where
  "m68k_interp_run c decode entry_pc stop_pc s = run_loop c decode stop_pc M68KI_INSN_GUARD (enter_run entry_pc s)"

definition known_stop :: "(u32 \<Rightarrow> bool) \<Rightarrow> u32 \<Rightarrow> u32 \<Rightarrow> board \<Rightarrow> M68kiStatus option" where
  "known_stop known entry_pc stop_pc s =
     (let pc = PC (g_cpu s) AND 0xFFFFFF
      in if stop_pc \<noteq> 0 \<and> pc = stop_pc then Some M68KI_OK
         else if pc \<noteq> entry_pc AND 0xFFFFFF \<and> known pc then Some M68KI_REENTER
         else None)"

primrec run_known_loop ::
    "display_config \<Rightarrow> decoder \<Rightarrow> (u32 \<Rightarrow> bool) \<Rightarrow> u32 \<Rightarrow> u32 \<Rightarrow> nat \<Rightarrow> M68kiStatus timed" where
  "run_known_loop c decode known entry_pc stop_pc 0 =
     (\<lambda>s. case known_stop known entry_pc stop_pc s of
         Some st \<Rightarrow> Some (Done st, s)
       | None \<Rightarrow> bindt (m68k_interp_step c decode) (after_step guard_halt) s)"
| "run_known_loop c decode known entry_pc stop_pc (Suc left) =
     (\<lambda>s. case known_stop known entry_pc stop_pc s of
         Some st \<Rightarrow> Some (Done st, s)
       | None \<Rightarrow> bindt (m68k_interp_step c decode) (after_step (run_known_loop c decode known entry_pc stop_pc left)) s)"

definition m68k_interp_run_until_known ::
    "display_config \<Rightarrow> decoder \<Rightarrow> (u32 \<Rightarrow> bool) \<Rightarrow> u32 \<Rightarrow> u32 \<Rightarrow> M68kiStatus timed" where
  "m68k_interp_run_until_known c decode known entry_pc stop_pc s =
     run_known_loop c decode known entry_pc (stop_pc AND 0xFFFFFF) M68KI_INSN_GUARD (enter_run entry_pc s)"

end
