(* ===== verification/Board_Frame.thy ===== *)
theory Board_Frame
  imports Mcd212_Engine Ikat_Laws
begin

text \<open>
  What the passing of device time leaves alone: the CD interface touches its own board only, the serial gate the
  drive only, so a clock quantum reaches the display controller, memory, the processor and the runtime's globals
  through the raster alone.
\<close>

named_theorems frame_simps \<open>the part of the machine beyond a device's board\<close>

lemma ciap_frame [frame_simps]:
  "cd_board.more (upd_ciap f s) = cd_board.more s"
  "cd_board.more (modify_word a g s) = cd_board.more s"
  "cd_board.more (assert_interrupt_line s) = cd_board.more s"
  "cd_board.more (ciap_ensure_initialized s) = cd_board.more s"
  "cd_board.more (start_audio_buffer s) = cd_board.more s"
  "cd_board.more (request_ap_completion s) = cd_board.more s"
  "cd_board.more (report_file_events bs s) = cd_board.more s"
  "cd_board.more (cdic_transport_resume s) = cd_board.more s"
  by (simp_all add: upd_ciap_def modify_word_def assert_interrupt_line_def ciap_ensure_initialized_def initialize_ciap_def
      start_audio_buffer_def request_ap_completion_def report_file_events_def cdic_transport_resume_def Let_def
      split: prod.split)

lemma ciap_frame2 [frame_simps]:
  "cd_board.more (report_locator l s) = cd_board.more s"
  "cd_board.more (deliver_payload b bs s) = cd_board.more s"
  "cd_board.more (finish_ap n s) = cd_board.more s"
  "cd_board.more (consume_audio_buffer s) = cd_board.more s"
  by (simp_all add: report_locator_def deliver_payload_def finish_ap_def consume_audio_buffer_def Let_def frame_simps)

lemma deliver_one_frame [frame_simps]: "cd_board.more (deliver_one_sector s) = cd_board.more s"
  by (simp add: deliver_one_sector_def Let_def frame_simps split: option.split)

lemma audio_refill_frame [frame_simps]: "cd_board.more (snd (audio_refill n s)) = cd_board.more s"
  by (induction n s rule: audio_refill.induct) (subst audio_refill.simps, simp add: frame_simps)

lemma deliver_sectors_frame [frame_simps]: "cd_board.more (deliver_sectors s) = cd_board.more s"
  by (induction s rule: deliver_sectors.induct) (subst deliver_sectors.simps, simp add: frame_simps Let_def)

lemma cdic_time_frame: "cd_board.more (cdic_increment_time n s) = cd_board.more s"
proof -
  have "cd_board.more (advance_audio k t) = cd_board.more t" for k and t :: "'a cd_board_scheme"
    by (simp add: advance_audio_def Let_def frame_simps case_prod_unfold)
  then show ?thesis by (simp add: cdic_increment_time_def advance_streaming_def Let_def frame_simps)
qed

lemma ikat_frame [frame_simps]:
  "drive_board.more (upd_ikat f s) = drive_board.more s"
  "drive_board.more (raise_channel_interrupt ch s) = drive_board.more s"
  by (simp_all add: upd_ikat_def raise_channel_interrupt_def Let_def)

lemma ikat_frame2 [frame_simps]:
  "drive_board.more (publish_and_interrupt ch bs s) = drive_board.more s"
  "drive_board.more (ikat_ensure_initialized s) = drive_board.more s"
  by (simp_all add: publish_and_interrupt_def ikat_ensure_initialized_def initialize_ikat_def Let_def frame_simps)

lemma more_drive: "cd_board.more s = cd_board.more t \<Longrightarrow> drive_board.more s = drive_board.more t"
  by (cases s, cases t) simp

lemma ikat_frame3 [frame_simps]:
  "drive_board.more (emit_pointer_packet s) = drive_board.more s"
  "drive_board.more (check_media s) = drive_board.more s"
  "drive_board.more (deliver_deferred ch s) = drive_board.more s"
  by (simp_all add: emit_pointer_packet_def check_media_def deliver_deferred_def Let_def frame_simps
      more_drive [OF ciap_frame(8)] split: prod.split)

lemma pointer_reports_more [frame_simps]: "drive_board.more (pointer_reports s) = drive_board.more s"
  by (induction s rule: pointer_reports.induct) (subst pointer_reports.simps, simp add: frame_simps)

lemma slave_time_frame: "drive_board.more (slave_increment_time n s) = drive_board.more s"
proof -
  have "drive_board.more (fold (service_deferred n) chs t) = drive_board.more t" for chs and t :: "'a drive_board_scheme"
    by (induction chs arbitrary: t) (simp_all add: service_deferred_def Let_def frame_simps)
  then show ?thesis by (simp add: slave_increment_time_def Let_def frame_simps)
qed

text \<open>The machine beyond the boards, and what a quantum of device time changes there.\<close>

lemma machine_more:
  fixes s t :: "'v machine"
  assumes "drive_board.more s = drive_board.more t"
  shows "vdsc s = vdsc t" "m_nvram s = m_nvram t" "m_video s = m_video t" "g_frame_count s = g_frame_count t"
    "g_total_cycles s = g_total_cycles t" "g_cpu s = g_cpu t" "g_ram0 s = g_ram0 t" "g_ram1 s = g_ram1 t" "g_rom s = g_rom t"
    "g_cycle_accumulator s = g_cycle_accumulator t"
  using assms by (cases s, cases t, simp)+

lemma board_devices_frame:
  assumes "board_devices cycles elapsed s = Some t"
  shows "vdsc t = vdsc s" "m_video t = m_video s" "g_frame_count t = g_frame_count s" "g_cpu t = g_cpu s"
    "g_ram0 t = g_ram0 s" "g_ram1 t = g_ram1 s" "g_rom t = g_rom s"
    "g_total_cycles t = g_total_cycles s + ucast cycles" "nvram_increment_clock elapsed (m_nvram s) = Some (m_nvram t)"
proof -
  obtain p i where pi: "periph_increment_timer cycles (m_periph s, b_irq s) = (p, i)" by fastforce
  define s0 where "s0 = s\<lparr>m_periph := p, b_irq := i\<rparr>"
  define s2 where "s2 = cdic_increment_time (to_u64 elapsed) (slave_increment_time (to_u64 elapsed) s0)"
  have "drive_board.more s2 = drive_board.more s0"
    unfolding s2_def using more_drive [OF cdic_time_frame] slave_time_frame by metis
  note f = machine_more [OF this]
  obtain r where "nvram_increment_clock elapsed (m_nvram s2) = Some r"
    and "t = s2\<lparr>m_nvram := r, g_total_cycles := g_total_cycles s2 + ucast cycles\<rparr>"
    using assms by (auto simp: board_devices_def pi s2_def s0_def Let_def)
  then show "vdsc t = vdsc s" "m_video t = m_video s" "g_frame_count t = g_frame_count s" "g_cpu t = g_cpu s"
    "g_ram0 t = g_ram0 s" "g_ram1 t = g_ram1 s" "g_rom t = g_rom s"
    "g_total_cycles t = g_total_cycles s + ucast cycles" "nvram_increment_clock elapsed (m_nvram s) = Some (m_nvram t)"
    using f by (simp_all add: s0_def)
qed

lemma board_devices_return:
  "board_devices cycles elapsed s \<noteq> None \<longleftrightarrow> nvram_increment_clock elapsed (m_nvram s) \<noteq> None"
proof -
  obtain p i where pi: "periph_increment_timer cycles (m_periph s, b_irq s) = (p, i)" by fastforce
  let ?s0 = "s\<lparr>m_periph := p, b_irq := i\<rparr>"
  have "drive_board.more (cdic_increment_time (to_u64 elapsed) (slave_increment_time (to_u64 elapsed) ?s0)) = drive_board.more ?s0"
    using more_drive [OF cdic_time_frame] slave_time_frame by metis
  from machine_more(2) [OF this] show ?thesis by (simp add: board_devices_def pi Let_def)
qed

text \<open>The length of a processor cycle in nanoseconds.\<close>

lemma cycle_ns_bounds: "66.203 \<le> cycle_ns" "cycle_ns \<le> 66.204"
proof -
  let ?x = "1000000000 / 15104900 :: rat"
  have "\<bar>cycle_ns - ?x\<bar> \<le> ?x / 2 ^ 53"
    using round_pos_error [of ?x] by (simp add: cycle_ns_def ddiv_def round64_def)
  then have "cycle_ns \<le> ?x + ?x / 2 ^ 53" "?x - ?x / 2 ^ 53 \<le> cycle_ns" by (simp_all only: abs_le_iff) linarith+
  moreover have "?x + ?x / 2 ^ 53 \<le> 66.204" "66.203 \<le> ?x - ?x / 2 ^ 53" by simp_all
  ultimately show "66.203 \<le> cycle_ns" "cycle_ns \<le> 66.204" by linarith+
qed

section \<open>A stopped board\<close>

text \<open>The board after reset, with the drive idle, no control programs and the processor in its stop state.\<close>

definition stopped_board :: board where
  "stopped_board = drive_board.extend idle_drive (machine.fields periph_reset nvram_reset
     \<lparr>vdsc_register = (\<lambda>_. 0), display_status = 0, interrupt_status = 0, line_phase_ns = 0, raster_line = 0, image_line = 0\<rparr>
     mcd212_video_reset (\<lambda>_. 0) (\<lambda>_. 0) (\<lambda>_. 0) 0
     \<lparr>reg_D = (\<lambda>_. 0), reg_A = (\<lambda>_. 0), SR = 0, PC = 0, USP = 0, SSP = 0\<rparr>
     0 0 0 0 True 0 0 False 0 0 [] [] 0 False 0)"

lemma stopped_board_fields:
  "m_periph stopped_board = periph_reset" "m_nvram stopped_board = nvram_reset" "b_ikat stopped_board = b_ikat idle_drive"
  "b_media stopped_board = b_media idle_drive" "b_ciap stopped_board = b_ciap streaming_board" "b_irq stopped_board = irq_reset"
  "g_halted stopped_board" "\<not> s_realtime_pacing stopped_board" "line_phase_ns (vdsc stopped_board) = 0"
  "raster_line_period_ns stopped_board = 64000"
  by (simp_all add: stopped_board_def drive_board.defs machine.defs idle_drive_def cold_drive_def cd_board.defs
      initialize_ikat_def streaming_board_def raster_line_period_ns_def clock_format_def vreg_def)

end
