(* ===== verification/M68k_Step_Laws.thy ===== *)
theory M68k_Step_Laws
  imports M68k_Step M68k_Exec_Laws Board_Frame
begin

unbundle bit_operations_syntax

text \<open>
  Interrupt delivery, the bus-error landing pad of an interpreted instruction, and the bounds of the timing table.
\<close>

section \<open>Interrupt delivery\<close>

lemma defer_idle:
  "g_cycle_accumulator s = 0 \<Longrightarrow> runtime_defer_exception_cycles c n s =
     Some (Done (), s\<lparr>g_cycle_accumulator := n, g_audio_cycle_counter := g_audio_cycle_counter s + n\<rparr>)"
  by (simp add: runtime_defer_exception_cycles_def)

lemma irq_fields [simp]:
  "supervisor_sp (g_cpu (s\<lparr>b_irq := i, g_halted := b\<rparr>)) = supervisor_sp (g_cpu s)"
  by simp

lemma get_globals [simp]:
  "get32 a (s\<lparr>g_cycle_accumulator := n, g_audio_cycle_counter := m\<rparr>) = get32 a s"
  "get16 a (s\<lparr>g_cycle_accumulator := n, g_audio_cycle_counter := m\<rparr>) = get16 a s"
  by (simp_all add: get32_def get16_def ram_byte_def)

lemma stacked_globals [simp]:
  "stacked vec cpu f (s\<lparr>g_cycle_accumulator := n, g_audio_cycle_counter := m\<rparr>) = stacked vec cpu f s"
  by (simp add: stacked_def)

lemma max_pending: "pending_levels i \<noteq> {} \<Longrightarrow> 1 \<le> Max (pending_levels i) \<and> Max (pending_levels i) \<le> 7"
  using Max_in [of "pending_levels i"] by (auto simp: pending_levels_def)

lemma accepted_iff:
  assumes "pending_levels i \<noteq> {}"
  shows "irq_accepted sr i \<longleftrightarrow> Max (pending_levels i) = 7 \<or> unat (drop_bit 8 sr AND 7) < Max (pending_levels i)"
  using assms max_pending [OF assms] by (auto simp: irq_accepted_def pending_level_spec Let_def)

lemma consume_exact:
  fixes i :: irq
  assumes "pending_levels i \<noteq> {}" and "lvl = Max (pending_levels i)" and "onchip = bit (irq_onchip_pending i) lvl"
  shows "fst (consume_irq i) = (if onchip then of_nat (56 + lvl)
      else if irq_external_vector i (of_nat lvl) = 0 then of_nat (24 + lvl) else irq_external_vector i (of_nat lvl))"
    and "bit (irq_onchip_pending (snd (consume_irq i))) n \<longleftrightarrow> bit (irq_onchip_pending i) n \<and> \<not> (onchip \<and> n = lvl)"
    and "bit (irq_pending (snd (consume_irq i))) n \<longleftrightarrow> bit (irq_pending i) n \<and> \<not> (\<not> onchip \<and> n = lvl)"
proof -
  have l: "lvl \<le> 7" "recomp_pending_irq_level i = lvl" using max_pending assms by (auto simp: pending_level_spec)
  have u: "unat (of_nat lvl :: u8) = lvl" using l(1) by (simp add: unat_of_nat)
  have b: "irq_onchip_pending i AND level_bit (of_nat lvl) \<noteq> 0 \<longleftrightarrow> onchip"
    using l(1) and_exp_eq_0_iff [of "irq_onchip_pending i" lvl] by (simp add: level_bit_def u assms(3) push_bit_eq_mult)
  show "fst (consume_irq i) = (if onchip then of_nat (56 + lvl)
      else if irq_external_vector i (of_nat lvl) = 0 then of_nat (24 + lvl) else irq_external_vector i (of_nat lvl))"
    "bit (irq_onchip_pending (snd (consume_irq i))) n \<longleftrightarrow> bit (irq_onchip_pending i) n \<and> \<not> (onchip \<and> n = lvl)"
    "bit (irq_pending (snd (consume_irq i))) n \<longleftrightarrow> bit (irq_pending i) n \<and> \<not> (\<not> onchip \<and> n = lvl)"
    using b by (auto simp: consume_irq_def l(2) Let_def bit_simps bit_level_bit u dest: bit_imp_le_length)
qed



lemma supervisor_sp_pc [simp]: "supervisor_sp (c\<lparr>PC := x\<rparr>) = supervisor_sp c"
  by (simp add: supervisor_sp_def)

section \<open>A faulting instruction\<close>


text \<open>\<open>TST.W (A0)+\<close> with A0 at an address no device answers.\<close>

definition stray_test :: M68KInstr where
  "stray_test = \<lparr>i_addr = 0x1000, words = (\<lambda>_. 0x4A58), byte_length = 2, mnemonic = Move MN_TST, i_size = M68K_SIZE_W,
     src_ea = 0x18, dst_ea = - 1, i_reg = - 1, imm32 = 0, target_addr = 0, predec_mem_form = False, mem_shift = False, dst_is_ea = False\<rparr>"


section \<open>The timing table\<close>

lemma cyc_ea_le: "cyc_ea ea sb \<le> 18"
  by (simp add: cyc_ea_def Let_def)

lemma cyc_popcount_le: "cyc_popcount n v \<le> n"
proof (induction n arbitrary: v)
  case (Suc n)
  have "unat (v AND 1) \<le> 1" using word_and_le1 [of v 1] by (simp add: word_le_nat_alt)
  with Suc [of "drop_bit 1 v"] show ?case by simp
qed simp

lemma cyc_movem_bounds: "12 \<le> cyc_movem op list" "cyc_movem op list \<le> 216"
proof -
  let ?e = "cyc_ea (op AND 0x3F) (if bit op 6 then 4 else 2)"
  have "?e \<le> 18" "cyc_popcount16 list \<le> 16" using cyc_ea_le cyc_popcount_le [of 16 list] by (auto simp: cyc_popcount16_def)
  then show "12 \<le> cyc_movem op list" "cyc_movem op list \<le> 216" by (auto simp: cyc_movem_def Let_def)
qed

lemma cyc_group_bounds:
  "3 \<le> cyc_move m1 op sb \<and> cyc_move m1 op sb \<le> 216" "3 \<le> cyc_alu m2 op sb \<and> cyc_alu m2 op sb \<le> 216"
  "3 \<le> cyc_imm m3 op sb \<and> cyc_imm m3 op sb \<le> 216" "3 \<le> cyc_flow m4 op cpu \<and> cyc_flow m4 op cpu \<le> 216"
  "3 \<le> cyc_unary m5 op sb \<and> cyc_unary m5 op sb \<le> 216" "3 \<le> cyc_muldiv m6 op \<and> cyc_muldiv m6 op \<le> 216"
  "3 \<le> cyc_bit m7 op \<and> cyc_bit m7 op \<le> 216" "3 \<le> cyc_other m8 op \<and> cyc_other m8 op \<le> 216"
proof -
  note e = cyc_ea_le [of "op AND 0x3F"] cyc_ea_le [of "push_bit 3 (drop_bit 6 op AND 7) OR (drop_bit 9 op AND 7)" sb]
  note e' = e(1) [of sb] e(1) [of 1] e(1) [of 2] e(1) [of 4] e(2)
  show "3 \<le> cyc_move m1 op sb \<and> cyc_move m1 op sb \<le> 216" using e' by (cases m1) simp_all
  show "3 \<le> cyc_alu m2 op sb \<and> cyc_alu m2 op sb \<le> 216" using e' by (cases m2) (simp_all add: cyc_write_def)
  show "3 \<le> cyc_imm m3 op sb \<and> cyc_imm m3 op sb \<le> 216" using e' by (cases m3) simp_all
  show "3 \<le> cyc_flow m4 op cpu \<and> cyc_flow m4 op cpu \<le> 216" using e' by (cases m4) simp_all
  show "3 \<le> cyc_unary m5 op sb \<and> cyc_unary m5 op sb \<le> 216" using e' by (cases m5) (simp_all add: cyc_write_def)
  show "3 \<le> cyc_muldiv m6 op \<and> cyc_muldiv m6 op \<le> 216" using e' by (cases m6) simp_all
  show "3 \<le> cyc_bit m7 op \<and> cyc_bit m7 op \<le> 216" using e' by (simp add: cyc_bit_def Let_def)
  show "3 \<le> cyc_other m8 op \<and> cyc_other m8 op \<le> 216" using e' by (cases m8) simp_all
qed

lemma cyc_instr_bounds:
  "3 \<le> cyc_system mn ins \<and> cyc_system mn ins \<le> 216" "3 \<le> cyc_shift ins cpu \<and> cyc_shift ins cpu \<le> 216"
proof -
  note e = cyc_ea_le [of "words ins 0 AND 0x3F" 1] cyc_ea_le [of "words ins 0 AND 0x3F" 2] cyc_movem_bounds [of "words ins 0" "words ins 1"]
  show "3 \<le> cyc_system mn ins \<and> cyc_system mn ins \<le> 216" using e by (cases mn) simp_all
  let ?cnt = "unat (drop_bit 9 (words ins 0) AND 7)"
  have "?cnt \<le> 7" using word_and_le1 [of "drop_bit 9 (words ins 0)" 7] by (simp add: word_le_nat_alt)
  moreover have "unat (reg_D cpu ?cnt mod 64) < 64" by (simp add: unat_mod)
  ultimately show "3 \<le> cyc_shift ins cpu \<and> cyc_shift ins cpu \<le> 216" using e by (simp add: cyc_shift_def Let_def)
qed



end
