(* ===== verification/Scc_Dma_Laws.thy ===== *)
theory Scc_Dma_Laws
  imports Scc_Bus_Laws
begin

unbundle bit_operations_syntax

text \<open>The burst between the CD interface and RAM (\<^verbatim>\<open>runner/src/periph.c\<close>, \<^verbatim>\<open>cdic.c\<close>) delivers its words and completes.\<close>

lemma write16_with_ram: "ram_word a \<Longrightarrow> write16_with d a v s = (Done (), note_access a (put16 a v s))"
  by (simp add: write16_with_def ram_word_def Let_def put16_def set_ram_byte_note flip: classify_ram)

lemma ram_ciap [simp]: "debug_peek8 b (s\<lparr>b_ciap := c\<rparr>) = debug_peek8 b s"
  by (simp add: debug_peek8_def ram_byte_def split: BusRegion.split)

definition dma_offset :: "CiapDevice \<Rightarrow> nat" where
  "dma_offset c = unat (read_word CIAP_DMACTL c AND 0x1FFF)"

lemma read_store_word:
  "read_word a (store_word a v c) = v"
  "a \<noteq> b \<Longrightarrow> a + 1 \<noteq> b \<Longrightarrow> a \<noteq> b + 1 \<Longrightarrow> read_word a (store_word b v c) = read_word a c"
  by (simp_all add: read_word_def store_word_def)

lemma low13: "unat (w AND 0x1FFF) = unat w mod 8192" for w :: u16
proof -
  have "w AND 0x1FFF = take_bit 13 w" by (simp add: take_bit_eq_mask mask_eq_exp_minus_1)
  then show ?thesis by (simp add: unsigned_take_bit_eq take_bit_eq_mod unat_mod)
qed

lemma dma_next_offset: "unat (dma_next w AND 0x1FFF) = Suc (unat (w AND 0x1FFF)) mod 8192"
proof -
  have "dma_next w AND 0x1FFF = ((w AND 0x1FFF) + 1) AND 0x1FFF"
    by (simp add: dma_next_def bit.conj_disj_distrib2 and.assoc)
  then show ?thesis
    by (simp add: low13 unat_word_ariths mod_mod_cancel)
qed

lemma read_below_control:
  assumes "2 * j + 1 < 0x25C2"
  shows "read_word (of_nat (2 * j)) (store_word CIAP_DMACTL v c) = read_word (of_nat (2 * j)) c"
proof -
  have "unat (of_nat (2 * j) :: u32) = 2 * j" "unat (of_nat (2 * j) + 1 :: u32) = 2 * j + 1"
    using assms by (simp_all add: unat_word_ariths unat_of_nat)
  then show ?thesis
    using assms by (intro read_store_word(2)) (auto simp: word_unat_eq_iff)
qed

lemma pull_word_run:
  assumes "ciap_initialized (b_ciap s)" and "2 * dma_offset (b_ciap s) + 1 < 0x25C2"
  shows "pull_word s = (Done (read_word (of_nat (2 * dma_offset (b_ciap s))) (b_ciap s)),
    s\<lparr>b_ciap := store_word CIAP_DMACTL (dma_next (read_word CIAP_DMACTL (b_ciap s))) (b_ciap s)\<rparr>)"
proof -
  define k where k: "k = dma_offset (b_ciap s)"
  have "k < 8192" by (simp add: k dma_offset_def low13)
  have off: "(ucast (read_word CIAP_DMACTL (b_ciap s) AND 0x1FFF) :: u32) * 2 = of_nat (2 * k)"
    by (simp add: k dma_offset_def)
  have "unat (of_nat (2 * k) + 1 :: u32) = 2 * k + 1"
    using \<open>k < 8192\<close> by (simp add: unat_word_ariths unat_of_nat)
  then have lim: "\<not> (of_nat (2 * k) + 1 :: u32) \<ge> 0x4000"
    using \<open>k < 8192\<close> by (simp add: word_le_nat_alt)
  show ?thesis
    unfolding pull_word_def cdic_dma_pull_word_def Let_def
    using assms lim by (simp add: ciap_ensure_initialized_def off modify_word_def upd_ciap_def read_below_control del: of_nat_mult
        flip: k)
qed

lemma dma_offset_step:
  assumes "2 * dma_offset c + 1 < 0x25C2"
  shows "dma_offset (store_word CIAP_DMACTL (dma_next (read_word CIAP_DMACTL c)) c) = Suc (dma_offset c)"
  using assms by (simp add: dma_offset_def read_store_word dma_next_offset)

lemma dma_words_run:
  assumes "ciap_initialized (b_ciap s)" "2 * (dma_offset (b_ciap s) + n) \<le> 0x25C2" "ram_room a (2 * n)"
  shows "\<exists>s'. dma_words (write16_with d) True n a s = (Done (a + of_nat (2 * n)), s') \<and> m_periph s' = m_periph s
    \<and> ciap_initialized (b_ciap s') \<and> dma_offset (b_ciap s') = dma_offset (b_ciap s) + n
    \<and> (\<forall>i<n. get16 (a + of_nat (2 * i)) s' = read_word (of_nat (2 * (dma_offset (b_ciap s) + i))) (b_ciap s))
    \<and> same_elsewhere a (2 * n) s s'"
  using assms
proof (induction n arbitrary: a s)
  case 0
  then show ?case by (simp add: same_elsewhere_def)
next
  case (Suc n)
  note room = ram_room_split [OF Suc.prems(3)]
  let ?k = "dma_offset (b_ciap s)"
  define v where v: "v = read_word (of_nat (2 * ?k)) (b_ciap s)"
  define c where c: "c = store_word CIAP_DMACTL (dma_next (read_word CIAP_DMACTL (b_ciap s))) (b_ciap s)"
  define t where t: "t = note_access a (put16 a v (s\<lparr>b_ciap := c\<rparr>))"
  have k: "2 * ?k + 1 < 0x25C2" using Suc.prems(2) by simp
  have ct: "b_ciap t = c" "ciap_initialized c" "dma_offset c = Suc ?k" "m_periph t = m_periph s"
    using Suc.prems(1) dma_offset_step [OF k] by (simp_all add: t c) (simp add: store_word_def)
  have step: "dma_words (write16_with d) True (Suc n) a s = dma_words (write16_with d) True n (a + 2) t"
    using pull_word_run [OF Suc.prems(1) k] room(1) by (simp add: write16_with_ram t v c)
  obtain s' where s': "dma_words (write16_with d) True n (a + 2) t = (Done (a + 2 + of_nat (2 * n)), s')"
    "m_periph s' = m_periph t" "ciap_initialized (b_ciap s')" "dma_offset (b_ciap s') = dma_offset (b_ciap t) + n"
    "\<forall>i<n. get16 (a + 2 + of_nat (2 * i)) s' = read_word (of_nat (2 * (dma_offset (b_ciap t) + i))) (b_ciap t)"
    "same_elsewhere (a + 2) (2 * n) t s'"
    using Suc.IH [of t "a + 2"] Suc.prems(2) room ct by auto
  have first: "get16 a s' = v"
    using get16_elsewhere [OF s'(6) room(1)] room by (simp add: t)
  have words: "get16 (a + of_nat (2 * i)) s' = read_word (of_nat (2 * (?k + i))) (b_ciap s)" if "i < Suc n" for i
  proof (cases i)
    case (Suc j)
    then have "get16 (a + of_nat (2 * i)) s' = read_word (of_nat (2 * (Suc ?k + j))) c"
      using s'(5) that ct by (simp add: algebra_simps)
    also have "\<dots> = read_word (of_nat (2 * (?k + i))) (b_ciap s)"
      unfolding c using Suc that Suc.prems(2) by (subst read_below_control) auto
    finally show ?thesis .
  qed (simp add: first v)
  have "same_elsewhere a (2 * Suc n) s s'"
    unfolding same_elsewhere_def
  proof
    fix b :: u32
    consider "unat a \<le> unat b" "unat b < unat a + 2 * Suc n" | "unat b < unat a \<or> unat a + 2 * Suc n \<le> unat b" by linarith
    then show "(unat a \<le> unat b \<and> unat b < unat a + 2 * Suc n) \<or> debug_peek8 b s' = debug_peek8 b s"
    proof cases
      case 2
      then have "debug_peek8 b s' = debug_peek8 b t" "b \<noteq> a" "b \<noteq> a + 1"
        using same_elsewhereD [OF s'(6), of b] room(3) Suc.prems(3) unat_plus1 [of 1 a] by (auto simp: ram_room_def)
      then show ?thesis using room(1) by (simp add: t peek_put16)
    qed simp
  qed
  with step s' words ct show ?case by (auto simp: algebra_simps)
qed

lemma dma_registers:
  "bytes (dma_end m (dma_begin p)) REG_DMA1_CSR = (bytes p REG_DMA1_CSR AND NOT 0x08) OR 0x80"
  "bytes (dma_end m (dma_begin p)) REG_DMA1_CER = 0"
  "bytes (dma_end m (dma_begin p)) REG_DMA1_CCR = bytes p REG_DMA1_CCR AND NOT 0x80"
  "load_counter (dma_end m (dma_begin p)) REG_DMA1_MTC = 0" "load_long (dma_end m (dma_begin p)) REG_DMA1_MAR = m"
proof -
  have "((w OR 8) AND NOT 8) OR 0x80 = (w AND NOT 8) OR (0x80 :: u8)" for w by (simp add: bitwise8)
  then show "bytes (dma_end m (dma_begin p)) REG_DMA1_CSR = (bytes p REG_DMA1_CSR AND NOT 0x08) OR 0x80"
    by (simp add: dma_begin_def dma_end_def set_byte_def store_long_def store_counter_def Let_def)
qed (simp_all add: dma_begin_def dma_end_def set_byte_def store_long_def store_counter_def load_long_def load_counter_def
    Let_def be16_def)

lemma complete_frame:
  "m_periph (cdic_dma_complete s) = m_periph s" "debug_peek8 b (cdic_dma_complete s) = debug_peek8 b s" 
  "get16 a (cdic_dma_complete s) = get16 a s"
  if "ciap_initialized (b_ciap s)"
  using that by (simp_all add: cdic_dma_complete_def ciap_ensure_initialized_def modify_word_def upd_ciap_def get16_def ram_byte_def)

lemma periph_frame [simp]:
  "debug_peek8 b (s\<lparr>m_periph := p\<rparr>) = debug_peek8 b s" "get16 a (s\<lparr>m_periph := p\<rparr>) = get16 a s"
  by (simp_all add: debug_peek8_def get16_def ram_byte_def split: BusRegion.split)

text \<open>
C35: A CD-interface DMA request into RAM runs to completion: the channel's word count of words starting at the buffer offset in the
DMA control register arrives in RAM in order, no other byte of RAM or ROM changes, the address register points past the
block, the count is zero, the channel reports completion and is no longer active or armed, and the interface's own start
bit is clear. The buffer has to lie below the control registers.
\<close>
theorem dma_burst_delivers:
  assumes "ciap_initialized (b_ciap s)" and "control AND 0x4000 \<noteq> 0" and "control AND 0x2000 \<noteq> 0"
    and "bytes (m_periph s) REG_DMA1_CCR AND 0x80 \<noteq> 0"
    and "n = unat (load_counter (m_periph s) REG_DMA1_MTC)" and "a = load_long (m_periph s) REG_DMA1_MAR"
    and "ram_room a (2 * n)" and "2 * (dma_offset (b_ciap s) + n) \<le> 0x25C2" and "0 < depth"
  shows "\<exists>s'. ciap_dma depth control s = (Done (), s')
    \<and> (\<forall>i<n. get16 (a + of_nat (2 * i)) s' = read_word (of_nat (2 * (dma_offset (b_ciap s) + i))) (b_ciap s))
    \<and> same_elsewhere a (2 * n) s s'
    \<and> load_counter (m_periph s') REG_DMA1_MTC = 0 \<and> load_long (m_periph s') REG_DMA1_MAR = a + of_nat (2 * n)
    \<and> bytes (m_periph s') REG_DMA1_CSR AND 0x88 = 0x80 \<and> bytes (m_periph s') REG_DMA1_CCR AND 0x80 = 0
    \<and> read_word CIAP_DMACTL (b_ciap s') AND 0x4000 = 0"
proof -
  obtain d where d: "depth = Suc d" using assms(9) by (cases depth) auto
  define t where t: "t = s\<lparr>m_periph := dma_begin (m_periph s)\<rparr>"
  have "ciap_initialized (b_ciap t)" "2 * (dma_offset (b_ciap t) + n) \<le> 0x25C2"
    using assms(1,8) by (simp_all add: t)
  then obtain u where u: "dma_words (write16_with (ciap_dma d)) True n a t = (Done (a + of_nat (2 * n)), u)"
    "m_periph u = m_periph t" "ciap_initialized (b_ciap u)"
    "\<forall>i<n. get16 (a + of_nat (2 * i)) u = read_word (of_nat (2 * (dma_offset (b_ciap t) + i))) (b_ciap t)"
    "same_elsewhere a (2 * n) t u"
    using dma_words_run [OF _ _ assms(7)] by blast
  define e where e: "e = u\<lparr>m_periph := dma_end (a + of_nat (2 * n)) (m_periph u)\<rparr>"
  have run: "ciap_dma depth control s = (Done (), cdic_dma_complete e)"
    using assms(2-6) u(1) by (simp add: d periph_ciap_dma_request_def Let_def e flip: t)
  have i: "ciap_initialized (b_ciap e)" using u(3) by (simp add: e)
  have reg: "m_periph e = dma_end (a + of_nat (2 * n)) (dma_begin (m_periph s))" by (simp add: e u(2)) (simp add: t)
  have "((w AND NOT 8) OR 0x80) AND 0x88 = (0x80 :: u8)" "(w AND NOT 0x80) AND 0x80 = (0 :: u8)" for w
    by (simp_all add: bitwise8)
  moreover have "(w AND NOT 0x4000) AND 0x4000 = (0 :: u16)" for w by (simp add: bitwise16)
  then have "read_word CIAP_DMACTL (b_ciap (cdic_dma_complete e)) AND 0x4000 = 0"
    using i by (simp add: cdic_dma_complete_def ciap_ensure_initialized_def modify_word_def upd_ciap_def read_store_word)
  moreover have "same_elsewhere a (2 * n) s (cdic_dma_complete e)"
    using u(5) by (simp add: same_elsewhere_def complete_frame [OF i]) (simp add: e t)
  ultimately show ?thesis
    using run u(4) by (simp add: complete_frame [OF i] reg dma_registers) (simp add: e t)
qed

definition dma_sample :: "unit machine" where
  "dma_sample = cold_machine\<lparr>
     m_periph := periph_reset\<lparr>bytes := (\<lambda>_. 0)(REG_DMA1_CCR := 0x80, REG_DMA1_MTC + 1 := 2, REG_DMA1_MAR + 2 := 0x10)\<rparr>,
     b_ciap := (b_ciap cold_machine)\<lparr>ciap_initialized := True,
       memory := (\<lambda>_. 0)(0x1200 := 0xDE, 0x1201 := 0xAD, CIAP_DMACTL := 0x69)\<rparr>\<rparr>"

theorem dma_burst_delivers_witness:
  "\<exists>s'. ciap_dma dma_depth 0x6900 dma_sample = (Done (), s') \<and> get16 0x1000 s' = 0xDEAD \<and> load_long (m_periph s') REG_DMA1_MAR = 0x1004"
proof -
  have c: "b_ciap dma_sample = (b_ciap cold_machine)\<lparr>ciap_initialized := True,
      memory := (\<lambda>_. 0)(0x1200 := 0xDE, 0x1201 := 0xAD, CIAP_DMACTL := 0x69)\<rparr>"
    and p: "m_periph dma_sample = periph_reset\<lparr>bytes := (\<lambda>_. 0)(REG_DMA1_CCR := 0x80, REG_DMA1_MTC + 1 := 2, REG_DMA1_MAR + 2 := 0x10)\<rparr>"
    by (simp_all add: dma_sample_def)
  have v: "ciap_initialized (b_ciap dma_sample)" "dma_offset (b_ciap dma_sample) = 0x900" "read_word 0x1200 (b_ciap dma_sample) = 0xDEAD"
    "bytes (m_periph dma_sample) REG_DMA1_CCR AND 0x80 \<noteq> 0" "unat (load_counter (m_periph dma_sample) REG_DMA1_MTC) = 2"
    "load_long (m_periph dma_sample) REG_DMA1_MAR = 0x1000" "ram_room 0x1000 4"
    by (simp_all add: c p dma_offset_def read_word_def be16_def load_counter_def load_long_def be32_def ram_room_def)
  show ?thesis
    using dma_burst_delivers [of dma_sample "0x6900" 2 "0x1000" dma_depth] v by fastforce
qed
end
