(* ===== verification/Mcd212_Scanout_Laws.thy ===== *)
theory Mcd212_Scanout_Laws
  imports Mcd212_Scanout
begin

unbundle bit_operations_syntax

text \<open>
  The optimised scanout job against the reference: spans of constant source colour and matte state compose to the same line,
  whatever the coding, and the job stops exactly when the reference does.
\<close>

section \<open>Mattes between commands\<close>

definition matte_idle :: "VideoRegisters \<Rightarrow> nat \<Rightarrow> MatteState \<Rightarrow> nat \<Rightarrow> bool" where
  "matte_idle r x st i \<longleftrightarrow> matte_next st i < matte_limit st i \<longrightarrow> x < matte_position (matte_command r ! matte_next st i)"

lemma matte_loop_idle: "matte_idle r x st i \<Longrightarrow> matte_loop r i x st = st"
  by (subst matte_loop.simps) (simp add: matte_idle_def Let_def)

lemma matte_loop_settles: "matte_idle r x (matte_loop r i x st) i"
proof (induction r i x st rule: matte_loop.induct)
  case (1 r i x st)
  then show ?case
    by (subst matte_loop.simps) (auto simp: Let_def matte_idle_def)
qed

lemma matte_loop_other:
  "j \<noteq> i \<Longrightarrow> matte_next (matte_loop r i x st) j = matte_next st j \<and> matte_limit (matte_loop r i x st) = matte_limit st"
proof (induction r i x st rule: matte_loop.induct)
  case (1 r i x st)
  then show ?case
    by (subst (1 2) matte_loop.simps) (simp add: Let_def)
qed

lemma apply_matte_idle: "matte_idle r x st 0 \<Longrightarrow> matte_idle r x st 1 \<Longrightarrow> apply_matte_commands r x st = st"
  by (simp add: apply_matte_commands_def matte_loop_idle)

lemma apply_matte_settles: "matte_idle r x (apply_matte_commands r x st) 0" "matte_idle r x (apply_matte_commands r x st) 1"
  using matte_loop_settles [of r x 0 st] matte_loop_settles [of r x 1 "matte_loop r 0 x st"]
    matte_loop_other [of 0 1 r x "matte_loop r 0 x st"]
  by (simp_all add: apply_matte_commands_def matte_idle_def)

lemma matte_end_bounds:
  assumes "matte_idle r x st 0" "matte_idle r x st 1" "x < unat w"
  shows "x < scanout_matte_end r w st" "scanout_matte_end r w st \<le> unat w"
    "y < scanout_matte_end r w st \<Longrightarrow> matte_idle r y st 0 \<and> matte_idle r y st 1"
  using assms by (auto simp: scanout_matte_end_def matte_idle_def split: if_splits)

section \<open>Composition over spans\<close>

lemma put_pixel_keeps [simp]:
  "registers (put_pixel i ra rb pv v) = registers v" "decoded (put_pixel i ra rb pv v) = decoded v"
  "contribution_lut (put_pixel i ra rb pv v) = contribution_lut v" "width (put_pixel i ra rb pv v) = width v"
  "put_pixel i ra rb pv (v\<lparr>decoded := rs\<rparr>) = (put_pixel i ra rb pv v)\<lparr>decoded := rs\<rparr>"
  by (simp_all add: put_pixel_def Let_def)

lemma compose_pixels_keeps [simp]:
  "registers (compose_pixels base xs mt v) = registers v" "decoded (compose_pixels base xs mt v) = decoded v"
  "contribution_lut (compose_pixels base xs mt v) = contribution_lut v" "width (compose_pixels base xs mt v) = width v"
  by (induction xs arbitrary: mt v) (simp_all add: Let_def)

lemma compose_pixels_append:
  "compose_pixels base (xs @ ys) mt v = compose_pixels base ys (fold (apply_matte_commands (registers v)) xs mt) (compose_pixels base xs mt v)"
  by (induction xs arbitrary: mt v) (simp_all add: Let_def)

lemma compose_span:
  assumes "\<forall>i\<in>set xs. decoded v 0 i = ra \<and> decoded v 1 i = rb \<and> apply_matte_commands (registers v) i mt = mt"
  shows "compose_pixels base xs mt v = fold (\<lambda>i. put_pixel (base + i) ra rb (compose_pixel (registers v) (contribution_lut v) mt ra rb)) xs v"
  using assms by (induction xs arbitrary: v) (simp_all add: Let_def)

lemma span_keeps [simp]:
  "registers (scanout_span base x e ra rb mt v) = registers v" "decoded (scanout_span base x e ra rb mt v) = decoded v"
  "contribution_lut (scanout_span base x e ra rb mt v) = contribution_lut v" "width (scanout_span base x e ra rb mt v) = width v"
  "scanout_span base x e ra rb mt (v\<lparr>decoded := rs\<rparr>) = (scanout_span base x e ra rb mt v)\<lparr>decoded := rs\<rparr>"
proof -
  have *: "registers (fold (\<lambda>i. put_pixel (base + i) ra rb pv) xs v) = registers v \<and> decoded (fold (\<lambda>i. put_pixel (base + i) ra rb pv) xs v) = decoded v
    \<and> contribution_lut (fold (\<lambda>i. put_pixel (base + i) ra rb pv) xs v) = contribution_lut v
    \<and> width (fold (\<lambda>i. put_pixel (base + i) ra rb pv) xs v) = width v
    \<and> fold (\<lambda>i. put_pixel (base + i) ra rb pv) xs (v\<lparr>decoded := rs\<rparr>) = (fold (\<lambda>i. put_pixel (base + i) ra rb pv) xs v)\<lparr>decoded := rs\<rparr>"
    for xs pv and v :: VideoPipeline
    by (induction xs arbitrary: v) simp_all
  show "registers (scanout_span base x e ra rb mt v) = registers v" "decoded (scanout_span base x e ra rb mt v) = decoded v"
    "contribution_lut (scanout_span base x e ra rb mt v) = contribution_lut v" "width (scanout_span base x e ra rb mt v) = width v"
    "scanout_span base x e ra rb mt (v\<lparr>decoded := rs\<rparr>) = (scanout_span base x e ra rb mt v)\<lparr>decoded := rs\<rparr>"
    by (simp_all add: scanout_span_def Let_def *)
qed

lemma span_composes:
  assumes "x < e" and idle: "\<And>y. y < e \<Longrightarrow> matte_idle (registers v) y mt' 0 \<and> matte_idle (registers v) y mt' 1"
    and mt': "mt' = apply_matte_commands (registers v) x mt"
    and const: "\<And>i. x \<le> i \<Longrightarrow> i < e \<Longrightarrow> decoded v 0 i = ra \<and> decoded v 1 i = rb"
  shows "compose_pixels base [x..<e] mt v = scanout_span base x e ra rb mt' v"
    and "fold (apply_matte_commands (registers v)) [x..<e] mt = mt'"
proof -
  have still: "apply_matte_commands (registers v) i mt' = mt'" if "i < e" for i
    using idle [OF that] by (simp add: apply_matte_idle)
  have up: "[x..<e] = x # [Suc x..<e]" using \<open>x < e\<close> by (simp add: upt_conv_Cons)
  have "fold (apply_matte_commands (registers v)) ys mt' = mt'" if "\<forall>y\<in>set ys. y < e" for ys
    using that by (induction ys) (simp_all add: still)
  then show "fold (apply_matte_commands (registers v)) [x..<e] mt = mt'"
    by (simp add: up flip: mt')
  show "compose_pixels base [x..<e] mt v = scanout_span base x e ra rb mt' v"
    using const [of x] \<open>x < e\<close> const still
    by (simp add: up Let_def scanout_span_def flip: mt') (subst compose_span [of _ _ ra rb], auto)
qed

section \<open>What a source has still to deliver\<close>

text \<open>The pixels from \<open>x\<close> to the end of the line, with the bytes consumed once they are all delivered.\<close>

definition upcoming :: "VideoRegisters \<Rightarrow> u16 \<Rightarrow> dram \<Rightarrow> nat \<Rightarrow> (nat \<Rightarrow> u32) \<Rightarrow> nat \<Rightarrow> ScanoutSource \<Rightarrow> (u32 list \<times> u16) outcome" where
  "upcoming r w m p row x s =
     (if s_direct s
      then bindo (rle_pixels (clut_lookup r p) (s_scale s = 2) m (s_address s + ucast (s_consumed s)) (s_pixels s - s_produced s))
        (\<lambda>(px, c). Done (replicate (s_end s - x) (s_color s) @ px, s_consumed s + of_nat c))
      else Done (map row [x..<unat w], s_consumed s))"

definition source_ok :: "u16 \<Rightarrow> (nat \<Rightarrow> u32) \<Rightarrow> nat \<Rightarrow> ScanoutSource \<Rightarrow> bool" where
  "source_ok w row x s \<longleftrightarrow>
     (if s_direct s
      then unat w \<le> row_capacity \<and> s_scale s \<in> {1, 2} \<and> s_pixels s * s_scale s = unat w \<and> s_produced s \<le> s_pixels s \<and>
        s_end s = s_produced s * s_scale s \<and> unat (s_consumed s) \<le> 2 * s_produced s \<and> x \<le> s_end s
      else x < s_end s \<longrightarrow> s_end s \<le> unat w \<and> (\<forall>i. x \<le> i \<and> i < s_end s \<longrightarrow> row i = s_color s))"

lemma run_end_spec:
  "e \<le> w \<Longrightarrow> e \<le> run_end row w color e \<and> run_end row w color e \<le> w \<and> (\<forall>i. e \<le> i \<and> i < run_end row w color e \<longrightarrow> row i = color)"
proof (induction row w color e rule: run_end.induct)
  case (1 row w color e)
  show ?case
  proof (cases "e < w \<and> row e = color")
    case True
    then have "run_end row w color e = run_end row w color (Suc e)" by (subst run_end.simps) simp
    moreover have "row i = color" if "e \<le> i" "i < run_end row w color (Suc e)" for i
      using 1 True that by (cases "i = e") auto
    ultimately show ?thesis using 1 True by auto
  next
    case False
    then have "run_end row w color e = e" by (subst run_end.simps) auto
    then show ?thesis using 1(2) by auto
  qed
qed

lemma concat_doubled: "sc \<in> {1, 2} \<Longrightarrow> concat (replicate k (doubled (sc = 2) c)) = replicate (k * sc) c"
  by (induction k) (auto simp: doubled_def replicate_add numeral_2_eq_2)

lemma rle_command_facts:
  "rle_command m a = Done (format, n, used) \<Longrightarrow> used \<le> 2"
  "rle_command m a = Aborted \<or> (\<exists>format n used. rle_command m a = Done (format, n, used))"
  by (auto simp: rle_command_def dram_byte_def bindo_Done split: if_splits)

lemma next_step:
  assumes ok: "source_ok w row x s" and x: "x < unat w"
  shows "scanout_next r w m p row x s = Aborted \<and> upcoming r w m p row x s = Aborted \<or>
    (\<exists>s'. scanout_next r w m p row x s = Done s' \<and> source_ok w row x s' \<and> x < s_end s' \<and> s_end s' \<le> unat w \<and>
      s_direct s' = s_direct s \<and> upcoming r w m p row x s' = upcoming r w m p row x s)"
proof -
  consider "x < s_end s" | "\<not> x < s_end s" "\<not> s_direct s" | "\<not> x < s_end s" "s_direct s" by blast
  then show ?thesis
  proof cases
    case 1
    have "s_end s \<le> unat w"
    proof (cases "s_direct s")
      case True
      then have d: "s_end s = s_produced s * s_scale s" "unat w = s_pixels s * s_scale s" "s_produced s \<le> s_pixels s"
        using ok by (simp_all add: source_ok_def)
      show ?thesis unfolding d(1,2) using d(3) by (rule mult_le_mono1)
    qed (use ok 1 in \<open>simp add: source_ok_def\<close>)
    then show ?thesis using 1 ok by (simp add: scanout_next_def)
  next
    case 2
    define e where "e = run_end row (unat w) (row x) (x + 1)"
    have e: "x + 1 \<le> e" "e \<le> unat w" "\<forall>i. x + 1 \<le> i \<and> i < e \<longrightarrow> row i = row x"
      using run_end_spec [of "x + 1" "unat w" row "row x"] x by (simp_all add: e_def)
    have const: "row i = row x" if "x \<le> i" "i < e" for i
      using e(3) that by (cases "i = x") simp_all
    have "source_ok w row x (s\<lparr>s_color := row x, s_end := e\<rparr>)"
      using 2(2) e(2) by (simp add: source_ok_def) (blast intro: const)
    moreover have "scanout_next r w m p row x s = Done (s\<lparr>s_color := row x, s_end := e\<rparr>)"
      using 2 by (simp add: scanout_next_def e_def)
    moreover have "upcoming r w m p row x (s\<lparr>s_color := row x, s_end := e\<rparr>) = upcoming r w m p row x s"
      using 2(2) by (simp add: upcoming_def)
    ultimately show ?thesis
      using e(1,2) by (intro disjI2 exI [of _ "s\<lparr>s_color := row x, s_end := e\<rparr>"]) simp
  next
    case 3
    have f: "unat w \<le> row_capacity" "s_scale s \<in> {1, 2}" "s_pixels s * s_scale s = unat w" "s_produced s \<le> s_pixels s"
        "s_end s = s_produced s * s_scale s" "unat (s_consumed s) \<le> 2 * s_produced s" "x = s_end s"
      using ok 3 by (simp_all add: source_ok_def)
    have left: "s_produced s < s_pixels s"
      using x f(3-5,7) by (metis le_neq_implies_less less_irrefl)
    define rem where "rem = s_pixels s - s_produced s"
    have rem: "0 < rem" "s_produced s + rem = s_pixels s" using left by (simp_all add: rem_def)
    have rest: "rle_pixels look d m a rem = bindo (rle_command m a) (\<lambda>(format, n, used).
        let k = (if n = 0 then rem else min n rem)
        in bindo (rle_pixels look d m (a + of_nat used) (rem - k)) (\<lambda>(px, c).
          Done (concat (replicate k (doubled d (look (unat (format AND 0x7F))))) @ px, used + c)))" for look d a
      using rem(1) by (subst rle_pixels.simps) simp
    consider "rle_command m (s_address s + ucast (s_consumed s)) = Aborted"
      | format n used where "rle_command m (s_address s + ucast (s_consumed s)) = Done (format, n, used)"
      using rle_command_facts(2) by blast
    then show ?thesis
    proof cases
      case 1
      then show ?thesis using 3 by (simp add: scanout_next_def upcoming_def rest flip: rem_def)
    next
      case (2 format n used)
      define k where "k = (if n = 0 then rem else min n rem)"
      have k: "0 < k" "k \<le> rem" using rem(1) by (simp_all add: k_def)
      define s' where "s' = s\<lparr>s_consumed := s_consumed s + of_nat used, s_produced := s_produced s + k,
        s_end := (s_produced s + k) * s_scale s, s_color := clut_lookup r p (unat (format AND 0x7F))\<rparr>"
      have used: "used \<le> 2" using rle_command_facts(1) [OF 2] .
      have "s_pixels s \<le> 768" using f(1-3) by auto
      then have c: "unat (s_consumed s + of_nat used :: u16) = unat (s_consumed s) + used"
        using used f(4,6) by (simp add: unat_word_ariths unat_of_nat)
      have addr: "s_address s + ucast (s_consumed s) + of_nat used = s_address s + ucast (s_consumed s + of_nat used :: u16)"
        by (simp add: word_unat_eq_iff [of "ucast (s_consumed s) + of_nat used"] c add.assoc)
          (use c in \<open>simp add: word_unat_eq_iff unat_word_ariths unat_of_nat unsigned_ucast_eq take_bit_eq_mod mod_simps\<close>)
      have nx: "scanout_next r w m p row x s = Done s'"
        using 3 2 by (simp add: scanout_next_def s'_def Let_def k_def flip: rem_def)
      have ends: "x < s_end s'" "s_end s' \<le> unat w" "s_end s' - x = k * s_scale s"
        using f k rem mult_le_mono1 [of "s_produced s + k" "s_pixels s" "s_scale s"] by (auto simp: s'_def add_mult_distrib)
      have "source_ok w row x s'"
        using f k rem c used ends 3 by (simp add: source_ok_def s'_def)
      moreover have "upcoming r w m p row x s' = upcoming r w m p row x s"
      proof -
        have rk: "rem - k = s_pixels s - (s_produced s + k)" using rem(2) by simp
        have "rle_pixels look d m (s_address s + ucast (s_consumed s)) rem =
            bindo (rle_pixels look d m (s_address s + ucast (s_consumed s) + of_nat used) (rem - k))
              (\<lambda>(px, c). Done (concat (replicate k (doubled d (look (unat (format AND 0x7F))))) @ px, used + c))" for look d
          by (simp only: rest 2 bindo.simps prod.case Let_def k_def)
        then have "upcoming r w m p row x s = bindo (rle_pixels (clut_lookup r p) (s_scale s = 2) m
              (s_address s + ucast (s_consumed s) + of_nat used) (rem - k))
            (\<lambda>(px, c). Done (replicate (k * s_scale s) (clut_lookup r p (unat (format AND 0x7F))) @ px, s_consumed s + of_nat (used + c)))"
          using 3(2) f(7) by (simp add: upcoming_def bindo_assoc case_prod_unfold concat_doubled [OF f(2)] flip: rem_def)
        then show ?thesis
          unfolding addr rk using 3(2) ends(3) by (simp add: upcoming_def s'_def case_prod_unfold add.assoc)
      qed
      ultimately show ?thesis using nx ends(1,2) 3 by (simp add: s'_def)
    qed
  qed
qed

lemma rle_length: "sc \<in> {1, 2} \<Longrightarrow> rle_pixels look (sc = 2) m a n = Done (px, c) \<Longrightarrow> length px = n * sc"
proof (induction look "sc = 2" m a n arbitrary: px c rule: rle_pixels.induct)
  case (1 look m a n)
  show ?case
  proof (cases "n = 0")
    case True
    then show ?thesis using 1(3) by (simp add: rle_pixels.simps)
  next
    case False
    obtain format reps used where cmd: "rle_command m a = Done (format, reps, used)"
      using 1(3) False rle_command_facts(2) [of m a] by (auto simp: rle_pixels.simps [of _ _ _ a n])
    define k where "k = (if reps = 0 then n else min reps n)"
    have "rle_pixels look (sc = 2) m a n = bindo (rle_pixels look (sc = 2) m (a + of_nat used) (n - k))
        (\<lambda>(px, c). Done (concat (replicate k (doubled (sc = 2) (look (unat (format AND 0x7F))))) @ px, used + c))"
      using False by (subst rle_pixels.simps) (simp add: cmd Let_def k_def)
    then obtain px' c' where rest: "rle_pixels look (sc = 2) m (a + of_nat used) (n - k) = Done (px', c')"
      "px = replicate (k * sc) (look (unat (format AND 0x7F))) @ px'"
      using 1(3) concat_doubled [OF 1(2), of k] by (auto simp: bindo_Done)
    have "length px' = (n - k) * sc"
      using 1(1) [OF False _ 1(2) rest(1)] by (simp add: k_def)
    moreover have "k \<le> n" by (simp add: k_def)
    ultimately show ?thesis by (simp add: rest(2) flip: add_mult_distrib)
  qed
qed

lemma upcoming_length:
  assumes "source_ok w row x s" "upcoming r w m p row x s = Done (px, t)" "x \<le> unat w"
  shows "length px = unat w - x"
proof (cases "s_direct s")
  case True
  then obtain q c where q: "rle_pixels (clut_lookup r p) (s_scale s = 2) m (s_address s + ucast (s_consumed s)) (s_pixels s - s_produced s) = Done (q, c)"
    "px = replicate (s_end s - x) (s_color s) @ q"
    using assms(2) by (auto simp: upcoming_def bindo_Done)
  have f: "s_scale s \<in> {1, 2}" "s_pixels s * s_scale s = unat w" "s_produced s \<le> s_pixels s" "s_end s = s_produced s * s_scale s" "x \<le> s_end s"
    using assms(1) True by (simp_all add: source_ok_def)
  have "length q = (s_pixels s - s_produced s) * s_scale s" by (rule rle_length [OF f(1) q(1)])
  also have "\<dots> = unat w - s_end s" by (simp only: f(2,4) diff_mult_distrib)
  moreover have "s_end s \<le> unat w" using mult_le_mono1 [OF f(3), of "s_scale s"] by (simp only: f(2,4))
  ultimately show ?thesis using f(5) by (simp add: q(2))
next
  case False
  then show ?thesis using assms(2) by (auto simp: upcoming_def)
qed

text \<open>Moving on within the current run.\<close>

lemma upcoming_advance:
  assumes ok: "source_ok w row x s" and x: "x < s_end s" "s_end s \<le> unat w" and e: "x \<le> e" "e \<le> s_end s"
    and row': "s_direct s \<or> row' = row"
  shows "source_ok w row' e s"
    and "upcoming r w m p row x s = Aborted \<Longrightarrow> upcoming r w m p row' e s = Aborted"
    and "upcoming r w m p row x s = Done (px, t) \<Longrightarrow> upcoming r w m p row' e s = Done (drop (e - x) px, t) \<and> (\<forall>i<e - x. px ! i = s_color s)"
proof -
  show "source_ok w row' e s" using ok e row' by (auto simp: source_ok_def)
  show "upcoming r w m p row x s = Aborted \<Longrightarrow> upcoming r w m p row' e s = Aborted"
    by (auto simp: upcoming_def split: if_splits outcome.splits elim!: bindo.elims)
  assume px: "upcoming r w m p row x s = Done (px, t)"
  show "upcoming r w m p row' e s = Done (drop (e - x) px, t) \<and> (\<forall>i<e - x. px ! i = s_color s)"
  proof (cases "s_direct s")
    case True
    then show ?thesis using px e by (auto simp: upcoming_def bindo_Done nth_append)
  next
    case False
    then have "px = map row [x..<unat w]" "t = s_consumed s" "row' = row" using px row' by (auto simp: upcoming_def)
    moreover have "row (x + i) = s_color s" if "i < e - x" for i
      using ok False x that e by (simp add: source_ok_def)
    ultimately show ?thesis using False e x by (simp add: upcoming_def drop_map drop_upt)
  qed
qed

section \<open>The loop\<close>

definition settle :: "u16 \<Rightarrow> nat \<Rightarrow> ScanoutSource \<Rightarrow> u32 list \<Rightarrow> (nat \<Rightarrow> u32) \<Rightarrow> nat \<Rightarrow> u32" where
  "settle w x s px row = (if s_direct s then (\<lambda>i. if x \<le> i \<and> i < unat w then px ! (i - x) else row i) else row)"

definition settled :: "u16 \<Rightarrow> nat \<Rightarrow> ScanoutSource \<Rightarrow> u32 list \<Rightarrow> ScanoutSource \<Rightarrow> u32 list \<Rightarrow> rows \<Rightarrow> rows" where
  "settled w x a pa b pb rs = rs(0 := settle w x a pa (rs 0), 1 := settle w x b pb (rs 1))"

lemma settled_step:
  assumes "x \<le> e" "e \<le> unat w" "\<forall>i<e - x. pa ! i = s_color a" "\<forall>i<e - x. pb ! i = s_color b"
    "length pa = unat w - x" "length pb = unat w - x"
  shows "settled w e a (drop (e - x) pa) b (drop (e - x) pb) (fill_row b 1 x e (fill_row a 0 x e rs)) = settled w x a pa b pb rs"
proof -
  have one: "settle w e s (drop (e - x) px) (if s_direct s then (\<lambda>i. if x \<le> i \<and> i < e then s_color s else row i) else row) = settle w x s px row"
    if c: "\<forall>i<e - x. px ! i = s_color s" and l: "length px = unat w - x" for s px row
  proof
    fix i
    consider "i < x" | "x \<le> i" "i < e" | "e \<le> i" "i < unat w" | "e \<le> i" "unat w \<le> i" by linarith
    then show "settle w e s (drop (e - x) px) (if s_direct s then (\<lambda>i. if x \<le> i \<and> i < e then s_color s else row i) else row) i = settle w x s px row i"
      using assms(1,2) c l by cases (simp_all add: settle_def)
  qed
  have fill: "fill_row b 1 x e (fill_row a 0 x e rs) =
      rs(0 := (if s_direct a then (\<lambda>i. if x \<le> i \<and> i < e then s_color a else rs 0 i) else rs 0),
        1 := (if s_direct b then (\<lambda>i. if x \<le> i \<and> i < e then s_color b else rs 1 i) else rs 1))"
    by (auto simp: fill_row_def fun_eq_iff)
  have "settled w e a (drop (e - x) pa) b (drop (e - x) pb) (rs(0 := f, 1 := g)) =
      rs(0 := settle w e a (drop (e - x) pa) f, 1 := settle w e b (drop (e - x) pb) g)" for f g
    by (simp add: settled_def)
  then show ?thesis
    unfolding fill by (simp only: one [OF assms(3,5)] one [OF assms(4,6)] settled_def)
qed

lemma settled_pixels:
  assumes "upcoming r w m 0 (rs 0) x a = Done (pa, ta)" "upcoming r w m 1 (rs 1) x b = Done (pb, tb)" "x \<le> i" "i < unat w"
  shows "settled w x a pa b pb rs 0 i = pa ! (i - x)" "settled w x a pa b pb rs 1 i = pb ! (i - x)"
  using assms by (auto simp: settled_def settle_def upcoming_def split: if_splits)

lemma source_complete:
  assumes "source_ok w row x s" "\<not> x < unat w"
  shows "\<not> s_direct s \<or> s_produced s = s_pixels s" "upcoming r w m p row x s = Done (px, t) \<Longrightarrow> t = s_consumed s"
    "settle w x s px row = row"
proof -
  show produced: "\<not> s_direct s \<or> s_produced s = s_pixels s"
  proof (cases "s_direct s")
    case True
    then have f: "s_scale s \<in> {1, 2}" "s_pixels s * s_scale s = unat w" "s_produced s \<le> s_pixels s" "s_end s = s_produced s * s_scale s" "x \<le> s_end s"
      using assms(1) by (simp_all add: source_ok_def)
    have "s_pixels s * s_scale s \<le> s_produced s * s_scale s" using assms(2) f(5) unfolding f(2) f(4) [symmetric] by linarith
    then show ?thesis using f(1,3) by auto
  qed simp
  show "upcoming r w m p row x s = Done (px, t) \<Longrightarrow> t = s_consumed s"
    using produced by (auto simp: upcoming_def rle_pixels.simps [of _ _ _ _ 0] split: if_splits)
  show "settle w x s px row = row" using assms(2) by (auto simp: settle_def fun_eq_iff)
qed

lemma loop_finished:
  "\<not> x < unat (width v) \<Longrightarrow> scanout_loop fuel m base x a b mt v = Done (a, b, v)"
  by (cases fuel) simp_all

lemma loop_done:
  assumes "source_ok (width v) (decoded v 0) x a" "source_ok (width v) (decoded v 1) x b" "x \<le> unat (width v)" "unat (width v) - x \<le> fuel"
    and "upcoming (registers v) (width v) m 0 (decoded v 0) x a = Done (pa, ta)"
    and "upcoming (registers v) (width v) m 1 (decoded v 1) x b = Done (pb, tb)"
  shows "\<exists>a' b'. scanout_loop fuel m base x a b mt v =
      Done (a', b', compose_pixels base [x..<unat (width v)] mt (v\<lparr>decoded := settled (width v) x a pa b pb (decoded v)\<rparr>)) \<and>
    s_consumed a' = ta \<and> s_consumed b' = tb"
  using assms
proof (induction fuel arbitrary: x a b mt v pa pb)
  case (Suc fuel)
  note oks = Suc.prems(1,2) and ups = Suc.prems(5,6)
  let ?w = "width v" and ?r = "registers v"
  show ?case
  proof (cases "x < unat ?w")
    case True
    obtain a' where a': "scanout_next ?r ?w m 0 (decoded v 0) x a = Done a'" "source_ok ?w (decoded v 0) x a'" "x < s_end a'" "s_end a' \<le> unat ?w"
      "s_direct a' = s_direct a" "upcoming ?r ?w m 0 (decoded v 0) x a' = Done (pa, ta)"
      using next_step [OF oks(1) True, of ?r m 0] ups(1) by auto
    obtain b' where b': "scanout_next ?r ?w m 1 (decoded v 1) x b = Done b'" "source_ok ?w (decoded v 1) x b'" "x < s_end b'" "s_end b' \<le> unat ?w"
      "s_direct b' = s_direct b" "upcoming ?r ?w m 1 (decoded v 1) x b' = Done (pb, tb)"
      using next_step [OF oks(2) True, of ?r m 1] ups(2) by auto
    define mt' where mt': "mt' = apply_matte_commands ?r x mt"
    define e where e: "e = min (min (s_end a') (s_end b')) (scanout_matte_end ?r ?w mt')"
    note me = matte_end_bounds [OF apply_matte_settles [of ?r x mt, folded mt'] True]
    have ex: "x < e" "x \<le> e" "e \<le> s_end a'" "e \<le> s_end b'" "e \<le> unat ?w" using a'(3,4) b'(3) me(1) by (auto simp: e)
    define rs where rs: "rs = fill_row b' 1 x e (fill_row a' 0 x e (decoded v))"
    define u where u: "u = scanout_span base x e (s_color a') (s_color b') mt' (v\<lparr>decoded := rs\<rparr>)"
    have rows: "s_direct a' \<or> rs 0 = decoded v 0" "s_direct b' \<or> rs 1 = decoded v 1" by (auto simp: rs fill_row_def)
    note adv_a = upcoming_advance [OF a'(2-4) ex(2,3) rows(1)] and adv_b = upcoming_advance [OF b'(2-4) ex(2,4) rows(2)]
    have pa: "upcoming ?r ?w m 0 (rs 0) e a' = Done (drop (e - x) pa, ta)" "\<forall>i<e - x. pa ! i = s_color a'"
      using adv_a(3) [OF a'(6)] by simp_all
    have pb: "upcoming ?r ?w m 1 (rs 1) e b' = Done (drop (e - x) pb, tb)" "\<forall>i<e - x. pb ! i = s_color b'"
      using adv_b(3) [OF b'(6)] by simp_all
    have len: "length pa = unat ?w - x" "length pb = unat ?w - x"
      using upcoming_length [OF oks(1) ups(1)] upcoming_length [OF oks(2) ups(2)] True by simp_all
    define R where R: "R = settled ?w x a' pa b' pb (decoded v)"
    have R': "settled ?w x a pa b pb (decoded v) = R" by (simp add: R settled_def settle_def a'(5) b'(5))
    have Re: "settled ?w e a' (drop (e - x) pa) b' (drop (e - x) pb) rs = R"
      unfolding R rs by (rule settled_step [OF ex(2,5) pa(2) pb(2) len])
    have const: "decoded (v\<lparr>decoded := R\<rparr>) 0 i = s_color a' \<and> decoded (v\<lparr>decoded := R\<rparr>) 1 i = s_color b'" if "x \<le> i" "i < e" for i
      using settled_pixels [OF a'(6) b'(6) that(1)] pa(2) pb(2) that ex(5) by (simp add: R)
    have mt'': "mt' = apply_matte_commands (registers (v\<lparr>decoded := R\<rparr>)) x mt" by (simp add: mt')
    note span = span_composes [OF ex(1) _ mt'' const]
    have "compose_pixels base [x..<unat ?w] mt (v\<lparr>decoded := R\<rparr>) = compose_pixels base [e..<unat ?w] mt' (u\<lparr>decoded := R\<rparr>)"
    proof -
      have up: "[x..<unat ?w] = [x..<e] @ [e..<unat ?w]" using ex by (metis le_add_diff_inverse upt_add_eq_append)
      have "compose_pixels base [x..<e] mt (v\<lparr>decoded := R\<rparr>) = u\<lparr>decoded := R\<rparr>"
        using span(1) [of base] me(3) by (simp add: u e)
      moreover have "fold (apply_matte_commands ?r) [x..<e] mt = mt'"
        using span(2) me(3) by (simp add: e)
      ultimately show ?thesis by (simp only: up compose_pixels_append VideoPipeline.select_convs) simp
    qed
    moreover have "\<exists>a'' b''. scanout_loop fuel m base e a' b' mt' u = Done (a'', b'', compose_pixels base [e..<unat ?w] mt' (u\<lparr>decoded := R\<rparr>)) \<and>
        s_consumed a'' = ta \<and> s_consumed b'' = tb"
      using Suc.IH [of u e a' b' "drop (e - x) pa" "drop (e - x) pb" mt'] adv_a(1) adv_b(1) pa(1) pb(1) ex Suc.prems(4) Re
      by (simp add: u)
    moreover have "scanout_loop (Suc fuel) m base x a b mt v = scanout_loop fuel m base e a' b' mt' u"
      using True a'(1) b'(1) by (simp add: Let_def u rs e mt')
    ultimately show ?thesis by (simp only: R')
  next
    case False
    then show ?thesis
      using source_complete(2) [OF oks(1) False ups(1)] source_complete(2) [OF oks(2) False ups(2)]
      by (simp add: loop_finished settled_def source_complete(3) [OF oks(1) False] source_complete(3) [OF oks(2) False, simplified] del: scanout_loop.simps)
  qed
next
  case 0
  then have x: "\<not> x < unat (width v)" by simp
  show ?case
    using source_complete(2) [OF 0(1) x 0(5)] source_complete(2) [OF 0(2) x 0(6)] x
    by (simp add: loop_finished settled_def source_complete(3) [OF 0(1) x] source_complete(3) [OF 0(2) x, simplified] del: scanout_loop.simps)
qed

lemma loop_aborts:
  assumes "source_ok (width v) (decoded v 0) x a" "source_ok (width v) (decoded v 1) x b"
    and "upcoming (registers v) (width v) m 0 (decoded v 0) x a = Aborted \<or> upcoming (registers v) (width v) m 1 (decoded v 1) x b = Aborted"
  shows "scanout_loop fuel m base x a b mt v \<noteq> Done z"
  using assms
proof (induction fuel arbitrary: x a b mt v)
  case (Suc fuel)
  note oks = Suc.prems(1,2)
  let ?w = "width v" and ?r = "registers v"
  have running: "x < unat ?w"
    using Suc.prems source_complete(1) [OF oks(1)] source_complete(1) [OF oks(2)]
    by (cases "x < unat ?w") (auto simp: upcoming_def rle_pixels.simps [of _ _ _ _ 0] split: if_splits)
  consider "scanout_next ?r ?w m 0 (decoded v 0) x a = Aborted \<or> scanout_next ?r ?w m 1 (decoded v 1) x b = Aborted"
    | a' b' where "scanout_next ?r ?w m 0 (decoded v 0) x a = Done a'" "source_ok ?w (decoded v 0) x a'" "x < s_end a'" "s_end a' \<le> unat ?w"
        "upcoming ?r ?w m 0 (decoded v 0) x a' = upcoming ?r ?w m 0 (decoded v 0) x a"
      "scanout_next ?r ?w m 1 (decoded v 1) x b = Done b'" "source_ok ?w (decoded v 1) x b'" "x < s_end b'" "s_end b' \<le> unat ?w"
        "upcoming ?r ?w m 1 (decoded v 1) x b' = upcoming ?r ?w m 1 (decoded v 1) x b"
    using next_step [OF oks(1) running, of ?r m 0] next_step [OF oks(2) running, of ?r m 1] by blast
  then show ?case
  proof cases
    case 1
    then show ?thesis using running by (auto simp: Let_def bindo_Done)
  next
    case 2
    define mt' where mt': "mt' = apply_matte_commands ?r x mt"
    define e where e: "e = min (min (s_end a') (s_end b')) (scanout_matte_end ?r ?w mt')"
    have ex: "x \<le> e" "e \<le> s_end a'" "e \<le> s_end b'"
      using 2(3,8) matte_end_bounds(1) [OF apply_matte_settles [of ?r x mt, folded mt'] running] by (auto simp: e)
    define rs where rs: "rs = fill_row b' 1 x e (fill_row a' 0 x e (decoded v))"
    define u where u: "u = scanout_span base x e (s_color a') (s_color b') mt' (v\<lparr>decoded := rs\<rparr>)"
    have rows: "s_direct a' \<or> rs 0 = decoded v 0" "s_direct b' \<or> rs 1 = decoded v 1" by (auto simp: rs fill_row_def)
    note adv_a = upcoming_advance [OF 2(2-4) ex(1,2) rows(1)] and adv_b = upcoming_advance [OF 2(7-9) ex(1,3) rows(2)]
    have "scanout_loop fuel m base e a' b' mt' u \<noteq> Done z"
      using Suc.prems(3) adv_a(2) [of ?r m 0] adv_b(2) [of ?r m 1] 2(5,10) adv_a(1) adv_b(1) by (intro Suc.IH) (auto simp: u)
    moreover have "scanout_loop (Suc fuel) m base x a b mt v = scanout_loop fuel m base e a' b' mt' u"
      using running 2(1,6) by (simp add: Let_def u rs e mt')
    ultimately show ?thesis by simp
  qed
next
  case 0
  then show ?case
    using source_complete(1) [OF 0(1)] source_complete(1) [OF 0(2)]
    by (cases "x < unat (width v)") (auto simp: upcoming_def rle_pixels.simps [of _ _ _ _ 0] split: if_splits)
qed

lemma rle_outcome: "rle_pixels look d m a n = Aborted \<or> (\<exists>px c. rle_pixels look d m a n = Done (px, c))"
proof (induction look d m a n rule: rle_pixels.induct)
  case (1 look d m a n)
  show ?case
  proof (cases "n = 0")
    case True
    then show ?thesis by (simp add: rle_pixels.simps)
  next
    case False
    consider "rle_command m a = Aborted" | format reps used where "rle_command m a = Done (format, reps, used)"
      using rle_command_facts(2) by blast
    then show ?thesis
    proof cases
      case 1
      then show ?thesis using False by (simp add: rle_pixels.simps [of _ _ _ a n])
    next
      case (2 format reps used)
      define k where "k = (if reps = 0 then n else min reps n)"
      have step: "rle_pixels look d m a n = bindo (rle_pixels look d m (a + of_nat used) (n - k))
          (\<lambda>(px, c). Done (concat (replicate k (doubled d (look (unat (format AND 0x7F))))) @ px, used + c))"
        using False by (subst rle_pixels.simps) (simp add: 2 Let_def k_def)
      have "rle_pixels look d m (a + of_nat used) (n - k) = Aborted \<or> (\<exists>px c. rle_pixels look d m (a + of_nat used) (n - k) = Done (px, c))"
        by (rule 1 [OF False]) (simp_all add: k_def)
      then show ?thesis unfolding step by auto
    qed
  qed
qed

section \<open>Preparing the sources\<close>

text \<open>Decoding and holding one plane, as the reference does for both planes together.\<close>

definition prepared :: "VideoRegisters \<Rightarrow> u16 \<Rightarrow> dram \<Rightarrow> nat \<Rightarrow> u32 \<Rightarrow> u32 \<Rightarrow> u16 \<Rightarrow> rows \<Rightarrow> (rows \<times> u16) outcome" where
  "prepared r w m p address address_a sw rs =
     bindo (decode_plane r w m p address address_a sw rs) (\<lambda>(rs1, c). bindo (apply_pixel_hold r w p rs1) (\<lambda>rs2. Done (rs2, c)))"

lemma hold_other: "apply_pixel_hold r w p rs = Done rs' \<Longrightarrow> q \<noteq> p \<Longrightarrow> rs' q = rs q"
  by (auto simp: apply_pixel_hold_def Let_def split: if_splits)

lemma hold_frame: "q \<noteq> p \<Longrightarrow> apply_pixel_hold r w p (rs(q := f)) = bindo (apply_pixel_hold r w p rs) (\<lambda>rs'. Done (rs'(q := f)))"
  by (simp add: apply_pixel_hold_def Let_def fun_upd_twist)

lemma store_frame: "q \<noteq> p \<Longrightarrow> store_row p px (rs(q := f)) = bindo (store_row p px rs) (\<lambda>rs'. Done (rs'(q := f)))"
  by (auto simp: store_row_def fun_eq_iff)

lemma store_other: "store_row p px rs = Done rs' \<Longrightarrow> q \<noteq> p \<Longrightarrow> rs' q = rs q"
  by (auto simp: store_row_def split: if_splits)

lemma decode_frame:
  assumes "p = 1" "q \<noteq> p"
  shows "decode_plane r w m p address address_a sw (rs(q := f)) = bindo (decode_plane r w m p address address_a sw rs) (\<lambda>(rs', c). Done (rs'(q := f), c))"
proof -
  have twist: "(rs(q := f))(p := g) = (rs(p := g))(q := f)" for rs :: rows and g using assms(2) by (simp add: fun_upd_twist)
  show ?thesis
    unfolding decode_plane_def Let_def assms(1) [symmetric] twist
    by (simp add: store_frame [OF assms(2)] bindo_assoc case_prod_unfold twist assms(2) [symmetric])
qed

lemma prepared_frame:
  assumes "p = 1" "q \<noteq> p"
  shows "prepared r w m p address address_a sw (rs(q := f)) = bindo (prepared r w m p address address_a sw rs) (\<lambda>(rs', c). Done (rs'(q := f), c))"
  by (simp add: prepared_def decode_frame [OF assms] bindo_assoc case_prod_unfold hold_frame [OF assms(2)])

text \<open>A source delivers what the reference has in the plane's row, or the reference cannot prepare the row either.\<close>

lemma source_spec:
  assumes w: "unat w \<le> row_capacity"
  shows "(\<exists>s rs'. scanout_source r w m p address address_a sw rs = Done (s, rs') \<and> (\<forall>row. source_ok w row 0 s) \<and>
      prepared r w m p address address_a sw rs =
        bindo (upcoming r w m p (rs' p) 0 s) (\<lambda>(px, t). Done (rs'(p := settle w 0 s px (rs' p)), t))) \<or>
    (\<forall>z. scanout_source r w m p address address_a sw rs \<noteq> Done z) \<and> (\<forall>z. prepared r w m p address address_a sw rs \<noteq> Done z)"
proof -
  define st where "st = plane r ! p"
  define wd where "wd = (if file_type st = FILE_RUN_LENGTH \<and> bits_per_pixel st = BITS_HIGH_8 then w else sw)"
  define scale where "scale = (if wd \<le> 384 then 2 else 1 :: nat)"
  define direct where "direct = (\<not> hold_enabled st \<and> coding st \<in> {CODING_CLUT8, CODING_CLUT7, CODING_CLUT77, CODING_CLUT4} \<and>
            file_type st = FILE_RUN_LENGTH \<and> bits_per_pixel st \<noteq> BITS_DOUBLE_4 \<and> unat wd * scale = unat w)"
  define source where "source = \<lparr>s_address = address, s_color = 0, s_end = 0, s_pixels = unat wd, s_produced = 0, s_scale = scale,
            s_consumed = 0, s_direct = direct\<rparr>"
  have src: "scanout_source r w m p address address_a sw rs =
      (if direct then Done (source, rs(p := (\<lambda>i. if i < unat w then rs p i else 0)))
       else bindo (prepared r w m p address address_a sw rs) (\<lambda>(rs2, c). Done (source\<lparr>s_consumed := c\<rparr>, rs2)))"
    unfolding scanout_source_def Let_def st_def [symmetric] wd_def [symmetric] scale_def [symmetric] direct_def [symmetric] source_def [symmetric]
    by (simp add: prepared_def bindo_assoc case_prod_unfold)
  show ?thesis
  proof (cases direct)
    case False
    have "source_ok w row 0 (source\<lparr>s_consumed := c\<rparr>)" for row c using False by (simp add: source_ok_def source_def)
    moreover have "upcoming r w m p row 0 (source\<lparr>s_consumed := c\<rparr>) = Done (map row [0..<unat w], c)" for row c
      using False by (simp add: upcoming_def source_def)
    moreover have "settle w 0 (source\<lparr>s_consumed := c\<rparr>) px row = row" for c px row using False by (simp add: settle_def source_def)
    ultimately show ?thesis
      unfolding src using False by (cases "prepared r w m p address address_a sw rs") auto
  next
    case True
    then have d: "\<not> hold_enabled st" "coding st \<noteq> CODING_OFF" "file_type st = FILE_RUN_LENGTH" "bits_per_pixel st \<noteq> BITS_DOUBLE_4"
      "unat wd * scale = unat w" by (auto simp: direct_def)
    have sc: "scale \<in> {1, 2}" "(scale = 2) = (wd \<le> 384)" by (simp_all add: scale_def)
    have ok: "source_ok w row 0 source" for row using True w d(5) sc(1) by (simp add: source_ok_def source_def)
    have orig: "(if wide_source st then w else sw) = wd" using d(3,4) by (simp add: wide_source_def wd_def)
    let ?rs = "rs(p := (\<lambda>i. if i < unat w then rs p i else 0))"
    have up: "upcoming r w m p row 0 source = bindo (rle_pixels (clut_lookup r p) (wd \<le> 384) m address (unat wd)) (\<lambda>(px, c). Done (px, of_nat c))" for row
      using True sc(2) by (simp add: upcoming_def source_def)
    have "prepared r w m p address address_a sw rs =
        bindo (upcoming r w m p (?rs p) 0 source) (\<lambda>(px, c). bindo (store_row p px (rs(p := (\<lambda>_. 0)))) (\<lambda>rs'. Done (rs', c)))"
      using d(1-4) unfolding up prepared_def decode_plane_def Let_def decode_run_length_def apply_pixel_hold_def
        st_def [symmetric] orig
      by (simp add: bindo_assoc case_prod_unfold)
    also have "\<dots> = bindo (upcoming r w m p (?rs p) 0 source) (\<lambda>(px, t). Done (?rs(p := settle w 0 source px (?rs p)), t))"
    proof (cases "upcoming r w m p (?rs p) 0 source")
      case (Done z)
      then obtain px t where z: "upcoming r w m p (?rs p) 0 source = Done (px, t)" by (cases z) simp
      have "length px = unat w" using upcoming_length [OF ok z] by simp
      then show ?thesis
        using True w unfolding z by (auto simp: store_row_def settle_def source_def fun_eq_iff)
    qed simp_all
    finally show ?thesis unfolding src using True ok by auto
  qed
qed

lemma source_rows:
  assumes "scanout_source r w m p address address_a sw rs = Done (s, rs')" "p = 1" "q \<noteq> p"
  shows "rs' q = rs q"
proof -
  have "prepared r w m p address address_a sw rs = Done (rs2, c) \<Longrightarrow> rs2 q = rs q" for rs2 c
    using prepared_frame [OF assms(2,3), of r w m address address_a sw rs "rs q"] by (auto simp: bindo_Done dest: fun_cong [of _ _ q])
  then show ?thesis
    using assms(1,3) unfolding scanout_source_def Let_def
    by (auto simp: prepared_def bindo_Done split: if_splits)
qed

lemma upcoming_outcome: "upcoming r w m p row x s = Aborted \<or> (\<exists>px t. upcoming r w m p row x s = Done (px, t))"
  using rle_outcome [of "clut_lookup r p" "s_scale s = 2" m "s_address s + ucast (s_consumed s)" "s_pixels s - s_produced s"]
  by (auto simp: upcoming_def)

section \<open>The job\<close>

lemma put_pixel_fused: "put_pixel i ra rb pv (v\<lparr>fused_jobs := n\<rparr>) = (put_pixel i ra rb pv v)\<lparr>fused_jobs := n\<rparr>"
  by (simp add: put_pixel_def Let_def)

lemma compose_fused: "compose_pixels base xs mt (v\<lparr>fused_jobs := n\<rparr>) = (compose_pixels base xs mt v)\<lparr>fused_jobs := n\<rparr>"
  by (induction xs arbitrary: mt v) (simp_all add: Let_def put_pixel_fused)

lemma cursor_fused: "place_cursor line base (v\<lparr>fused_jobs := n\<rparr>) = (place_cursor line base v)\<lparr>fused_jobs := n\<rparr>"
  by (simp add: place_cursor_def draw_cursor_def Let_def split: option.split)

lemma hold_then_decode:
  assumes "p = 1" "q \<noteq> p"
  shows "bindo (decode_plane r w m p ab aa wb rs) (\<lambda>(rs2, c). bindo (apply_pixel_hold r w q rs2) (\<lambda>rs3. F rs3 c)) = Done z \<longleftrightarrow>
    bindo (apply_pixel_hold r w q rs) (\<lambda>rs1. bindo (decode_plane r w m p ab aa wb rs1) (\<lambda>(rs3, c). F rs3 c)) = Done z"
proof (cases "hold_enabled (plane r ! q) \<and> hold_count (plane r ! q) = 0")
  case True
  then show ?thesis by (auto simp: apply_pixel_hold_def Let_def bindo_Done)
next
  case False
  define h where "h row = (if hold_enabled (plane r ! q) then hold_row (unat (hold_count (plane r ! q))) (unat w) 0 row else row)" for row
  have hold: "apply_pixel_hold r w q rs' = Done (rs'(q := h (rs' q)))" for rs'
    using False by (simp add: apply_pixel_hold_def Let_def h_def)
  have "rs2 q = rs q" if "decode_plane r w m p ab aa wb rs = Done (rs2, c)" for rs2 c
    using decode_frame [OF assms, of r w m ab aa wb rs "rs q"] that by (auto simp: bindo_Done dest: fun_cong [of _ _ q])
  then show ?thesis
    by (cases "decode_plane r w m p ab aa wb rs") (auto simp: hold decode_frame [OF assms])
qed

lemma reference_prepared:
  "draw_line_reference m aa ab line wa wb v = Done z \<longleftrightarrow>
   bindo (prepared (registers v) (width v) m 0 aa aa wa (decoded v)) (\<lambda>(rs1, ca).
     bindo (prepared (registers v) (width v) m 1 ab aa wb rs1) (\<lambda>(rs2, cb).
       Done (compose_line line (v\<lparr>decoded := rs2\<rparr>), if coding (plane (registers v) ! 1) = CODING_RGB555 then cb else ca, cb))) = Done z"
proof -
  let ?r = "registers v" and ?w = "width v"
  define F where "F rs3 ca cb = bindo (apply_pixel_hold ?r ?w 1 rs3) (\<lambda>rs4.
    Done (compose_line line (v\<lparr>decoded := rs4\<rparr>), if coding (plane ?r ! 1) = CODING_RGB555 then cb else ca, cb))" for rs3 and ca cb :: u16
  have eq1: "draw_line_reference m aa ab line wa wb v = bindo (decode_plane ?r ?w m 0 aa aa wa (decoded v)) (\<lambda>(rs1, ca).
      bindo (decode_plane ?r ?w m 1 ab aa wb rs1) (\<lambda>(rs2, cb). bindo (apply_pixel_hold ?r ?w 0 rs2) (\<lambda>rs3. F rs3 ca cb)))"
    by (simp add: draw_line_reference_def Let_def F_def)
  have eq2: "bindo (prepared ?r ?w m 0 aa aa wa (decoded v)) (\<lambda>(rs1, ca).
     bindo (prepared ?r ?w m 1 ab aa wb rs1) (\<lambda>(rs2, cb).
       Done (compose_line line (v\<lparr>decoded := rs2\<rparr>), if coding (plane ?r ! 1) = CODING_RGB555 then cb else ca, cb)))
    = bindo (decode_plane ?r ?w m 0 aa aa wa (decoded v)) (\<lambda>(rs1, ca). bindo (apply_pixel_hold ?r ?w 0 rs1) (\<lambda>rs2.
        bindo (decode_plane ?r ?w m 1 ab aa wb rs2) (\<lambda>(rs3, cb). F rs3 ca cb)))"
    by (simp add: prepared_def F_def bindo_assoc case_prod_unfold cong: if_cong)
  note eqs = eq1 eq2
  show ?thesis
  proof (cases "decode_plane ?r ?w m 0 aa aa wa (decoded v)")
    case (Done y)
    obtain rs1 ca where y: "decode_plane ?r ?w m 0 aa aa wa (decoded v) = Done (rs1, ca)" using Done by (cases y) simp
    show ?thesis
      using hold_then_decode [of 1 0 ?r ?w m ab aa wb rs1 "\<lambda>rs3 c. F rs3 ca c" z] eqs by (simp only: y bindo.simps prod.case)
  qed (use eqs in \<open>simp_all only: bindo.simps\<close>)
qed

lemma scanout_job_reference:
  assumes w: "unat (width v) \<le> row_capacity" and line: "line < height v"
  shows "(\<forall>v' used. draw_line_reference m aa ab line wa wb v = Done (v', used) \<longrightarrow>
      (\<exists>n. scanout_job m aa ab line wa wb v = Done (v'\<lparr>fused_jobs := n\<rparr>, used))) \<and>
    (\<forall>z. scanout_job m aa ab line wa wb v = Done z \<longrightarrow> (\<exists>z'. draw_line_reference m aa ab line wa wb v = Done z'))"
proof -
  let ?r = "registers v" and ?w = "width v" and ?base = "unat line * unat (width v)"
  let ?ref = "bindo (prepared ?r ?w m 0 aa aa wa (decoded v)) (\<lambda>(rs1, ca). bindo (prepared ?r ?w m 1 ab aa wb rs1) (\<lambda>(rs2, cb).
       Done (compose_line line (v\<lparr>decoded := rs2\<rparr>), if coding (plane ?r ! 1) = CODING_RGB555 then cb else ca, cb)))"
  have "(\<forall>v' used. ?ref = Done (v', used) \<longrightarrow> (\<exists>n. scanout_job m aa ab line wa wb v = Done (v'\<lparr>fused_jobs := n\<rparr>, used))) \<and>
    (\<forall>z. scanout_job m aa ab line wa wb v = Done z \<longrightarrow> (\<exists>z'. ?ref = Done z'))"
  proof (cases "\<exists>z. scanout_source ?r ?w m 0 aa aa wa (decoded v) = Done z")
    case True
    then obtain a rsa where a: "scanout_source ?r ?w m 0 aa aa wa (decoded v) = Done (a, rsa)" "\<forall>row. source_ok ?w row 0 a"
      "prepared ?r ?w m 0 aa aa wa (decoded v) = bindo (upcoming ?r ?w m 0 (rsa 0) 0 a) (\<lambda>(px, t). Done (rsa(0 := settle ?w 0 a px (rsa 0)), t))"
      using source_spec [OF w, of ?r m 0 aa aa wa "decoded v"] by auto
    have frame: "prepared ?r ?w m 1 ab aa wb (rsa(0 := f)) = bindo (prepared ?r ?w m 1 ab aa wb rsa) (\<lambda>(rs', c). Done (rs'(0 := f), c))" for f
      by (rule prepared_frame) simp_all
    show ?thesis
    proof (cases "\<exists>z. scanout_source ?r ?w m 1 ab aa wb rsa = Done z")
      case True
      then obtain b rsb where b: "scanout_source ?r ?w m 1 ab aa wb rsa = Done (b, rsb)" "\<forall>row. source_ok ?w row 0 b"
        "prepared ?r ?w m 1 ab aa wb rsa = bindo (upcoming ?r ?w m 1 (rsb 1) 0 b) (\<lambda>(px, t). Done (rsb(1 := settle ?w 0 b px (rsb 1)), t))"
        using source_spec [OF w, of ?r m 1 ab aa wb rsa] by auto
      have row0: "rsb 0 = rsa 0" using source_rows [OF b(1), of 0] by simp
      define n where "n = (if s_direct a \<or> s_direct b then fused_jobs v + 1 else fused_jobs v)"
      define u where "u = v\<lparr>decoded := rsb, fused_jobs := n\<rparr>"
      have u: "width u = ?w" "registers u = ?r" "decoded u = rsb" by (simp_all add: u_def)
      have job: "scanout_job m aa ab line wa wb v = bindo (scanout_loop (unat ?w) m ?base 0 a b (initialize_matte_state ?r) u)
          (\<lambda>(a', b', v'). Done (place_cursor line ?base v', if coding (plane ?r ! 1) = CODING_RGB555 then s_consumed b' else s_consumed a', s_consumed b'))"
        by (simp add: scanout_job_def Let_def a(1) b(1) [simplified] u_def n_def)
      have ok: "source_ok (width u) (decoded u 0) 0 a" "source_ok (width u) (decoded u 1) 0 b" using a(2) b(2) by (simp_all add: u)
      consider "upcoming ?r ?w m 0 (rsa 0) 0 a = Aborted \<or> upcoming ?r ?w m 1 (rsb 1) 0 b = Aborted"
        | pa ta pb tb where "upcoming ?r ?w m 0 (rsa 0) 0 a = Done (pa, ta)" "upcoming ?r ?w m 1 (rsb 1) 0 b = Done (pb, tb)"
        using upcoming_outcome [of ?r ?w m 0 "rsa 0" 0 a] upcoming_outcome [of ?r ?w m 1 "rsb 1" 0 b] by auto
      then show ?thesis
      proof cases
        case 1
        then have "scanout_loop (unat ?w) m ?base 0 a b (initialize_matte_state ?r) u \<noteq> Done z" for z
          by (intro loop_aborts [OF ok]) (simp only: u row0)
        then have "scanout_job m aa ab line wa wb v \<noteq> Done z" for z by (auto simp: job bindo_Done)
        moreover have "?ref \<noteq> Done z" for z using 1 by (auto simp: a(3) bindo_Done frame [simplified] b(3) [simplified])
        ultimately show ?thesis by blast
      next
        case 2
        define rs where "rs = settled ?w 0 a pa b pb rsb"
        have "(rsb(1 := settle ?w 0 b pb (rsb 1)))(0 := settle ?w 0 a pa (rsa 0)) = rs"
          by (simp add: rs_def settled_def row0 fun_upd_twist)
        then have ref: "?ref = Done (compose_line line (v\<lparr>decoded := rs\<rparr>), if coding (plane ?r ! 1) = CODING_RGB555 then tb else ta, tb)"
          by (simp only: a(3) 2 bindo.simps prod.case frame b(3))
        obtain a' b' where loop: "scanout_loop (unat ?w) m ?base 0 a b (initialize_matte_state ?r) u =
            Done (a', b', compose_pixels ?base [0..<unat ?w] (initialize_matte_state ?r) (u\<lparr>decoded := rs\<rparr>))" "s_consumed a' = ta" "s_consumed b' = tb"
          using loop_done [OF ok, of "unat ?w" m pa ta pb tb ?base "initialize_matte_state ?r"] 2 by (auto simp: u row0 rs_def)
        have "u\<lparr>decoded := rs\<rparr> = v\<lparr>decoded := rs, fused_jobs := n\<rparr>" by (simp add: u_def)
        then have "place_cursor line ?base (compose_pixels ?base [0..<unat ?w] (initialize_matte_state ?r) (u\<lparr>decoded := rs\<rparr>)) =
            (compose_line line (v\<lparr>decoded := rs\<rparr>))\<lparr>fused_jobs := n\<rparr>"
          using line by (simp add: compose_line_def Let_def compose_fused cursor_fused)
        then show ?thesis unfolding ref job loop(1) by (simp add: loop(2,3)) blast
      qed
    next
      case False
      then have "scanout_job m aa ab line wa wb v \<noteq> Done z" for z by (auto simp: scanout_job_def Let_def a(1) bindo_Done)
      moreover have "\<forall>z. prepared ?r ?w m 1 ab aa wb rsa \<noteq> Done z" using source_spec [OF w, of ?r m 1 ab aa wb rsa] False by auto
      ultimately show ?thesis by (auto simp: a(3) bindo_Done frame [simplified])
    qed
  next
    case False
    then have "scanout_job m aa ab line wa wb v \<noteq> Done z" for z by (auto simp: scanout_job_def Let_def bindo_Done)
    moreover have "\<forall>z. prepared ?r ?w m 0 aa aa wa (decoded v) \<noteq> Done z" using source_spec [OF w, of ?r m 0 aa aa wa "decoded v"] False by auto
    ultimately show ?thesis by (auto simp: bindo_Done)
  qed
  then show ?thesis by (simp only: reference_prepared)
qed

text \<open>
C2: The optimised scanout job draws the reference's line: for every register setting, memory and line of the frame it finishes
exactly when the reference does, with the same consumption of both planes and the same pipeline state (frame, snapshots,
verdicts, decoded rows) up to the counter of fused jobs.
\<close>
theorem scanout_matches_reference:
  assumes "unat (width v) \<le> row_capacity" "line < height v"
  shows "((\<exists>z. scanout_job m aa ab line wa wb v = Done z) \<longleftrightarrow> (\<exists>z. draw_line_reference m aa ab line wa wb v = Done z)) \<and>
    (\<forall>v1 used1 v2 used2. scanout_job m aa ab line wa wb v = Done (v1, used1) \<and> draw_line_reference m aa ab line wa wb v = Done (v2, used2) \<longrightarrow>
      used1 = used2 \<and> v1 = v2\<lparr>fused_jobs := fused_jobs v1\<rparr>)"
  using scanout_job_reference [OF assms, of m aa ab wa wb] by fastforce

definition demo_registers :: VideoRegisters where
  "demo_registers = blank_registers\<lparr>clut := (clut blank_registers)[5 := 0xFF112233],
     plane := [blank_plane\<lparr>coding := CODING_CLUT7, file_type := FILE_RUN_LENGTH, transparency := 8\<rparr>, blank_plane]\<rparr>"

definition demo_video :: VideoPipeline where
  "demo_video = mcd212_video_reset\<lparr>width := 4, height := 1, registers := demo_registers\<rparr>"

theorem scanout_matches_reference_witness:
  "\<exists>v. scanout_job (\<lambda>a. if a = 0 then 0x85 else 0, \<lambda>_. 0) 0 0x200000 0 2 2 demo_video = Done (v, 2, 0)"
proof -
  let ?m = "(\<lambda>a :: u32. if a = 0 then 0x85 else 0 :: u8, \<lambda>_ :: u32. 0 :: u8)"
  have "case draw_line_reference ?m 0 0x200000 0 2 2 demo_video of Done (_, used) \<Rightarrow> used = (2, 0) | _ \<Rightarrow> False" by code_simp
  then obtain v where v: "draw_line_reference ?m 0 0x200000 0 2 2 demo_video = Done (v, 2, 0)"
    by (auto split: outcome.splits)
  have "unat (width demo_video) \<le> row_capacity" "0 < height demo_video" by (simp_all add: demo_video_def)
  from scanout_matches_reference [OF this, of ?m 0 "0x200000" 2 2] v show ?thesis by fastforce
qed

end
