(* ===== verification/Mcd212_Line_Laws.thy ===== *)
theory Mcd212_Line_Laws
  imports Mcd212_Scanout_Laws
begin

unbundle bit_operations_syntax

text \<open>
  What a drawn line is as a function of its inputs, and which bytes of memory a decoder reads: the facts behind the reuse of
  completed lines.
\<close>

section \<open>A drawn line\<close>

definition matte_at :: "VideoRegisters \<Rightarrow> nat \<Rightarrow> MatteState" where
  "matte_at r x = fold (apply_matte_commands r) [0..<Suc x] (initialize_matte_state r)"

definition mixed_pixel :: "VideoRegisters \<Rightarrow> (nat \<Rightarrow> nat \<Rightarrow> u8) \<Rightarrow> rows \<Rightarrow> nat \<Rightarrow> u32 \<times> u8" where
  "mixed_pixel r lut rs x = compose_pixel r lut (matte_at r x) (rs 0 x) (rs 1 x)"

text \<open>\<open>xs\<close> over the pixels \<open>base\<close> to \<open>base + n\<close> of an array.\<close>

definition overlay :: "nat \<Rightarrow> nat \<Rightarrow> (nat \<Rightarrow> 'a) \<Rightarrow> (nat \<Rightarrow> 'a) \<Rightarrow> nat \<Rightarrow> 'a" where
  "overlay base n xs f = (\<lambda>i. if base \<le> i \<and> i < base + n then xs (i - base) else f i)"

lemma overlay_Suc: "overlay base (Suc n) xs f = (overlay base n xs f)(base + n := xs n)"
  by (auto simp: overlay_def fun_eq_iff)

lemma overlay_0 [simp]: "overlay base 0 xs f = f"
  by (auto simp: overlay_def fun_eq_iff)

definition paint_frame :: "nat \<Rightarrow> nat \<Rightarrow> (nat \<Rightarrow> u32) \<Rightarrow> VideoPipeline \<Rightarrow> nat \<Rightarrow> nat \<Rightarrow> u32" where
  "paint_frame base n px v = (frame v)(drawing_buffer v := overlay base n px (frame v (drawing_buffer v)))"

definition paint_planes :: "nat \<Rightarrow> nat \<Rightarrow> rows \<Rightarrow> VideoPipeline \<Rightarrow> nat \<Rightarrow> nat \<Rightarrow> u32" where
  "paint_planes base n rs v = (plane_frame v)(0 := overlay base n (\<lambda>x. rs 0 x OR 0xFF000000) (plane_frame v 0),
     1 := overlay base n (\<lambda>x. rs 1 x OR 0xFF000000) (plane_frame v 1))"

lemma compose_pixels_painted:
  "compose_pixels base [0..<n] (initialize_matte_state (registers v)) v =
     v\<lparr>frame := paint_frame base n (fst \<circ> mixed_pixel (registers v) (contribution_lut v) (decoded v)) v,
       plane_frame := paint_planes base n (decoded v) v,
       verdict_frame := overlay base n (snd \<circ> mixed_pixel (registers v) (contribution_lut v) (decoded v)) (verdict_frame v)\<rparr>"
proof (induction n)
  case 0
  show ?case by (simp add: paint_frame_def paint_planes_def)
next
  case (Suc n)
  define u where "u = compose_pixels base [0..<n] (initialize_matte_state (registers v)) v"
  have "fold (apply_matte_commands (registers v)) [0..<n] (initialize_matte_state (registers v)) = mt \<Longrightarrow>
      apply_matte_commands (registers v) n mt = matte_at (registers v) n" for mt
    by (auto simp: matte_at_def)
  then have "compose_pixels base [0..<Suc n] (initialize_matte_state (registers v)) v =
      put_pixel (base + n) (decoded v 0 n) (decoded v 1 n) (mixed_pixel (registers v) (contribution_lut v) (decoded v) n) u"
    by (simp add: compose_pixels_append u_def Let_def mixed_pixel_def)
  also have "\<dots> = v\<lparr>frame := paint_frame base (Suc n) (fst \<circ> mixed_pixel (registers v) (contribution_lut v) (decoded v)) v,
       plane_frame := paint_planes base (Suc n) (decoded v) v,
       verdict_frame := overlay base (Suc n) (snd \<circ> mixed_pixel (registers v) (contribution_lut v) (decoded v)) (verdict_frame v)\<rparr>"
    unfolding u_def Suc.IH by (simp add: put_pixel_def Let_def paint_frame_def paint_planes_def overlay_Suc fun_upd_twist)
  finally show ?case .
qed

text \<open>The cursor over a line.\<close>

definition cursor_over :: "CursorSetup \<Rightarrow> u64 \<Rightarrow> u16 \<Rightarrow> nat \<Rightarrow> (nat \<Rightarrow> u32) \<Rightarrow> nat \<Rightarrow> u32" where
  "cursor_over c field line w px x =
     (if cursor_visible c line \<and> x \<in> set (cursor_dots c line w) then (case cursor_shade c field of None \<Rightarrow> px x | Some color \<Rightarrow> color) else px x)"

lemma fold_dots: "fold (\<lambda>x px. px(base + x := color)) xs px = (\<lambda>i. if base \<le> i \<and> i - base \<in> set xs then color else px i)" for base :: nat
  by (induction xs arbitrary: px) (auto simp: fun_eq_iff)

lemma dots_inside: "x \<in> set (cursor_dots c line w) \<Longrightarrow> x < w"
  by (auto simp: cursor_dots_def Let_def split: if_splits)

lemma draw_cursor_overlay:
  assumes "n = unat (width v)"
  shows "draw_cursor v line base (overlay base n px f) = overlay base n (cursor_over (cursor (registers v)) (generation v) line n px) f"
proof (cases "cursor_visible (cursor (registers v)) line \<and> cursor_shade (cursor (registers v)) (generation v) \<noteq> None")
  case True
  then show ?thesis
    by (auto simp: draw_cursor_def Let_def fold_dots overlay_def cursor_over_def fun_eq_iff assms [symmetric] dest: dots_inside)
next
  case False
  then show ?thesis by (auto simp: draw_cursor_def Let_def overlay_def cursor_over_def fun_eq_iff split: option.splits)
qed

definition line_pixel :: "VideoRegisters \<Rightarrow> (nat \<Rightarrow> nat \<Rightarrow> u8) \<Rightarrow> u64 \<Rightarrow> u16 \<Rightarrow> nat \<Rightarrow> rows \<Rightarrow> nat \<Rightarrow> u32" where
  "line_pixel r lut field line w rs = cursor_over (cursor r) field line w (fst \<circ> mixed_pixel r lut rs)"

definition painted :: "u16 \<Rightarrow> rows \<Rightarrow> VideoPipeline \<Rightarrow> VideoPipeline" where
  "painted line rs v =
     (let n = unat (width v); base = unat line * n; r = registers v
      in v\<lparr>decoded := rs, frame := paint_frame base n (line_pixel r (contribution_lut v) (generation v) line n rs) v,
           plane_frame := paint_planes base n rs v,
           verdict_frame := overlay base n (snd \<circ> mixed_pixel r (contribution_lut v) rs) (verdict_frame v)\<rparr>)"

lemma compose_line_painted: "line < height v \<Longrightarrow> compose_line line (v\<lparr>decoded := rs\<rparr>) = painted line rs v"
proof -
  assume "line < height v"
  then have "compose_line line (v\<lparr>decoded := rs\<rparr>) = place_cursor line (unat line * unat (width v))
      (compose_pixels (unat line * unat (width v)) [0..<unat (width v)] (initialize_matte_state (registers (v\<lparr>decoded := rs\<rparr>))) (v\<lparr>decoded := rs\<rparr>))"
    by (simp add: compose_line_def Let_def)
  also have "\<dots> = painted line rs v"
    unfolding compose_pixels_painted
    by (simp add: place_cursor_def painted_def Let_def paint_frame_def paint_planes_def draw_cursor_overlay line_pixel_def)
  finally show ?thesis .
qed

section \<open>The bytes a decoder reads\<close>

definition agree :: "dram \<Rightarrow> dram \<Rightarrow> u32 \<Rightarrow> nat \<Rightarrow> bool" where
  "agree m m' a n \<longleftrightarrow> (\<forall>i<n. dram_byte m' (a + of_nat i) = dram_byte m (a + of_nat i))"

lemma agree_add: "agree m m' a (i + j) \<longleftrightarrow> agree m m' a i \<and> agree m m' (a + of_nat i) j"
proof
  assume *: "agree m m' a (i + j)"
  have "dram_byte m' (a + of_nat i + of_nat k) = dram_byte m (a + of_nat i + of_nat k)" if "k < j" for k
    using *[unfolded agree_def, rule_format, of "i + k"] that by (simp add: add.assoc)
  then show "agree m m' a i \<and> agree m m' (a + of_nat i) j" using * by (simp add: agree_def)
next
  assume *: "agree m m' a i \<and> agree m m' (a + of_nat i) j"
  have "dram_byte m' (a + of_nat k) = dram_byte m (a + of_nat k)" if k: "k < i + j" for k
  proof (cases "k < i")
    case False
    have "dram_byte m' (a + of_nat i + of_nat (k - i)) = dram_byte m (a + of_nat i + of_nat (k - i))"
      using *[THEN conjunct2, unfolded agree_def, rule_format, of "k - i"] k False by simp
    moreover have "a + of_nat i + of_nat (k - i) = a + of_nat k" using False by (simp add: of_nat_diff)
    ultimately show ?thesis by simp
  qed (use * in \<open>simp add: agree_def\<close>)
  then show "agree m m' a (i + j)" by (simp add: agree_def)
qed

lemma agree_Suc: "agree m m' a (Suc n) \<longleftrightarrow> dram_byte m' a = dram_byte m a \<and> agree m m' (a + 1) n"
  using agree_add [of m m' a 1 n] by (simp add: agree_def)

lemma clut4_local: "agree m m' a ((n + 1) div 2) \<Longrightarrow> clut4_pixels look m' a n = clut4_pixels look m a n"
  by (induction look m a n rule: clut4_pixels.induct) (simp_all add: agree_Suc)

lemma clut_local: "agree m m' a n \<Longrightarrow> clut_pixels look msk d m' a n = clut_pixels look msk d m a n"
  by (induction n arbitrary: a) (simp_all add: agree_Suc)

lemma rgb555_local: "agree m m' a n \<Longrightarrow> agree m m' b n \<Longrightarrow> rgb555_pixels m' a b n = rgb555_pixels m a b n"
  by (induction n arbitrary: a b) (simp_all add: agree_Suc)

lemma dyuv_local: "agree m m' a ((n + 1) div 2 * 2) \<Longrightarrow> dyuv_pixels d m' a c n = dyuv_pixels d m a c n"
proof (induction n arbitrary: a c rule: less_induct)
  case (less n)
  obtain y u v where c: "c = (y, u, v)" by (cases c)
  show ?case
  proof (cases n)
    case (Suc k)
    have "(n + 1) div 2 * 2 = Suc (Suc ((k - 1 + 1) div 2 * 2))" using Suc by (cases k) simp_all
    then have ag: "dram_byte m' a = dram_byte m a" "dram_byte m' (a + 1) = dram_byte m (a + 1)" "agree m m' (a + 2) ((k - 1 + 1) div 2 * 2)"
      using less.prems by (simp_all only: agree_Suc) (simp_all add: add.assoc)
    show ?thesis
      using less.IH [OF _ ag(3)] Suc by (simp only: c Suc dyuv_pixels.simps ag(1,2))
  qed (simp add: c)
qed

lemma rle_command_local:
  "rle_command m a = Done (format, n, used) \<Longrightarrow> agree m m' a used \<Longrightarrow> rle_command m' a = Done (format, n, used)"
  by (auto simp: rle_command_def bindo_Done agree_Suc numeral_2_eq_2 split: if_splits)

text \<open>A finished run-length line, run by run.\<close>

lemma rle_pixels_induct [consumes 1, case_names Empty Run]:
  assumes "rle_pixels look d m a n = Done (px, c)"
    and "\<And>a. P a 0 [] 0"
    and "\<And>a n format reps used k px c. 0 < n \<Longrightarrow> rle_command m a = Done (format, reps, used) \<Longrightarrow> k = (if reps = 0 then n else min reps n) \<Longrightarrow>
      P (a + of_nat used) (n - k) px c \<Longrightarrow> P a n (concat (replicate k (doubled d (look (unat (format AND 0x7F))))) @ px) (used + c)"
  shows "P a n px c"
  using assms(1)
proof (induction n arbitrary: a px c rule: less_induct)
  case (less n)
  show ?case
  proof (cases "n = 0")
    case True
    then show ?thesis using less.prems assms(2) by (simp add: rle_pixels.simps)
  next
    case False
    obtain format reps used where cmd: "rle_command m a = Done (format, reps, used)"
      using less.prems False rle_command_facts(2) [of m a] by (auto simp: rle_pixels.simps [of _ _ _ a n])
    define k where "k = (if reps = 0 then n else min reps n)"
    have "rle_pixels look d m a n = bindo (rle_pixels look d m (a + of_nat used) (n - k))
        (\<lambda>(px, c). Done (concat (replicate k (doubled d (look (unat (format AND 0x7F))))) @ px, used + c))"
      using False by (subst rle_pixels.simps) (simp add: cmd Let_def k_def)
    then obtain px' c' where rest: "rle_pixels look d m (a + of_nat used) (n - k) = Done (px', c')"
      "px = concat (replicate k (doubled d (look (unat (format AND 0x7F))))) @ px'" "c = used + c'"
      using less.prems by (auto simp: bindo_Done)
    have "0 < k" using False by (simp add: k_def)
    then show ?thesis
      unfolding rest(2,3) using False less.IH [OF _ rest(1)] by (intro assms(3) [OF _ cmd k_def]) simp_all
  qed
qed

lemma rle_pairs_induct [consumes 1, case_names Empty Run]:
  assumes "rle_pairs look m a n = Done (px, c)"
    and "\<And>a. P a 0 [] 0"
    and "\<And>a n format reps used k px c. 2 \<le> n \<Longrightarrow> rle_command m a = Done (format, reps, used) \<Longrightarrow>
      k = (if reps = 0 then n div 2 else min reps (n div 2)) \<Longrightarrow> P (a + of_nat used) (n - 2 * k) px c \<Longrightarrow>
      P a n (concat (replicate k [look (unat (drop_bit 4 format AND 7)), look (unat (format AND 7))]) @ px) (used + c)"
  shows "P a n px c"
  using assms(1)
proof (induction n arbitrary: a px c rule: less_induct)
  case (less n)
  show ?case
  proof (cases "n < 2")
    case True
    then show ?thesis using less.prems assms(2) by (cases n) (auto simp: rle_pairs.simps)
  next
    case False
    then have n: "n \<noteq> 0" "n \<noteq> 1" by simp_all
    obtain format reps used where cmd: "rle_command m a = Done (format, reps, used)"
      using less.prems n rle_command_facts(2) [of m a] by (auto simp: rle_pairs.simps [of _ _ a n])
    define k where "k = (if reps = 0 then n div 2 else min reps (n div 2))"
    have "rle_pairs look m a n = bindo (rle_pairs look m (a + of_nat used) (n - 2 * k))
        (\<lambda>(px, c). Done (concat (replicate k [look (unat (drop_bit 4 format AND 7)), look (unat (format AND 7))]) @ px, used + c))"
      using n by (subst rle_pairs.simps) (simp add: cmd Let_def k_def)
    then obtain px' c' where rest: "rle_pairs look m (a + of_nat used) (n - 2 * k) = Done (px', c')"
      "px = concat (replicate k [look (unat (drop_bit 4 format AND 7)), look (unat (format AND 7))]) @ px'" "c = used + c'"
      using less.prems by (auto simp: bindo_Done)
    have "0 < k" using False by (simp add: k_def)
    then show ?thesis
      unfolding rest(2,3) using False less.IH [OF _ rest(1)] by (intro assms(3) [OF _ cmd k_def]) simp_all
  qed
qed

lemma rle_pixels_local:
  "rle_pixels look d m a n = Done (px, c) \<Longrightarrow> agree m m' a c \<Longrightarrow> rle_pixels look d m' a n = Done (px, c)"
proof (induction rule: rle_pixels_induct)
  case (Run a n format reps used k px c)
  have "agree m m' a used" "agree m m' (a + of_nat used) c" using Run(5) unfolding agree_add by blast+
  then have "rle_command m' a = Done (format, reps, used)" "rle_pixels look d m' (a + of_nat used) (n - k) = Done (px, c)"
    using rle_command_local [OF Run(2)] Run(4) by blast+
  then show ?case using Run(1) by (subst rle_pixels.simps) (simp add: Let_def flip: Run(3))
qed (simp add: rle_pixels.simps [of _ _ _ _ 0])

lemma rle_pairs_local:
  "rle_pairs look m a n = Done (px, c) \<Longrightarrow> agree m m' a c \<Longrightarrow> rle_pairs look m' a n = Done (px, c)"
proof (induction rule: rle_pairs_induct)
  case (Run a n format reps used k px c)
  have "agree m m' a used" "agree m m' (a + of_nat used) c" using Run(5) unfolding agree_add by blast+
  then have "rle_command m' a = Done (format, reps, used)" "rle_pairs look m' (a + of_nat used) (n - 2 * k) = Done (px, c)"
    using rle_command_local [OF Run(2)] Run(4) by blast+
  then show ?case using Run(1) by (subst rle_pairs.simps) (simp add: Let_def flip: Run(3))
qed (simp add: rle_pairs.simps [of _ _ _ 0])

lemma rle_pixels_bound: "rle_pixels look d m a n = Done (px, c) \<Longrightarrow> n \<le> length px \<and> c \<le> 2 * length px"
proof (induction rule: rle_pixels_induct)
  case (Run a n format reps used k px c)
  have "length (concat (replicate k (doubled d (look (unat (format AND 127)))))) \<ge> k" by (induction k) (auto simp: doubled_def)
  then show ?case using Run rle_command_facts(1) [OF Run(2)] by (cases "reps = 0") auto
qed simp

lemma rle_pairs_bound: "rle_pairs look m a n = Done (px, c) \<Longrightarrow> n \<le> length px \<and> c \<le> 2 * length px"
proof (induction rule: rle_pairs_induct)
  case (Run a n format reps used k px c)
  have "length (concat (replicate k [x, y])) = 2 * k" for x y :: u32 by (induction k) auto
  moreover have "0 < k" using Run(1,3) by simp
  ultimately show ?case using Run(4) rle_command_facts(1) [OF Run(2)] by auto
qed simp

lemma dyuv_length: "dyuv_pixels d m a c n = Done px \<Longrightarrow> n \<le> length px"
proof (induction n arbitrary: a c px rule: less_induct)
  case (less n)
  obtain y u v where c: "c = (y, u, v)" by (cases c)
  show ?case
  proof (cases n)
    case (Suc k)
    then obtain px' a' c' where "dyuv_pixels d m a' c' (k - 1) = Done px'" "length px \<ge> (if k = 0 then 1 else 2) + length px'"
      using less.prems by (fastforce simp: c bindo_Done Let_def doubled_def split: if_splits)
    then show ?thesis using less.IH [of "k - 1" a' c' px'] Suc by (cases k) auto
  qed simp
qed

lemma decode_run_length_local:
  assumes "decode_run_length r m p a n = Done (px, c)" "length px \<le> row_capacity" "agree m m' a (unat c)"
  shows "decode_run_length r m' p a n = Done (px, c)"
proof (cases "bits_per_pixel (plane r ! p) = BITS_DOUBLE_4")
  case True
  then obtain k where k: "rle_pairs (clut_lookup r p) m a (unat n) = Done (px, k)" "c = of_nat k"
    using assms(1) by (auto simp: decode_run_length_def bindo_Done)
  then have "unat c = k" using rle_pairs_bound [OF k(1)] assms(2) by (simp add: unat_of_nat)
  then show ?thesis using rle_pairs_local [OF k(1)] assms(3) True k(2) by (simp add: decode_run_length_def)
next
  case False
  then obtain k where k: "rle_pixels (clut_lookup r p) (n \<le> 384) m a (unat n) = Done (px, k)" "c = of_nat k"
    using assms(1) by (auto simp: decode_run_length_def bindo_Done)
  then have "unat c = k" using rle_pixels_bound [OF k(1)] assms(2) by (simp add: unat_of_nat)
  then show ?thesis using rle_pixels_local [OF k(1)] assms(3) False k(2) by (simp add: decode_run_length_def)
qed

lemma decode_dyuv_local:
  assumes "decode_dyuv r m p a n d = Done (px, c)" "length px \<le> row_capacity" "agree m m' a (unat c)"
  shows "decode_dyuv r m' p a n d = Done (px, c)"
proof -
  have px: "dyuv_pixels d m a (let i = dyuv_initial (plane r ! p) in (ucast (drop_bit 16 i), ucast (drop_bit 8 i), ucast i)) (unat n) = Done px"
      "c = of_nat ((unat n + 1) div 2 * 2)"
    using assms(1) by (auto simp: decode_dyuv_def Let_def bindo_Done)
  have "(unat n + 1) div 2 * 2 < 65536" using dyuv_length [OF px(1)] assms(2) by simp
  then have "unat c = (unat n + 1) div 2 * 2" unfolding px(2) unat_of_nat by simp
  then show ?thesis using dyuv_local [of m m' a "unat n"] assms(1,3) by (simp add: decode_dyuv_def Let_def)
qed

lemma decode_clut_local:
  assumes "decode_clut r m p a n d = Done (px, c)" "agree m m' a (unat c)"
  shows "decode_clut r m' p a n d = Done (px, c)"
proof -
  have "coding (plane r ! p) = CODING_CLUT4 \<Longrightarrow> unat c = (unat n + 1) div 2"
    using assms(1) u16_less [of n] by (auto simp: decode_clut_def Let_def bindo_Done unat_of_nat)
  then show ?thesis
    using assms clut4_local [of m m' a "unat n"] clut_local [of m m' a "unat n"] by (auto simp: decode_clut_def Let_def bindo_Done)
qed

lemma decode_rgb555_local:
  assumes "decode_rgb555 m a a n = Done (px, c)" "agree m m' a (unat c)"
  shows "decode_rgb555 m' a a n = Done (px, c)"
  using assms rgb555_local [of m m' a "unat n" a] by (auto simp: decode_rgb555_def bindo_Done)

lemma decode_local:
  assumes "decode_plane r w m p a aa sw rs = Done (rs', c)" "agree m m' a (unat c)" "coding (plane r ! p) = CODING_RGB555 \<longrightarrow> aa = a"
  shows "decode_plane r w m' p a aa sw rs = Done (rs', c)"
proof -
  have store: "store_row q px rs1 = Done rs2 \<Longrightarrow> length px \<le> row_capacity" for q px rs1 rs2 by (simp add: store_row_def split: if_splits)
  show ?thesis
    using assms unfolding decode_plane_def Let_def
    by (auto simp: bindo_Done split: if_splits dest: store
        decode_run_length_local [OF _ store] decode_dyuv_local [OF _ store] decode_clut_local decode_rgb555_local)
qed

lemma line_source_agree:
  assumes "line_source m a c = Some bs" "line_source m' a c = Some bs"
  shows "agree m m' a (unat c)"
proof -
  let ?n = "unat c"
  have "dram_byte m' (a + of_nat i) = dram_byte m (a + of_nat i)" if i: "i < ?n" for i
  proof -
    have n: "?n \<noteq> 0" "?n \<le> 1536" using assms(1) i by (auto simp: line_source_def Let_def split: if_splits)
    consider "a < 0x80000" "?n \<le> 0x80000 - unat a" | "\<not> (a < 0x80000 \<and> ?n \<le> 0x80000 - unat a)" "a \<ge> 0x200000" "a - 0x200000 < 0x80000" "?n \<le> 0x80000 - unat (a - 0x200000)"
      using assms(1) n(1) by (auto simp: line_source_def Let_def split: if_splits)
    then show ?thesis
    proof cases
      case 1
      then have "unat (a + of_nat i) < 0x80000" using i by (simp add: word_less_nat_alt unat_word_ariths unat_of_nat)
      moreover have "map (\<lambda>i. fst m (a + of_nat i)) [0..<?n] = map (\<lambda>i. fst m' (a + of_nat i)) [0..<?n]"
        using assms 1 n by (simp add: line_source_def Let_def)
      ultimately show ?thesis using i by (simp add: dram_byte_def word_less_nat_alt)
    next
      case 2
      have "map (\<lambda>i. snd m (a - 0x200000 + of_nat i)) [0..<?n] = map (\<lambda>i. snd m' (a - 0x200000 + of_nat i)) [0..<?n]"
        using assms 2 n by (simp add: line_source_def Let_def)
      then have "snd m (a - 0x200000 + of_nat i) = snd m' (a - 0x200000 + of_nat i)" using i by simp
      moreover have "\<not> a + of_nat i < 0x80000"
      proof -
        have "unat a = unat (a - 0x200000) + 0x200000" using 2(2) by (simp add: unat_sub word_le_nat_alt)
        then have "unat (a + of_nat i) = unat a + i" using 2(3,4) i by (simp add: word_less_nat_alt unat_word_ariths unat_of_nat)
        then show ?thesis using 2(2) by (simp add: word_less_nat_alt word_le_nat_alt)
      qed
      ultimately show ?thesis by (simp add: dram_byte_def algebra_simps)
    qed
  qed
  then show ?thesis by (simp add: agree_def)
qed

end
