(* ===== verification/Mcd212_Video_Laws.thy ===== *)
theory Mcd212_Video_Laws
  imports Mcd212_Line_Laws
begin

unbundle bit_operations_syntax

text \<open>
  The optimised video backend refines the reference: for every sequence of control words, frame starts, drawn lines and
  publications both deliver the same consumption, frames and snapshots.
\<close>

section \<open>Sequences of operations\<close>

datatype video_op =
    Control nat u32
  | Begin_Frame u16 u16 bool
  | Draw_Line dram u32 u32 u16 u16 u16
  | End_Frame

fun video_step :: "bool \<Rightarrow> video_op \<Rightarrow> VideoPipeline \<Rightarrow> (VideoPipeline \<times> u16 \<times> u16) outcome" where
  "video_step hle (Control p ins) v = bindo (mcd212_video_control p ins v) (\<lambda>v'. Done (v', 0, 0))"
| "video_step hle (Begin_Frame w h i) v = bindo (mcd212_video_begin_frame hle w h i v) (\<lambda>v'. Done (v', 0, 0))"
| "video_step hle (Draw_Line m a b line wa wb) v = mcd212_video_draw_line hle m a b line wa wb v"
| "video_step hle End_Frame v = Done (mcd212_video_end_frame hle v, 0, 0)"

fun video_run :: "bool \<Rightarrow> video_op list \<Rightarrow> VideoPipeline \<Rightarrow> (VideoPipeline \<times> (u16 \<times> u16) list) outcome" where
  "video_run hle [] v = Done (v, [])"
| "video_run hle (op # ops) v =
     bindo (video_step hle op v) (\<lambda>(v', used). bindo (video_run hle ops v') (\<lambda>(v'', us). Done (v'', used # us)))"

text \<open>
  The display engine changes the geometry only while what was drawn since the last publication lies inside the new frame:
  \<open>d\<close> is the number of pixels up to the last line drawn, \<open>w\<close> and \<open>h\<close> the geometry.
\<close>

type_synonym progress = "nat \<times> nat \<times> nat"

fun fits_frame :: "progress \<Rightarrow> video_op \<Rightarrow> bool" where
  "fits_frame (d, w, h) (Begin_Frame bw bh i) \<longleftrightarrow> d \<le> 2 * unat bw * (if i then 2 * unat bh else unat bh)"
| "fits_frame g op \<longleftrightarrow> True"

fun progress_after :: "progress \<Rightarrow> video_op \<Rightarrow> progress" where
  "progress_after (d, w, h) (Control p ins) = (d, w, h)"
| "progress_after (d, w, h) (Begin_Frame bw bh i) = (d, 2 * unat bw, if i then 2 * unat bh else unat bh)"
| "progress_after (d, w, h) (Draw_Line m a b line wa wb) = (if unat line < h then max d (Suc (unat line) * w) else d, w, h)"
| "progress_after (d, w, h) End_Frame = (0, w, h)"

fun within_frame :: "progress \<Rightarrow> video_op list \<Rightarrow> bool" where
  "within_frame g [] \<longleftrightarrow> True"
| "within_frame g (op # ops) \<longleftrightarrow> fits_frame g op \<and> within_frame (progress_after g op) ops"

text \<open>What both backends share: everything but the job counters, the line store and the content identity.\<close>

definition visible :: "VideoPipeline \<Rightarrow> VideoPipeline" where
  "visible v = v\<lparr>published_hash := 0, content_generation := 0, fused_jobs := 0, reused_jobs := 0, completed_lines := (\<lambda>_. blank_line)\<rparr>"

lemma visible_sel [simp]:
  "registers (visible v) = registers v" "decoded (visible v) = decoded v" "contribution_lut (visible v) = contribution_lut v"
  "frame (visible v) = frame v" "plane_frame (visible v) = plane_frame v" "verdict_frame (visible v) = verdict_frame v"
  "width (visible v) = width v" "height (visible v) = height v" "published_width (visible v) = published_width v"
  "published_height (visible v) = published_height v" "drawing_buffer (visible v) = drawing_buffer v"
  "published_buffer (visible v) = published_buffer v" "generation (visible v) = generation v"
  "publish_sequence (visible v) = publish_sequence v" "scanout_jobs (visible v) = scanout_jobs v"
  by (simp_all add: visible_def)

lemma visible_eq_iff:
  "visible u = visible v \<longleftrightarrow>
     registers u = registers v \<and> decoded u = decoded v \<and> contribution_lut u = contribution_lut v \<and> frame u = frame v \<and>
     plane_frame u = plane_frame v \<and> verdict_frame u = verdict_frame v \<and> width u = width v \<and> height u = height v \<and>
     published_width u = published_width v \<and> published_height u = published_height v \<and> drawing_buffer u = drawing_buffer v \<and>
     published_buffer u = published_buffer v \<and> generation u = generation v \<and> publish_sequence u = publish_sequence v \<and>
     scanout_jobs u = scanout_jobs v"
  by (cases u, cases v) (auto simp: visible_def)

section \<open>Rows of a line\<close>

definition draw_rows :: "VideoRegisters \<Rightarrow> u16 \<Rightarrow> dram \<Rightarrow> u32 \<Rightarrow> u32 \<Rightarrow> u16 \<Rightarrow> u16 \<Rightarrow> rows \<Rightarrow> (rows \<times> u16 \<times> u16) outcome" where
  "draw_rows r w m aa ab wa wb rs =
     bindo (prepared r w m 0 aa aa wa rs) (\<lambda>(rs1, ca). bindo (prepared r w m 1 ab aa wb rs1) (\<lambda>(rs2, cb). Done (rs2, ca, cb)))"

lemma reference_rows:
  "draw_line_reference m aa ab line wa wb v = Done z \<longleftrightarrow>
     (\<exists>rs ca cb. draw_rows (registers v) (width v) m aa ab wa wb (decoded v) = Done (rs, ca, cb) \<and>
       z = (compose_line line (v\<lparr>decoded := rs\<rparr>), if coding (plane (registers v) ! 1) = CODING_RGB555 then cb else ca, cb))"
  unfolding reference_prepared draw_rows_def by (auto simp: bindo_Done)

text \<open>With the memory, the registers and the widths given, a plane's row does not depend on the rows before.\<close>

abbreviation no_rows :: rows where
  "no_rows \<equiv> (\<lambda>_ _. 0)"

lemma decode_row:
  assumes "coding (plane r ! p) \<noteq> CODING_RGB555"
  shows "decode_plane r w m p a aa sw rs = bindo (decode_plane r w m p a aa sw no_rows) (\<lambda>(d, c). Done (rs(p := d p), c))"
proof -
  have "store_row p px (rs(p := (\<lambda>_. 0))) = bindo (store_row p px (no_rows(p := (\<lambda>_. 0)))) (\<lambda>d. Done (rs(p := d p)))" for px
    by (auto simp: store_row_def fun_eq_iff)
  then show ?thesis
    unfolding decode_plane_def Let_def by (simp add: assms bindo_assoc case_prod_unfold)
qed

lemma hold_row_only: "apply_pixel_hold r w p rs = bindo (apply_pixel_hold r w p (no_rows(p := rs p))) (\<lambda>d. Done (rs(p := d p)))"
  by (simp add: apply_pixel_hold_def Let_def)

lemma decode_row_other: "coding (plane r ! p) \<noteq> CODING_RGB555 \<Longrightarrow> decode_plane r w m p a aa sw no_rows = Done (d, c) \<Longrightarrow> no_rows(p := d p) = d"
  using decode_row [of r p w m a aa sw no_rows] by auto

lemma prepared_row:
  assumes "coding (plane r ! p) \<noteq> CODING_RGB555"
  shows "prepared r w m p a aa sw rs = bindo (prepared r w m p a aa sw no_rows) (\<lambda>(d, c). Done (rs(p := d p), c))"
proof (cases "decode_plane r w m p a aa sw no_rows")
  case (Done z)
  then obtain d c where d: "decode_plane r w m p a aa sw no_rows = Done (d, c)" by (cases z) simp
  have "prepared r w m p a aa sw rs = bindo (apply_pixel_hold r w p (rs(p := d p))) (\<lambda>rs2. Done (rs2, c))"
    unfolding prepared_def by (subst decode_row [OF assms]) (simp add: d)
  also have "\<dots> = bindo (apply_pixel_hold r w p d) (\<lambda>h. Done (rs(p := h p), c))"
    by (subst (1) hold_row_only) (simp add: bindo_assoc decode_row_other [OF assms d])
  finally show ?thesis by (simp add: prepared_def d bindo_assoc)
qed (use decode_row [OF assms, of w m a aa sw rs] in \<open>simp_all add: prepared_def\<close>)

definition fresh_rows :: "VideoRegisters \<Rightarrow> u16 \<Rightarrow> dram \<Rightarrow> u32 \<Rightarrow> u32 \<Rightarrow> u16 \<Rightarrow> u16 \<Rightarrow> (rows \<times> u16 \<times> u16) outcome" where
  "fresh_rows r w m aa ab wa wb = draw_rows r w m aa ab wa wb no_rows"

definition separate :: "VideoRegisters \<Rightarrow> bool" where
  "separate r \<longleftrightarrow> coding (plane r ! 0) \<noteq> CODING_RGB555 \<and> coding (plane r ! 1) \<noteq> CODING_RGB555"

lemma draw_rows_fresh:
  assumes "separate r"
  shows "draw_rows r w m aa ab wa wb rs = bindo (fresh_rows r w m aa ab wa wb) (\<lambda>(d, u). Done (rs(0 := d 0, 1 := d 1), u))"
proof -
  have c: "coding (plane r ! 0) \<noteq> CODING_RGB555" "coding (plane r ! 1) \<noteq> CODING_RGB555" using assms by (simp_all add: separate_def)
  have "draw_rows r w m aa ab wa wb rs = bindo (prepared r w m 0 aa aa wa no_rows) (\<lambda>(d, ca).
      bindo (prepared r w m 1 ab aa wb no_rows) (\<lambda>(e, cb). Done (rs(0 := d 0, 1 := e 1), ca, cb)))" for rs
    unfolding draw_rows_def prepared_row [OF c(1), of w m aa aa wa rs]
    by (simp only: bindo_assoc case_prod_unfold bindo.simps fst_conv snd_conv prepared_row [OF c(2), of w m ab aa wb "rs(0 := _)"])
  then show ?thesis unfolding fresh_rows_def by (simp add: bindo_assoc case_prod_unfold)
qed

lemma prepared_local:
  assumes "prepared r w m p a aa sw rs = Done (rs', c)" "agree m m' a (unat c)" "coding (plane r ! p) \<noteq> CODING_RGB555"
  shows "prepared r w m' p a aa sw rs = Done (rs', c)"
proof -
  obtain d where d: "decode_plane r w m p a aa sw rs = Done (d, c)" "apply_pixel_hold r w p d = Done rs'"
    using assms(1) by (auto simp: prepared_def bindo_Done)
  then have "decode_plane r w m' p a aa sw rs = Done (d, c)" using decode_local [OF d(1) assms(2)] assms(3) by simp
  then show ?thesis using d(2) by (simp add: prepared_def)
qed

lemma fresh_rows_local:
  assumes "fresh_rows r w m aa ab wa wb = Done (d, ca, cb)" "agree m m' aa (unat ca)" "agree m m' ab (unat cb)" "separate r"
  shows "fresh_rows r w m' aa ab wa wb = Done (d, ca, cb)"
proof -
  obtain e where e: "prepared r w m 0 aa aa wa no_rows = Done (e, ca)" "prepared r w m 1 ab aa wb e = Done (d, cb)"
    using assms(1) by (auto simp: fresh_rows_def draw_rows_def bindo_Done)
  have "prepared r w m' 0 aa aa wa no_rows = Done (e, ca)" "prepared r w m' 1 ab aa wb e = Done (d, cb)"
    using prepared_local [OF e(1) assms(2)] prepared_local [OF e(2) assms(3)] assms(4) by (simp_all add: separate_def)
  then show ?thesis by (simp add: fresh_rows_def draw_rows_def)
qed

section \<open>The key of a line\<close>

lemma cursor_free [simp]:
  "clut_lookup (r\<lparr>cursor := c\<rparr>) = clut_lookup r" "decode_plane (r\<lparr>cursor := c\<rparr>) = decode_plane r" "apply_pixel_hold (r\<lparr>cursor := c\<rparr>) = apply_pixel_hold r"
  "compose_pixel (r\<lparr>cursor := c\<rparr>) = compose_pixel r" "matte_at (r\<lparr>cursor := c\<rparr>) = matte_at r"
proof -
  show look: "clut_lookup (r\<lparr>cursor := c\<rparr>) = clut_lookup r" by (intro ext) (simp add: clut_lookup_def)
  show "decode_plane (r\<lparr>cursor := c\<rparr>) = decode_plane r"
    by (intro ext) (simp add: decode_plane_def decode_run_length_def decode_dyuv_def decode_clut_def look cong: if_cong)
  show "apply_pixel_hold (r\<lparr>cursor := c\<rparr>) = apply_pixel_hold r" by (intro ext) (simp add: apply_pixel_hold_def)
  have t: "transparent_pixel (r\<lparr>cursor := c\<rparr>) = transparent_pixel r"
    by (intro ext) (simp add: transparent_pixel_def matches_color_key_def cong: if_cong)
  show "compose_pixel (r\<lparr>cursor := c\<rparr>) = compose_pixel r" by (intro ext) (simp add: compose_pixel_def t cong: if_cong)
  have "matte_loop (r\<lparr>cursor := c\<rparr>) i x st = matte_loop r i x st" for i x st
    by (induction r i x st rule: matte_loop.induct) (subst (1 2) matte_loop.simps, simp add: Let_def)
  then have "apply_matte_commands (r\<lparr>cursor := c\<rparr>) = apply_matte_commands r" by (simp add: apply_matte_commands_def fun_eq_iff)
  moreover have "initialize_matte_state (r\<lparr>cursor := c\<rparr>) = initialize_matte_state r" by (simp add: initialize_matte_state_def)
  ultimately show "matte_at (r\<lparr>cursor := c\<rparr>) = matte_at r" by (intro ext) (simp add: matte_at_def)
qed

lemma fresh_rows_key [simp]: "fresh_rows (line_key r) = fresh_rows r"
  by (auto simp: fresh_rows_def draw_rows_def prepared_def line_key_def fun_eq_iff)

lemma mixed_key [simp]: "mixed_pixel (line_key r) = mixed_pixel r"
  by (auto simp: mixed_pixel_def line_key_def fun_eq_iff)

lemma separate_key [simp]: "separate (line_key r) = separate r"
  by (simp add: separate_def line_key_def)

text \<open>On an eligible line the field does not matter.\<close>

lemma line_pixel_key:
  assumes "line_eligible r line"
  shows "line_pixel (line_key r) lut field' line w rs = line_pixel r lut field line w rs"
proof -
  have dots: "cursor_dots (c\<lparr>start_field := f\<rparr>) line w = cursor_dots c line w" for c f by (simp add: cursor_dots_def cong: if_cong)
  have "cursor_visible (cursor (line_key r)) line = cursor_visible (cursor r) line" "cursor_dots (cursor (line_key r)) line w = cursor_dots (cursor r) line w"
    by (simp_all add: line_key_def cursor_visible_def dots)
  moreover have "cursor_visible (cursor r) line \<Longrightarrow> cursor_shade (cursor (line_key r)) field' = cursor_shade (cursor r) field"
    using assms by (auto simp: line_eligible_def cursor_shade_def line_key_def Let_def cursor_visible_def)
  ultimately show ?thesis by (auto simp: line_pixel_def cursor_over_def fun_eq_iff)
qed

section \<open>The store of completed lines\<close>

text \<open>
  An entry tells the truth when its rows are decoded from the bytes it holds under its registers, and the line's pixels, snapshots
  and verdicts are still those composed from these rows.
\<close>

definition line_holds :: "(nat \<Rightarrow> nat \<Rightarrow> u8) \<Rightarrow> nat \<Rightarrow> VideoRegisters \<Rightarrow> nat \<Rightarrow> rows \<Rightarrow> (nat \<Rightarrow> u32) \<Rightarrow> (nat \<Rightarrow> nat \<Rightarrow> u32) \<Rightarrow> (nat \<Rightarrow> u8) \<Rightarrow> bool" where
  "line_holds lut n r line rs F P V \<longleftrightarrow>
     (\<forall>x<n. F (line * n + x) = line_pixel r lut 0 (of_nat line) n rs x \<and>
       P 0 (line * n + x) = rs 0 x OR 0xFF000000 \<and> P 1 (line * n + x) = rs 1 x OR 0xFF000000 \<and>
       V (line * n + x) = snd (mixed_pixel r lut rs x))"

definition entry_true :: "VideoPipeline \<Rightarrow> nat \<Rightarrow> bool" where
  "entry_true v line \<longleftrightarrow>
     (let job = completed_lines v line; r = line_registers job
      in separate r \<and> line_eligible r (of_nat line) \<and>
         (\<exists>m. (\<forall>p\<in>{0, 1}. line_source m (line_address job p) (line_consumed job p) = Some (line_bytes job p)) \<and>
           (\<exists>d. fresh_rows r (width v) m (line_address job 0) (line_address job 1) (line_width job 0) (line_width job 1) =
             Done (d, line_consumed job 0, line_consumed job 1) \<and> d 0 = line_decoded job 0 \<and> d 1 = line_decoded job 1)) \<and>
         line_holds (contribution_lut v) (unat (width v)) r line (line_decoded job) (frame v (drawing_buffer v)) (plane_frame v) (verdict_frame v))"

lemma key_key [simp]: "line_key (line_key r) = line_key r"
  by (simp add: line_key_def)

lemma eligible_key [simp]: "line_eligible (line_key r) line = line_eligible r line"
  by (auto simp: line_eligible_def line_key_def cursor_visible_def)

lemma overlay_same:
  assumes "\<forall>x<n. f (base + x) = xs x"
  shows "overlay base n xs f = f"
proof
  fix i
  show "overlay base n xs f i = f i"
    using assms [rule_format, of "i - base"] by (cases "base \<le> i") (auto simp: overlay_def)
qed

text \<open>Drawing a line that the frame already holds changes the decoded rows only.\<close>

lemma painted_same:
  assumes "line_holds (contribution_lut v) (unat (width v)) (line_key (registers v)) (unat line) rs (frame v (drawing_buffer v)) (plane_frame v) (verdict_frame v)"
    and "line_eligible (registers v) line" "d 0 = rs 0" "d 1 = rs 1"
  shows "painted line d v = v\<lparr>decoded := d\<rparr>"
proof -
  have mixed: "mixed_pixel r lut d = mixed_pixel r lut rs" for r lut using assms(3,4) by (simp add: mixed_pixel_def fun_eq_iff)
  have pixel: "line_pixel (line_key (registers v)) (contribution_lut v) 0 line (unat (width v)) rs =
      line_pixel (registers v) (contribution_lut v) (generation v) line (unat (width v)) d"
    by (subst line_pixel_key [OF assms(2), where field = "generation v"]) (simp add: line_pixel_def mixed)
  have "paint_frame (unat line * unat (width v)) (unat (width v)) (line_pixel (registers v) (contribution_lut v) (generation v) line (unat (width v)) d) v = frame v"
    using assms(1) unfolding pixel [symmetric] by (simp add: paint_frame_def line_holds_def overlay_same)
  moreover have "paint_planes (unat line * unat (width v)) (unat (width v)) d v = plane_frame v"
    using assms(1,3,4) by (simp add: paint_planes_def line_holds_def overlay_same)
  moreover have "overlay (unat line * unat (width v)) (unat (width v)) (snd \<circ> mixed_pixel (registers v) (contribution_lut v) d) (verdict_frame v) = verdict_frame v"
    using assms(1) by (intro overlay_same) (simp add: line_holds_def mixed)
  ultimately show ?thesis by (simp add: painted_def Let_def)
qed

text \<open>A freshly painted line holds, and lines do not disturb each other.\<close>

lemma painted_holds:
  assumes "line_eligible (registers v) line" "separate (registers v)"
  shows "line_holds (contribution_lut v) (unat (width v)) (line_key (registers v)) (unat line) d
    (frame (painted line d v) (drawing_buffer v)) (plane_frame (painted line d v)) (verdict_frame (painted line d v))"
  using line_pixel_key [OF assms(1), of "contribution_lut v" 0 "unat (width v)" d "generation v"]
  by (simp add: line_holds_def painted_def Let_def paint_frame_def paint_planes_def overlay_def)

lemma other_line:
  fixes l n k x :: nat
  assumes "k \<noteq> l" "x < n"
  shows "\<not> (l * n \<le> k * n + x \<and> k * n + x < l * n + n)"
proof
  assume *: "l * n \<le> k * n + x \<and> k * n + x < l * n + n"
  then have "(k * n + x) div n = l" using assms(2) by (intro div_nat_eqI) (auto simp: algebra_simps)
  moreover have "(k * n + x) div n = k" using assms(2) by simp
  ultimately show False using assms(1) by simp
qed

lemma painted_other:
  assumes "k \<noteq> unat line" "line_holds lut (unat (width v)) r k rs (frame v (drawing_buffer v)) (plane_frame v) (verdict_frame v)"
  shows "line_holds lut (unat (width v)) r k rs (frame (painted line d v) (drawing_buffer v)) (plane_frame (painted line d v)) (verdict_frame (painted line d v))"
  using assms(2) other_line [OF assms(1)] by (auto simp: line_holds_def painted_def Let_def paint_frame_def paint_planes_def overlay_def)

section \<open>The invariant of the optimised backend\<close>

definition registers_ok :: "VideoRegisters \<Rightarrow> bool" where
  "registers_ok r \<longleftrightarrow> length (plane r) = 2 \<and> coding (plane r ! 0) \<noteq> CODING_RGB555"

definition entries_true :: "VideoPipeline \<Rightarrow> bool" where
  "entries_true u \<longleftrightarrow> (\<forall>k<unat (height u). line_valid (completed_lines u k) \<longrightarrow> entry_true u k)"

definition hash_ok :: "VideoPipeline \<Rightarrow> bool" where
  "hash_ok u \<longleftrightarrow> generation u \<noteq> 0 \<longrightarrow>
     published_hash u = hash_frame_bytes (frame u (published_buffer u)) (unat (published_width u) * unat (published_height u))"

text \<open>The two buffers differ below \<open>d\<close> only, the pixels drawn since the last publication.\<close>

definition buffers_ok :: "nat \<Rightarrow> VideoPipeline \<Rightarrow> bool" where
  "buffers_ok d u \<longleftrightarrow> drawing_buffer u < 2 \<and> published_buffer u = 1 - drawing_buffer u \<and> d \<le> unat (width u) * unat (height u) \<and>
     (\<forall>i\<ge>d. frame u 0 i = frame u 1 i)"

definition geometry_ok :: "VideoPipeline \<Rightarrow> bool" where
  "geometry_ok u \<longleftrightarrow> unat (width u) \<le> row_capacity \<and> unat (height u) \<le> line_limit"

definition video_ok :: "nat \<Rightarrow> VideoPipeline \<Rightarrow> bool" where
  "video_ok d u \<longleftrightarrow> registers_ok (registers u) \<and> geometry_ok u \<and> buffers_ok d u \<and> entries_true u \<and> hash_ok u"

lemma control_keeps:
  assumes "control_registers p opcode ins field r = Done r'" "registers_ok r" "p < 2"
  shows "registers_ok r'"
proof -
  have upd: "registers_ok (upd_plane q f r)" if "registers_ok r" "q = 0 \<longrightarrow> coding (f (plane r ! 0)) \<noteq> CODING_RGB555" for q f r
    using that by (cases "q = 0") (auto simp: registers_ok_def upd_plane_def)
  have a: "plane_a_coding x \<noteq> CODING_RGB555" for x by (simp add: plane_a_coding_def)
  have same: "registers_ok (r\<lparr>clut := x1\<rparr>) = registers_ok r" "registers_ok (r\<lparr>matte_command := x2\<rparr>) = registers_ok r"
    "registers_ok (r\<lparr>plane_b_front := x3\<rparr>) = registers_ok r" "registers_ok (r\<lparr>clut_bank := x4\<rparr>) = registers_ok r"
    "registers_ok (r\<lparr>cursor := x5\<rparr>) = registers_ok r" "registers_ok (r\<lparr>backdrop := x6\<rparr>) = registers_ok r"
    "registers_ok (r\<lparr>mixing := x7\<rparr>) = registers_ok r"
    "registers_ok (r\<lparr>plane_a_high_clut := x8, two_mattes := x9, external_video := x10\<rparr>) = registers_ok r"
    for x1 x2 x3 x4 x5 x6 x7 x8 x9 x10 by (simp_all add: registers_ok_def)
  have ok: "coding (plane r ! 0) \<noteq> CODING_RGB555" using assms(2) by (simp add: registers_ok_def)
  show ?thesis
    using assms ok unfolding control_registers_def Let_def
    by (auto simp: same upd a bindo_Done configure_file_type_def Let_def split: if_splits)
qed

section \<open>Drawing\<close>

text \<open>Fields only the optimised backend uses.\<close>

definition with_store :: "u64 \<Rightarrow> u64 \<Rightarrow> (nat \<Rightarrow> CompletedLine) \<Rightarrow> VideoPipeline \<Rightarrow> VideoPipeline" where
  "with_store n k jobs v = v\<lparr>fused_jobs := n, reused_jobs := k, completed_lines := jobs\<rparr>"

lemma visible_with_store [simp]: "visible (with_store n k jobs v) = visible v"
  by (simp add: visible_def with_store_def)

lemma compose_line_cases:
  "compose_line line (v\<lparr>decoded := rs\<rparr>) = (if line < height v then painted line rs v else v\<lparr>decoded := rs\<rparr>)"
  using compose_line_painted [of line v rs] by (auto simp: compose_line_def not_less)

lemma painted_visible: "visible u = visible v \<Longrightarrow> visible (painted line rs u) = visible (painted line rs v)"
  by (simp add: visible_eq_iff painted_def Let_def paint_frame_def paint_planes_def)

lemma painted_keeps [simp]:
  "completed_lines (painted line rs v) = completed_lines v" "published_hash (painted line rs v) = published_hash v"
  "content_generation (painted line rs v) = content_generation v" "registers (painted line rs v) = registers v"
  "width (painted line rs v) = width v" "height (painted line rs v) = height v" "drawing_buffer (painted line rs v) = drawing_buffer v"
  "published_buffer (painted line rs v) = published_buffer v" "generation (painted line rs v) = generation v"
  "contribution_lut (painted line rs v) = contribution_lut v" "decoded (painted line rs v) = rs"
  "published_width (painted line rs v) = published_width v" "published_height (painted line rs v) = published_height v"
  by (simp_all add: painted_def Let_def)

lemma painted_set_job: "painted line rs (set_job k job v) = set_job k job (painted line rs v)"
  by (simp add: painted_def set_job_def Let_def paint_frame_def paint_planes_def)

lemma reference_done:
  "draw_line_reference m a b line wa wb v = Done (v', used) \<longleftrightarrow>
     (\<exists>rs ca cb. draw_rows (registers v) (width v) m a b wa wb (decoded v) = Done (rs, ca, cb) \<and>
       v' = (if line < height v then painted line rs v else v\<lparr>decoded := rs\<rparr>) \<and>
       used = (if coding (plane (registers v) ! 1) = CODING_RGB555 then cb else ca, cb))"
  by (auto simp: reference_rows compose_line_cases)

text \<open>A reused line is the line the reference would draw.\<close>

lemma reuse_reference:
  assumes entry: "entry_true u (unat line)" and line: "line < height u" and el: "line_eligible (registers u) line"
    and re: "line_reusable m a b wa wb (registers u) (completed_lines u (unat line))"
  shows "draw_line_reference m a b line wa wb u =
    Done (u\<lparr>decoded := (decoded u)(0 := line_decoded (completed_lines u (unat line)) 0, 1 := line_decoded (completed_lines u (unat line)) 1)\<rparr>,
      line_consumed (completed_lines u (unat line)) 0, line_consumed (completed_lines u (unat line)) 1)"
proof -
  define job where "job = completed_lines u (unat line)"
  let ?r = "registers u"
  have job: "line_address job 0 = a" "line_address job 1 = b" "line_width job 0 = wa" "line_width job 1 = wb" "line_registers job = line_key ?r"
    "line_source m a (line_consumed job 0) = Some (line_bytes job 0)" "line_source m b (line_consumed job 1) = Some (line_bytes job 1)"
    using re by (auto simp: line_reusable_def simp flip: job_def)
  obtain m0 d where m0: "line_source m0 a (line_consumed job 0) = Some (line_bytes job 0)" "line_source m0 b (line_consumed job 1) = Some (line_bytes job 1)"
    "fresh_rows (line_key ?r) (width u) m0 a b wa wb = Done (d, line_consumed job 0, line_consumed job 1)" "d 0 = line_decoded job 0" "d 1 = line_decoded job 1"
    and sep: "separate ?r" and holds: "line_holds (contribution_lut u) (unat (width u)) (line_key ?r) (unat line) (line_decoded job)
      (frame u (drawing_buffer u)) (plane_frame u) (verdict_frame u)"
    using entry job by (auto simp: entry_true_def Let_def simp flip: job_def)
  have "fresh_rows ?r (width u) m a b wa wb = Done (d, line_consumed job 0, line_consumed job 1)"
    using fresh_rows_local [OF m0(3) line_source_agree [OF m0(1) job(6)] line_source_agree [OF m0(2) job(7)]] sep by simp
  then have rows: "draw_rows ?r (width u) m a b wa wb (decoded u) = Done ((decoded u)(0 := d 0, 1 := d 1), line_consumed job 0, line_consumed job 1)"
    unfolding draw_rows_fresh [OF sep] by simp
  have "painted line ((decoded u)(0 := d 0, 1 := d 1)) u = u\<lparr>decoded := (decoded u)(0 := d 0, 1 := d 1)\<rparr>"
    by (rule painted_same [OF holds el]) (simp_all add: m0(4) m0(5) [simplified])
  then show ?thesis
    unfolding job_def [symmetric] using rows line sep by (simp add: reference_done separate_def m0(4) m0(5) [simplified])
qed

text \<open>A job that ran leaves a true entry, if it leaves one.\<close>

lemma recorded_true:
  assumes rows: "draw_rows (registers u) (width u) m a b wa wb (decoded u) = Done (rs, ca, cb)" and A: "registers_ok (registers u)"
    and job: "job = record_line m a b line wa wb (registers u) rs (line_eligible (registers u) line) ca cb job0" and valid: "line_valid job"
    and u': "u' = with_store n k jobs (painted line rs u)" "jobs (unat line) = job"
  shows "entry_true u' (unat line)"
proof -
  let ?r = "registers u"
  obtain sa sb where src: "line_eligible ?r line" "line_source m a ca = Some sa" "line_source m b cb = Some sb"
    using valid unfolding job by (auto simp: record_line_def Let_def split: if_splits option.splits)
  then have job': "line_registers job = line_key ?r" "line_decoded job = rs" "line_address job 0 = a" "line_address job 1 = b" "line_width job 0 = wa"
    "line_width job 1 = wb" "line_consumed job 0 = ca" "line_consumed job 1 = cb" "line_bytes job 0 = sa" "line_bytes job 1 = sb"
    unfolding job by (simp_all add: record_line_def Let_def)
  have sep: "separate ?r" using src(1) A by (simp add: line_eligible_def registers_ok_def separate_def)
  obtain d where d: "fresh_rows ?r (width u) m a b wa wb = Done (d, ca, cb)" "rs = (decoded u)(0 := d 0, 1 := d 1)"
    using rows unfolding draw_rows_fresh [OF sep] by (auto simp: bindo_Done)
  have "line_holds (contribution_lut u) (unat (width u)) (line_key ?r) (unat line) rs
      (frame (painted line rs u) (drawing_buffer u)) (plane_frame (painted line rs u)) (verdict_frame (painted line rs u))"
    by (rule painted_holds [OF src(1) sep])
  moreover have "\<exists>m. (\<forall>p\<in>{0, 1}. line_source m (line_address job p) (line_consumed job p) = Some (line_bytes job p)) \<and>
      (\<exists>d. fresh_rows (line_key ?r) (width u) m (line_address job 0) (line_address job 1) (line_width job 0) (line_width job 1) =
        Done (d, line_consumed job 0, line_consumed job 1) \<and> d 0 = line_decoded job 0 \<and> d 1 = line_decoded job 1)"
    using d src by (intro exI [of _ m] conjI exI [of _ d]) (simp_all add: job' job' [simplified])
  moreover have "completed_lines u' (unat line) = job" "width u' = width u" "contribution_lut u' = contribution_lut u" "drawing_buffer u' = drawing_buffer u"
    "frame u' = frame (painted line rs u)" "plane_frame u' = plane_frame (painted line rs u)" "verdict_frame u' = verdict_frame (painted line rs u)"
    using u' by (simp_all add: with_store_def)
  ultimately show ?thesis
    using src(1) sep by (simp only: entry_true_def Let_def job'(1,2)) simp
qed

lemma entries_after:
  assumes "entries_true u" and u': "u' = with_store n k jobs (painted line rs u)"
    and same: "\<forall>i. i \<noteq> unat line \<longrightarrow> jobs i = completed_lines u i" and own: "line_valid (jobs (unat line)) \<longrightarrow> entry_true u' (unat line)"
  shows "entries_true u'"
  unfolding entries_true_def
proof (intro allI impI)
  fix i
  assume i: "i < unat (height u')" "line_valid (completed_lines u' i)"
  show "entry_true u' i"
  proof (cases "i = unat line")
    case True
    then show ?thesis using own i(2) by (simp add: u' with_store_def)
  next
    case False
    then have job: "completed_lines u' i = completed_lines u i" using same by (simp add: u' with_store_def)
    then have "entry_true u i" using assms(1) i by (simp add: entries_true_def u' with_store_def)
    then show ?thesis
      using painted_other [OF False, of "contribution_lut u" u _ _ rs] unfolding entry_true_def Let_def job
      by (auto simp: u' with_store_def)
  qed
qed

lemma reusable_line_reference:
  assumes ok: "entries_true u" "registers_ok (registers u)" "unat (width u) \<le> row_capacity" and line: "line < height u"
  shows "(\<forall>u' used. draw_line_reference m a b line wa wb u = Done (u', used) \<longrightarrow>
      (\<exists>n k jobs. reusable_line m a b line wa wb u = Done (with_store n k jobs u', used) \<and> entries_true (with_store n k jobs u'))) \<and>
    (\<forall>z. reusable_line m a b line wa wb u = Done z \<longrightarrow> (\<exists>z'. draw_line_reference m a b line wa wb u = Done z'))"
proof (cases "line_eligible (registers u) line \<and> line_reusable m a b wa wb (registers u) (completed_lines u (unat line))")
  case True
  let ?job = "completed_lines u (unat line)"
  define rs where "rs = (decoded u)(0 := line_decoded ?job 0, 1 := line_decoded ?job 1)"
  have entry: "entry_true u (unat line)"
    using ok(1) True line by (simp add: entries_true_def line_reusable_def word_less_nat_alt)
  have ref: "draw_line_reference m a b line wa wb u = Done (u\<lparr>decoded := rs\<rparr>, line_consumed ?job 0, line_consumed ?job 1)"
    unfolding rs_def using reuse_reference [OF entry line] True by blast
  have "reusable_line m a b line wa wb u = Done (u\<lparr>decoded := rs, reused_jobs := reused_jobs u + 1\<rparr>, line_consumed ?job 0, line_consumed ?job 1)"
    using True by (simp add: reusable_line_def Let_def rs_def)
  moreover have "u\<lparr>decoded := rs, reused_jobs := reused_jobs u + 1\<rparr> = with_store (fused_jobs u) (reused_jobs u + 1) (completed_lines u) (u\<lparr>decoded := rs\<rparr>)"
    by (simp add: with_store_def)
  moreover have "entries_true (with_store (fused_jobs u) (reused_jobs u + 1) (completed_lines u) (u\<lparr>decoded := rs\<rparr>))"
    using ok(1) by (simp add: entries_true_def entry_true_def Let_def with_store_def)
  ultimately show ?thesis using ref by auto
next
  case False
  define job where "job = completed_lines u (unat line)"
  define u0 where "u0 = set_job line (job\<lparr>line_valid := False\<rparr>) u"
  have u0: "registers u0 = registers u" "width u0 = width u" "height u0 = height u" "decoded u0 = decoded u" by (simp_all add: u0_def set_job_def)
  have run: "reusable_line m a b line wa wb u = bindo (scanout_job m a b line wa wb u0) (\<lambda>(v', ca, cb).
      Done (set_job line (record_line m a b line wa wb (registers u) (decoded v') (line_eligible (registers u) line) ca cb job) v', ca, cb))"
    unfolding reusable_line_def Let_def u0_def job_def if_not_P [OF False] ..
  note sj = scanout_job_reference [of u0 line m a b wa wb, unfolded u0, OF ok(3) line]
  have refs: "(\<exists>z. draw_line_reference m a b line wa wb u0 = Done z) \<longleftrightarrow> (\<exists>z. draw_line_reference m a b line wa wb u = Done z)"
    by (auto simp: reference_rows u0)
  have "\<exists>n k jobs. reusable_line m a b line wa wb u = Done (with_store n k jobs u', used) \<and> entries_true (with_store n k jobs u')"
    if ref: "draw_line_reference m a b line wa wb u = Done (u', used)" for u' used
  proof -
    obtain rs ca cb where rs: "draw_rows (registers u) (width u) m a b wa wb (decoded u) = Done (rs, ca, cb)" "u' = painted line rs u"
      "used = (if coding (plane (registers u) ! 1) = CODING_RGB555 then cb else ca, cb)"
      using ref line by (auto simp: reference_done)
    have "draw_line_reference m a b line wa wb u0 = Done (painted line rs u0, used)"
      using rs line by (simp add: reference_done u0)
    then obtain n where n: "scanout_job m a b line wa wb u0 = Done ((painted line rs u0)\<lparr>fused_jobs := n\<rparr>, used)" using sj by blast
    define rec where "rec = record_line m a b line wa wb (registers u) rs (line_eligible (registers u) line) (fst used) (snd used) job"
    define jobs where "jobs = (completed_lines u)(unat line := rec)"
    have "set_job line rec ((painted line rs u0)\<lparr>fused_jobs := n\<rparr>) = with_store n (reused_jobs (painted line rs u)) jobs u'"
      by (simp add: u0_def painted_set_job rs(2) jobs_def) (simp add: set_job_def with_store_def)
    then have "reusable_line m a b line wa wb u = Done (with_store n (reused_jobs (painted line rs u)) jobs u', used)"
      unfolding run n by (simp add: rec_def case_prod_unfold)
    moreover have "entries_true (with_store n (reused_jobs (painted line rs u)) jobs u')"
    proof (rule entries_after [OF ok(1)])
      show "with_store n (reused_jobs (painted line rs u)) jobs u' = with_store n (reused_jobs (painted line rs u)) jobs (painted line rs u)" by (simp add: rs(2))
      show "line_valid (jobs (unat line)) \<longrightarrow> entry_true (with_store n (reused_jobs (painted line rs u)) jobs u') (unat line)"
      proof
        assume valid: "line_valid (jobs (unat line))"
        then have "line_eligible (registers u) line" by (auto simp: jobs_def rec_def record_line_def Let_def split: if_splits)
        then have "used = (ca, cb)" by (simp add: rs(3) line_eligible_def)
        then show "entry_true (with_store n (reused_jobs (painted line rs u)) jobs u') (unat line)"
          using valid by (intro recorded_true [OF rs(1) ok(2), where line = line and job = rec and jobs = jobs]) (simp_all add: rec_def jobs_def rs(2))
      qed
    qed (simp add: jobs_def)
    ultimately show ?thesis by blast
  qed
  moreover have "\<exists>z'. draw_line_reference m a b line wa wb u = Done z'" if "reusable_line m a b line wa wb u = Done z" for z
    using that sj refs unfolding run bindo_Done by blast
  ultimately show ?thesis by blast
qed

section \<open>One operation on both backends\<close>

text \<open>The optimised step follows the reference step, and stops when it stops.\<close>

definition follows :: "nat \<Rightarrow> VideoPipeline outcome \<Rightarrow> VideoPipeline outcome \<Rightarrow> bool" where
  "follows d ref opt \<longleftrightarrow> (\<forall>v'. ref = Done v' \<longrightarrow> (\<exists>u'. opt = Done u' \<and> visible u' = visible v' \<and> video_ok d u')) \<and>
     (\<forall>u'. opt = Done u' \<longrightarrow> (\<exists>v'. ref = Done v'))"

lemma control_follows:
  assumes "video_ok d u" "visible u = visible v"
  shows "follows d (mcd212_video_control p ins v) (mcd212_video_control p ins u)"
proof -
  have same: "registers u = registers v" "generation u = generation v" using assms(2) by (simp_all add: visible_eq_iff)
  have "video_ok d (u\<lparr>registers := r\<rparr>)" if "registers_ok r" for r
    using assms(1) that
    by (simp add: video_ok_def geometry_ok_def buffers_ok_def entries_true_def entry_true_def hash_ok_def Let_def)
  moreover have "visible (u\<lparr>registers := r\<rparr>) = visible (v\<lparr>registers := r\<rparr>)" for r using assms(2) by (simp add: visible_eq_iff)
  ultimately show ?thesis
    using assms(1) control_keeps [of p] unfolding follows_def mcd212_video_control_def same
    by (auto simp: bindo_Done video_ok_def [of d u] same)
qed

lemma begin_follows:
  assumes "video_ok d u" "visible u = visible v" "d \<le> 2 * unat bw * (if i then 2 * unat bh else unat bh)"
  shows "follows d (mcd212_video_begin_frame False bw bh i v) (mcd212_video_begin_frame True bw bh i u)"
proof -
  define w where "w = ucast bw * (2 :: u32)"
  define h where "h = (if i then ucast bh * 2 else ucast bh :: u32)"
  have wh: "unat w = 2 * unat bw" "unat h = (if i then 2 * unat bh else unat bh)"
    using u16_less [of bw] u16_less [of bh] by (simp_all add: w_def h_def unat_word_ariths unsigned_ucast_eq take_bit_eq_mod)
  show ?thesis
  proof (cases "w > 768 \<or> h > 560")
    case True
    then show ?thesis by (simp add: follows_def mcd212_video_begin_frame_def Let_def flip: w_def h_def)
  next
    case False
    then have small: "unat w \<le> 768" "unat h \<le> 560" by (simp_all add: word_less_nat_alt not_less)
    have cast: "unat (ucast w :: u16) = unat w" "unat (ucast h :: u16) = unat h"
      using small by (simp_all add: unsigned_ucast_eq take_bit_eq_mod)
    define reset where "reset \<longleftrightarrow> w \<noteq> ucast (width u) \<or> h \<noteq> ucast (height u)"
    define u' where "u' = (if reset then u\<lparr>completed_lines := (\<lambda>_. blank_line)\<rparr> else u)\<lparr>width := ucast w, height := ucast h\<rparr>"
    have "entries_true u'"
    proof (cases reset)
      case True
      then show ?thesis by (simp add: u'_def entries_true_def blank_line_def)
    next
      case False
      moreover have "(ucast (ucast x :: u32) :: u16) = x" for x by (simp add: bitwise16)
      ultimately have "ucast w = width u" "ucast h = height u" by (simp_all add: reset_def)
      then have "u' = u" using \<open>\<not> reset\<close> by (simp add: u'_def)
      then show ?thesis using assms(1) by (simp add: video_ok_def)
    qed
    moreover have "registers u' = registers u" "frame u' = frame u" "drawing_buffer u' = drawing_buffer u" "published_buffer u' = published_buffer u"
      "generation u' = generation u" "published_hash u' = published_hash u" "published_width u' = published_width u" "published_height u' = published_height u"
      "width u' = ucast w" "height u' = ucast h" by (simp_all add: u'_def)
    ultimately have "video_ok d u'"
      using assms(1,3) small wh by (simp add: video_ok_def geometry_ok_def buffers_ok_def hash_ok_def cast)
    moreover have "visible u' = visible (v\<lparr>width := ucast w, height := ucast h\<rparr>)"
      using assms(2) by (simp add: visible_eq_iff u'_def)
    moreover have "mcd212_video_begin_frame True bw bh i u = Done u'" "mcd212_video_begin_frame False bw bh i v = Done (v\<lparr>width := ucast w, height := ucast h\<rparr>)"
      using False by (simp_all add: mcd212_video_begin_frame_def Let_def u'_def reset_def flip: w_def h_def)
    ultimately show ?thesis by (simp add: follows_def)
  qed
qed

lemma painted_buffers:
  assumes "buffers_ok d u" "line < height u"
  shows "buffers_ok (max d (Suc (unat line) * unat (width u))) (painted line rs u)"
proof -
  have "Suc (unat line) \<le> unat (height u)" using assms(2) by (simp add: word_less_nat_alt)
  then have "Suc (unat line) * unat (width u) \<le> unat (height u) * unat (width u)" by (rule mult_le_mono1)
  then show ?thesis
    using assms(1) by (cases "drawing_buffer u = 0") (auto simp: buffers_ok_def painted_def Let_def paint_frame_def overlay_def algebra_simps less_2_cases_iff)
qed

lemma draw_follows:
  assumes ok: "video_ok d u" and vis: "visible u = visible v"
  shows "follows (if line < height u then max d (Suc (unat line) * unat (width u)) else d)
      (bindo (mcd212_video_draw_line False m a b line wa wb v) (\<lambda>(v', _). Done v'))
      (bindo (mcd212_video_draw_line True m a b line wa wb u) (\<lambda>(u', _). Done u')) \<and>
    (\<forall>v' used u' used'. mcd212_video_draw_line False m a b line wa wb v = Done (v', used) \<and>
      mcd212_video_draw_line True m a b line wa wb u = Done (u', used') \<longrightarrow> used' = used)"
proof -
  define v1 where "v1 = v\<lparr>scanout_jobs := scanout_jobs v + 1\<rparr>"
  define u1 where "u1 = u\<lparr>scanout_jobs := scanout_jobs u + 1\<rparr>"
  have vis1: "visible u1 = visible v1" using vis by (simp add: u1_def v1_def visible_eq_iff)
  have parts: "registers_ok (registers u1)" "geometry_ok u1" "buffers_ok d u1" "entries_true u1" "hash_ok u1" "width u1 = width u" "height u1 = height u"
    using ok by (simp_all add: u1_def video_ok_def geometry_ok_def buffers_ok_def entries_true_def entry_true_def hash_ok_def Let_def)
  have refs: "\<exists>u'. draw_line_reference m a b line wa wb u1 = Done (u', used) \<and> visible u' = visible v'"
    if ref: "draw_line_reference m a b line wa wb v1 = Done (v', used)" for v' used
  proof -
    have fields: "registers u1 = registers v1" "width u1 = width v1" "height u1 = height v1" "decoded u1 = decoded v1"
      using vis1 by (simp_all add: visible_eq_iff)
    have "visible (if line < height v1 then painted line rs u1 else u1\<lparr>decoded := rs\<rparr>) =
        visible (if line < height v1 then painted line rs v1 else v1\<lparr>decoded := rs\<rparr>)" for rs
      using painted_visible [OF vis1] vis1 by (simp add: visible_eq_iff)
    then show ?thesis using ref unfolding reference_done fields by blast
  qed
  have conv: "draw_line_reference m a b line wa wb u1 = Done z \<Longrightarrow> \<exists>z'. draw_line_reference m a b line wa wb v1 = Done z'" for z
    using vis1 by (auto simp: reference_rows visible_eq_iff)
  show ?thesis
  proof (cases "line < height u")
    case True
    then have eqs: "mcd212_video_draw_line False m a b line wa wb v = draw_line_reference m a b line wa wb v1"
      "mcd212_video_draw_line True m a b line wa wb u = reusable_line m a b line wa wb u1"
      by (simp_all add: mcd212_video_draw_line_def Let_def u1_def v1_def)
    note rl = reusable_line_reference [OF parts(4,1) parts(2)[unfolded geometry_ok_def, THEN conjunct1] True[folded parts(7)], of m a b wa wb]
    have one: "\<exists>u''. reusable_line m a b line wa wb u1 = Done (u'', used) \<and> visible u'' = visible v' \<and> video_ok (max d (Suc (unat line) * unat (width u))) u''"
      if ref: "draw_line_reference m a b line wa wb v1 = Done (v', used)" for v' used
    proof -
      obtain u' where u': "draw_line_reference m a b line wa wb u1 = Done (u', used)" "visible u' = visible v'" using refs [OF ref] by blast
      obtain n k jobs where w: "reusable_line m a b line wa wb u1 = Done (with_store n k jobs u', used)" "entries_true (with_store n k jobs u')" using rl u'(1) by blast
      obtain rs where rs: "u' = painted line rs u1" using u'(1) True by (auto simp: reference_done parts(7))
      have "buffers_ok (max d (Suc (unat line) * unat (width u))) u'"
        unfolding rs using painted_buffers [OF parts(3), of line rs] True by (simp add: parts(6,7))
      then have "video_ok (max d (Suc (unat line) * unat (width u))) (with_store n k jobs u')"
        using w(2) parts(1,2,3,5) unfolding rs
        by (auto simp: video_ok_def geometry_ok_def buffers_ok_def hash_ok_def with_store_def painted_def Let_def paint_frame_def less_2_cases_iff)
      then show ?thesis using w(1) u'(2) by (intro exI [of _ "with_store n k jobs u'"]) simp
    qed
    have two: "\<exists>z'. draw_line_reference m a b line wa wb v1 = Done z'" if "reusable_line m a b line wa wb u1 = Done z" for z
      using rl conv that by blast
    show ?thesis
      using one two True unfolding eqs by (fastforce simp: follows_def bindo_Done word_less_nat_alt)
  next
    case False
    then have eqs: "mcd212_video_draw_line False m a b line wa wb v = draw_line_reference m a b line wa wb v1"
      "mcd212_video_draw_line True m a b line wa wb u = draw_line_reference m a b line wa wb u1"
      by (simp_all add: mcd212_video_draw_line_def Let_def u1_def v1_def)
    have "video_ok d u'" if "draw_line_reference m a b line wa wb u1 = Done (u', used)" for u' used
      using that False parts by (auto simp: reference_done video_ok_def geometry_ok_def buffers_ok_def entries_true_def entry_true_def hash_ok_def Let_def)
    then show ?thesis
      using refs conv False unfolding eqs by (fastforce simp: follows_def bindo_Done word_less_nat_alt)
  qed
qed

section \<open>Publication\<close>

lemma end_follows:
  assumes ok: "video_ok d u" and vis: "visible u = visible v"
  shows "follows 0 (Done (mcd212_video_end_frame False v)) (Done (mcd212_video_end_frame True u))"
proof -
  define fin where "fin = drawing_buffer u"
  define other where "other = 1 - fin"
  define n where "n = unat (width u) * unat (height u)"
  define F where "F = frame u fin"
  have parts: "registers_ok (registers u)" "geometry_ok u" "entries_true u" "hash_ok u" "fin < 2" "published_buffer u = other" "d \<le> n"
    "\<And>i. d \<le> i \<Longrightarrow> frame u other i = F i"
    using ok by (auto simp: video_ok_def buffers_ok_def fin_def other_def n_def F_def less_2_cases_iff)
  have big: "n \<le> frame_pixels" unfolding n_def frame_pixels_def using parts(2) by (intro mult_le_mono) (simp_all add: geometry_ok_def)
  have copy: "copy_pixels k F (frame u other) = F" if "n \<le> k" for k
    using parts(7,8) that by (auto simp: copy_pixels_def fun_eq_iff)
  have alike: "frame u other = F" if "same_pixels (frame u other) F n"
  proof
    fix i
    show "frame u other i = F i" using that parts(7,8) by (cases "i < n") (auto simp: same_pixels_def list_all_iff)
  qed
  define same where "same = same_pixels (frame u other) F n"
  define keep where "keep = (generation u \<noteq> 0 \<and> same \<and> width u = published_width u \<and> height u = published_height u)"
  define hash where "hash = (if keep then published_hash u else hash_frame_bytes F n)"
  define u' where "u' = u\<lparr>published_buffer := fin, published_width := width u, published_height := height u, published_hash := hash,
      content_generation := (if keep then content_generation u else content_generation u + 1), generation := generation u + 1,
      publish_sequence := publish_sequence u + 2, drawing_buffer := other, frame := (frame u)(other := F)\<rparr>"
  have hash: "hash = hash_frame_bytes F n"
  proof (cases keep)
    case True
    then have "published_hash u = hash_frame_bytes (frame u other) n"
      using parts(4,6) by (simp add: hash_ok_def keep_def n_def)
    then show ?thesis using True alike by (simp add: hash_def keep_def same_def)
  qed (simp add: hash_def)
  have opt: "mcd212_video_end_frame True u = u'"
  proof (cases same)
    case True
    then have "(frame u)(other := F) = frame u" using alike by (auto simp: same_def fun_eq_iff)
    then show ?thesis using True
      by (simp add: mcd212_video_end_frame_def Let_def u'_def keep_def hash_def same_def parts(6) F_def fin_def other_def n_def)
  next
    case False
    then show ?thesis using copy [of n]
      by (simp add: mcd212_video_end_frame_def Let_def u'_def keep_def hash_def same_def parts(6) F_def fin_def other_def n_def)
  qed
  have ref: "visible (mcd212_video_end_frame False v) = visible u'"
    using vis copy [OF big] by (simp add: mcd212_video_end_frame_def Let_def visible_eq_iff u'_def F_def fin_def other_def)
  have "frame u' 0 = F" "frame u' 1 = F" using parts(5) by (auto simp: u'_def other_def F_def less_2_cases_iff)
  moreover have "other < 2" "published_buffer u' = 1 - other" "drawing_buffer u' = other" using parts(5) by (auto simp: u'_def other_def less_2_cases_iff)
  ultimately have buf: "buffers_ok 0 u'" "frame u' (drawing_buffer u') = F" "frame u' (published_buffer u') = F"
    by (auto simp: buffers_ok_def less_2_cases_iff)
  have "entries_true u'"
    using parts(3) buf(2) by (simp add: entries_true_def entry_true_def Let_def) (simp add: u'_def F_def fin_def)
  moreover have "hash_ok u'" using hash buf(3) by (simp add: hash_ok_def) (simp add: u'_def n_def)
  ultimately have "video_ok 0 u'"
    using parts(1,2) buf(1) by (simp add: video_ok_def geometry_ok_def) (simp add: u'_def)
  then show ?thesis using ref by (simp add: follows_def opt)
qed

section \<open>Lockstep\<close>

text \<open>Two implementations of the same operations, related by an invariant that every admitted operation keeps.\<close>

locale lockstep =
  fixes ref opt :: "'op \<Rightarrow> 's \<Rightarrow> ('s \<times> 'o) outcome"
    and admit :: "'g \<Rightarrow> 'op \<Rightarrow> bool" and onward :: "'g \<Rightarrow> 'op \<Rightarrow> 'g" and rel :: "'g \<Rightarrow> 's \<Rightarrow> 's \<Rightarrow> bool"
  assumes follow: "rel g v u \<Longrightarrow> admit g op \<Longrightarrow> ref op v = Done (v', x) \<Longrightarrow> \<exists>u'. opt op u = Done (u', x) \<and> rel (onward g op) v' u'"
    and halt: "rel g v u \<Longrightarrow> admit g op \<Longrightarrow> opt op u = Done z \<Longrightarrow> \<exists>z'. ref op v = Done z'"
begin

lemma run_follows:
  assumes "\<And>v. run1 [] v = Done (v, [])" "\<And>v. run2 [] v = Done (v, [])"
    and "\<And>op ops v. run1 (op # ops) v = bindo (ref op v) (\<lambda>(v', x). bindo (run1 ops v') (\<lambda>(v'', xs). Done (v'', x # xs)))"
    and "\<And>op ops v. run2 (op # ops) v = bindo (opt op v) (\<lambda>(v', x). bindo (run2 ops v') (\<lambda>(v'', xs). Done (v'', x # xs)))"
    and "\<And>g. every g []" "\<And>g op ops. every g (op # ops) \<longleftrightarrow> admit g op \<and> every (onward g op) ops"
    and "rel g v u" "every g ops"
  shows "(\<forall>v' xs. run1 ops v = Done (v', xs) \<longrightarrow> (\<exists>u' g'. run2 ops u = Done (u', xs) \<and> rel g' v' u')) \<and>
    (\<forall>z. run2 ops u = Done z \<longrightarrow> (\<exists>z'. run1 ops v = Done z'))"
  using assms(7,8)
proof (induction ops arbitrary: g v u)
  case Nil
  then show ?case using assms(1,2) by auto
next
  case (Cons op ops)
  have now: "admit g op" "every (onward g op) ops" using Cons.prems(2) assms(6) by simp_all
  show ?case
  proof (cases "\<exists>v1 x. ref op v = Done (v1, x)")
    case True
    then obtain v1 x where v1: "ref op v = Done (v1, x)" by blast
    obtain u1 where u1: "opt op u = Done (u1, x)" "rel (onward g op) v1 u1" using follow [OF Cons.prems(1) now(1) v1] by blast
    show ?thesis
      using Cons.IH [OF u1(2) now(2)] by (auto simp: assms(3,4) v1 u1(1) bindo_Done)
  next
    case False
    then have stuck: "ref op v \<noteq> Done z" for z by (cases z) blast
    then have "opt op u \<noteq> Done z" for z using halt [OF Cons.prems(1) now(1)] by blast
    then show ?thesis using stuck by (auto simp: assms(3,4) bindo_Done)
  qed
qed

end

definition alike :: "progress \<Rightarrow> VideoPipeline \<Rightarrow> VideoPipeline \<Rightarrow> bool" where
  "alike g v u \<longleftrightarrow> (case g of (d, w, h) \<Rightarrow> video_ok d u \<and> visible u = visible v \<and> w = unat (width u) \<and> h = unat (height u))"

lemma control_geometry: "mcd212_video_control p ins v = Done v' \<Longrightarrow> width v' = width v \<and> height v' = height v"
  by (auto simp: mcd212_video_control_def bindo_Done split: if_splits)

lemma draw_geometry: "mcd212_video_draw_line False m a b line wa wb v = Done (v', used) \<Longrightarrow> width v' = width v \<and> height v' = height v"
  by (auto simp: mcd212_video_draw_line_def Let_def reference_done split: if_splits)

lemma begin_geometry:
  assumes "mcd212_video_begin_frame hle bw bh i v = Done v'"
  shows "unat (width v') = 2 * unat bw" "unat (height v') = (if i then 2 * unat bh else unat bh)"
proof -
  let ?w = "ucast bw * (2 :: u32)" and ?h = "if i then ucast bh * 2 else ucast bh :: u32"
  have small: "?w \<le> 768" "?h \<le> 560" "width v' = ucast ?w" "height v' = ucast ?h"
    using assms by (auto simp: mcd212_video_begin_frame_def Let_def split: if_splits)
  have "unat ?w = 2 * unat bw" "unat ?h = (if i then 2 * unat bh else unat bh)"
    using u16_less [of bw] u16_less [of bh] by (simp_all add: unat_word_ariths unsigned_ucast_eq take_bit_eq_mod)
  then show "unat (width v') = 2 * unat bw" "unat (height v') = (if i then 2 * unat bh else unat bh)"
    using small by (simp_all add: word_le_nat_alt unsigned_ucast_eq take_bit_eq_mod split: if_splits)
qed

interpretation backends: lockstep "video_step False" "video_step True" fits_frame progress_after alike
proof
  fix g v u op
  assume rel: "alike g v u" and fit: "fits_frame g op"
  obtain d w h where g: "g = (d, w, h)" by (cases g)
  have r: "video_ok d u" "visible u = visible v" "w = unat (width u)" "h = unat (height u)" using rel by (simp_all add: alike_def g)
  have same: "visible a = visible b \<Longrightarrow> width a = width b \<and> height a = height b" for a b by (simp add: visible_eq_iff)
  show "\<exists>u'. video_step True op u = Done (u', x) \<and> alike (progress_after g op) v' u'" if step: "video_step False op v = Done (v', x)" for v' x
  proof (cases op)
    case (Control p ins)
    then show ?thesis
      using control_follows [OF r(1,2), of p ins] step control_geometry [of p ins u] r(3,4)
      by (auto simp: follows_def alike_def g bindo_Done)
  next
    case (Begin_Frame bw bh i)
    then show ?thesis
      using begin_follows [OF r(1,2), of bw i bh] step fit begin_geometry [of True bw bh i u]
      by (auto simp: follows_def alike_def g bindo_Done split del: if_split)
  next
    case (Draw_Line m a b line wa wb)
    then have ref: "mcd212_video_draw_line False m a b line wa wb v = Done (v', x)" using step by simp
    obtain u' where u': "mcd212_video_draw_line True m a b line wa wb u = Done (u', x)" "visible u' = visible v'"
        "video_ok (if line < height u then max d (Suc (unat line) * unat (width u)) else d) u'"
      using draw_follows [OF r(1,2), of line m a b wa wb] ref by (fastforce simp: follows_def bindo_Done)
    then show ?thesis
      using Draw_Line draw_geometry [OF ref] same [OF u'(2)] same [OF r(2)] r(3,4) by (auto simp: alike_def g word_less_nat_alt)
  next
    case End_Frame
    then have v': "v' = mcd212_video_end_frame False v" "x = (0, 0)" using step by simp_all
    have "width (mcd212_video_end_frame hle v) = width v" "height (mcd212_video_end_frame hle v) = height v" for hle v
      by (simp_all add: mcd212_video_end_frame_def Let_def)
    then show ?thesis
      using End_Frame end_follows [OF r(1,2)] r(3,4) by (simp add: follows_def alike_def g v')
  qed
  show "\<exists>z'. video_step False op v = Done z'" if step: "video_step True op u = Done z" for z
  proof (cases op)
    case (Control p ins)
    then show ?thesis using step control_follows [OF r(1,2), of p ins] by (auto simp: follows_def bindo_Done)
  next
    case (Begin_Frame bw bh i)
    then show ?thesis using step fit begin_follows [OF r(1,2), of bw i bh] by (auto simp: follows_def bindo_Done g split del: if_split)
  next
    case (Draw_Line m a b line wa wb)
    obtain u' x where "mcd212_video_draw_line True m a b line wa wb u = Done (u', x)" using step Draw_Line by (cases z) auto
    then have "bindo (mcd212_video_draw_line True m a b line wa wb u) (\<lambda>(u', _). Done u') = Done u'" by simp
    then have "\<exists>v'. bindo (mcd212_video_draw_line False m a b line wa wb v) (\<lambda>(v', _). Done v') = Done v'"
      using draw_follows [OF r(1,2), of line m a b wa wb] unfolding follows_def by blast
    then show ?thesis using Draw_Line by (auto simp: bindo_Done)
  qed simp
qed

lemma reset_ok: "video_ok 0 mcd212_video_reset"
  by (simp add: video_ok_def registers_ok_def geometry_ok_def buffers_ok_def entries_true_def hash_ok_def mcd212_video_reset_def
      blank_registers_def blank_plane_def blank_line_def)

text \<open>
C3: The optimised video backend refines the reference backend: from reset, over every sequence of control words, frame starts, drawn
lines and publications whose geometry changes stay within what is drawn, both stop or both finish; they report the same consumption
for every line and end with the same registers, frames, snapshots and verdicts, the same published image and the same image hash.
\<close>
theorem video_backend_refines:
  assumes "within_frame (0, 768, 280) ops"
  shows "((\<exists>z. video_run True ops mcd212_video_reset = Done z) \<longleftrightarrow> (\<exists>z. video_run False ops mcd212_video_reset = Done z)) \<and>
    (\<forall>u us v vs. video_run True ops mcd212_video_reset = Done (u, us) \<and> video_run False ops mcd212_video_reset = Done (v, vs) \<longrightarrow>
      us = vs \<and> visible u = visible v \<and> published_pixels u = published_pixels v \<and>
      mcd212_video_frame_hash True u = mcd212_video_frame_hash False v)"
proof -
  have start: "alike (0, 768, 280) mcd212_video_reset mcd212_video_reset"
    using reset_ok by (simp add: alike_def mcd212_video_reset_def)
  have run: "(\<forall>v' xs. video_run False ops mcd212_video_reset = Done (v', xs) \<longrightarrow>
        (\<exists>u' g'. video_run True ops mcd212_video_reset = Done (u', xs) \<and> alike g' v' u')) \<and>
      (\<forall>z. video_run True ops mcd212_video_reset = Done z \<longrightarrow> (\<exists>z'. video_run False ops mcd212_video_reset = Done z'))"
    by (rule backends.run_follows [where every = within_frame, OF _ _ _ _ _ _ start assms]) simp_all
  have "published_pixels u = published_pixels v \<and> mcd212_video_frame_hash True u = mcd212_video_frame_hash False v \<and> visible u = visible v"
    if rel: "alike g v u" for g u v
  proof -
    obtain d where ok: "video_ok d u" "visible u = visible v" using rel by (auto simp: alike_def split: prod.splits)
    then have "hash_ok u" by (simp add: video_ok_def)
    then show ?thesis using ok(2) by (auto simp: visible_eq_iff published_pixels_def mcd212_video_frame_hash_def hash_ok_def Let_def)
  qed
  then show ?thesis using run by fastforce
qed

theorem video_backend_refines_witness:
  "\<exists>u v us. video_run True [Control 0 0xC0000003, Begin_Frame 384 240 False, End_Frame] mcd212_video_reset = Done (u, us) \<and>
     video_run False [Control 0 0xC0000003, Begin_Frame 384 240 False, End_Frame] mcd212_video_reset = Done (v, us) \<and>
     coding (plane (registers u) ! 0) = CODING_CLUT7 \<and> published_pixels u = published_pixels v"
proof -
  let ?ops = "[Control 0 0xC0000003, Begin_Frame 384 240 False, End_Frame]"
  define v1 where "v1 = mcd212_video_reset\<lparr>registers := upd_plane 1 (\<lambda>q. q\<lparr>coding := CODING_OFF\<rparr>) (upd_plane 0 (\<lambda>q. q\<lparr>coding := CODING_CLUT7\<rparr>) blank_registers),
    width := 768, height := 240\<rparr>"
  have fits: "within_frame (0, 768, 280) ?ops" by simp
  have "mcd212_video_control 0 0xC0000003 mcd212_video_reset = Done (v1\<lparr>height := 280\<rparr>)"
    by (simp add: mcd212_video_control_def control_registers_def Let_def v1_def mcd212_video_reset_def
        blank_registers_def upd_plane_def plane_a_coding_def plane_b_coding_def blank_plane_def)
  moreover have "mcd212_video_begin_frame False 384 240 False (v1\<lparr>height := 280\<rparr>) = Done v1"
    by (simp add: mcd212_video_begin_frame_def Let_def v1_def)
  ultimately have ref: "video_run False ?ops mcd212_video_reset = Done (mcd212_video_end_frame False v1, [(0, 0), (0, 0), (0, 0)])" by simp
  have clut: "coding (plane (registers (mcd212_video_end_frame False v1)) ! 0) = CODING_CLUT7"
    by (simp add: mcd212_video_end_frame_def Let_def v1_def upd_plane_def blank_registers_def)
  note both = video_backend_refines [OF fits]
  obtain u us where u: "video_run True ?ops mcd212_video_reset = Done (u, us)" using both ref by (metis surj_pair)
  have "us = [(0, 0), (0, 0), (0, 0)] \<and> visible u = visible (mcd212_video_end_frame False v1) \<and>
      published_pixels u = published_pixels (mcd212_video_end_frame False v1)"
    using both u ref by blast
  then show ?thesis using u ref clut unfolding visible_eq_iff by metis
qed

end
