(* ===== verification/Mcd212_Engine_Laws.thy ===== *)
theory Mcd212_Engine_Laws
  imports Board_Frame Phantom_Clock_Laws
begin

unbundle bit_operations_syntax

text \<open>
  Raster timing: control programs cannot change the timing bits, the raster and frame counters advance exactly
  with the line clock, every frame geometry the registers can select fits the pixel pipeline, and the loop of a
  clock quantum ends.
\<close>

section \<open>What control programs leave alone\<close>

text \<open>The timing bits with the raster position, the line phase, the frame counter and the clock.\<close>

definition raster_view :: "'v machine \<Rightarrow> u16 \<times> u16 \<times> u32 \<times> rat \<times> u64 \<times> PhantomClock" where
  "raster_view s = (vreg REG_DCR1 s AND 0xF000, vreg REG_CSR1W s, raster_line (vdsc s), line_phase_ns (vdsc s),
     g_frame_count s, m_nvram s)"

lemma keeps_modx: "(\<And>s. f (g s) = f s) \<Longrightarrow> keeps f (modx g)"
  by (simp add: keeps_def)

lemma vreg_set: "vreg a (set_vreg b v s) = (if a = b then v else vreg a s)"
  by (simp add: vreg_def set_vreg_def upd_vdsc_def)

lemma view_set_other: "b \<noteq> REG_CSR1W \<Longrightarrow> b \<noteq> REG_DCR1 \<Longrightarrow> raster_view (set_vreg b v s) = raster_view s"
  by (simp add: raster_view_def vreg_set) (simp add: set_vreg_def upd_vdsc_def)

lemma view_set_dcr: "v AND 0xF000 = vreg REG_DCR1 s AND 0xF000 \<Longrightarrow> raster_view (set_vreg REG_DCR1 v s) = raster_view s"
  by (simp add: raster_view_def vreg_set) (simp add: set_vreg_def upd_vdsc_def)

lemmas view_set_vreg = view_set_other view_set_dcr

lemmas mask_simps = bit.conj_disj_distrib2 and.assoc unsigned_and_eq push_bit_and

lemma view_set_video_start [simp]: "raster_view (set_video_start p a s) = raster_view s"
  by (simp add: set_video_start_def Let_def view_set_vreg vreg_set plane_dcr_def plane_vsr_def mask_simps)

lemma view_set_dcp [simp]: "raster_view (set_dynamic_control_pointer p a s) = raster_view s"
  by (simp add: set_dynamic_control_pointer_def Let_def view_set_vreg plane_ddr_def plane_dcp_def)

lemma view_display_parameters [simp]: "raster_view (apply_display_parameters p i s) = raster_view s"
  by (simp add: apply_display_parameters_def Let_def view_set_vreg plane_ddr_def plane_dcr_def mask_simps)

lemma view_signal [simp]: "raster_view (signal_control_interrupt p s) = raster_view s"
  by (simp add: signal_control_interrupt_def Let_def raster_view_def upd_vdsc_def vreg_def)

lemma keeps_flow: "keeps raster_view (execute_flow_command p i a b)"
  by (rule keepsI) (simp add: execute_flow_command_def Let_def)

lemma keeps_dram: "keeps f (read_dram_byte a)"
  by (rule keepsI) (simp add: read_dram_byte_def)

lemma keeps_fetch: "keeps f (fetch_control_instruction a)"
  by (simp add: fetch_control_instruction_def keeps_rules keeps_dram)

lemma keeps_videox: "keeps raster_view (videox g)"
  by (rule keepsI) (auto simp: videox_def raster_view_def vreg_def split: outcome.split prod.split)

lemmas view_rules = keeps_rules keeps_modx keeps_flow keeps_fetch keeps_videox

lemma keeps_case_prod: "(\<And>a b. keeps f (g a b)) \<Longrightarrow> keeps f (case x of (a, b) \<Rightarrow> g a b)"
  by (simp add: case_prod_unfold)

lemma keeps_initial_loop: "keeps raster_view (initial_area_loop p n a)"
  by (induction n arbitrary: a) (auto simp: video_control_def intro!: view_rules keeps_case_prod)

lemma keeps_dynamic_loop: "keeps raster_view (dynamic_area_loop p n)"
  by (induction n)
    (simp_all only: dynamic_area_loop.simps video_control_def, (intro view_rules keeps_case_prod view_set_dcp | assumption)+)

lemma keeps_areas: "keeps raster_view (run_initial_control_area p)" "keeps raster_view (run_dynamic_control_area p)"
  using keeps_initial_loop keeps_dynamic_loop
  by (auto simp: keeps_def run_initial_control_area_def run_dynamic_control_area_def Let_def)

lemma keeps_choice: "keeps f m \<Longrightarrow> keeps f n \<Longrightarrow> keeps f (\<lambda>s. if b s then m s else n s)"
  by (simp add: keeps_def)

lemma keeps_done: "keeps f (\<lambda>s. (Done x, s))"
  by (simp add: keeps_def)

lemma keeps_initial_areas: "keeps raster_view initial_control_areas"
  unfolding initial_control_areas_def by (intro keeps_thenx keeps_choice keeps_areas keeps_done)

lemma keeps_draw: "keeps raster_view (draw_active_line c)"
proof (rule keepsI)
  fix s0 :: board
  let ?m = "\<lambda>s. if \<not> display_enable s then (Done (), s)
         else
           let start_a = video_start 0 s; start_b = video_start 1 s
           in bindx (video_draw_line c) (\<lambda>(consumed_a, consumed_b).
              thenx (modx (set_video_start 0 (start_a + ucast consumed_a)))
             (thenx (modx (set_video_start 1 (start_b + ucast consumed_b)))
             (thenx (\<lambda>s. if vreg REG_DCR1 s AND 0x0300 = 0x0300 then run_dynamic_control_area 0 s else (Done (), s))
                    (\<lambda>s. if vreg REG_DCR2 s AND 0x0300 = 0x0300 then run_dynamic_control_area 1 s else (Done (), s))))) s"
  have b: "keeps raster_view (bindx (video_draw_line c) (\<lambda>(consumed_a, consumed_b).
              thenx (modx (set_video_start 0 (x + ucast consumed_a)))
             (thenx (modx (set_video_start 1 (y + ucast consumed_b)))
             (thenx (\<lambda>s. if vreg REG_DCR1 s AND 0x0300 = 0x0300 then run_dynamic_control_area 0 s else (Done (), s))
                    (\<lambda>s. if vreg REG_DCR2 s AND 0x0300 = 0x0300 then run_dynamic_control_area 1 s else (Done (), s))))))" for x y
    unfolding video_draw_line_def
    by (intro keeps_bindx keeps_videox keeps_case_prod keeps_thenx keeps_modx keeps_choice keeps_areas keeps_done view_set_video_start)
  have "keeps raster_view ?m"
    using keepsD [OF b] by (intro keepsI) (simp add: Let_def)
  then have "keeps raster_view (thenx (if image_line (vdsc s0) \<le> 1 then video_begin_frame c else ret ()) ?m)"
    unfolding video_begin_frame_def by (intro keeps_thenx keeps_if keeps_videox keeps_basic)
  from keepsD [OF this, of s0] show "raster_view (snd (draw_active_line c s0)) = raster_view s0"
    by (simp only: draw_active_line_def)
qed

section \<open>One raster line\<close>

lemma view_timing:
  assumes "raster_view s = raster_view t"
  shows "ntsc_duration s = ntsc_duration t" "interlaced s = interlaced t" "clock_format s = clock_format t"
    "standard_bit s = standard_bit t" "total_raster_lines s = total_raster_lines t" "blanking_lines s = blanking_lines t"
    "raster_line_period_ns s = raster_line_period_ns t" "raster_line (vdsc s) = raster_line (vdsc t)"
    "line_phase_ns (vdsc s) = line_phase_ns (vdsc t)" "g_frame_count s = g_frame_count t" "m_nvram s = m_nvram t"
proof -
  have v: "vreg REG_DCR1 s AND 0xF000 = vreg REG_DCR1 t AND 0xF000" "vreg REG_CSR1W s = vreg REG_CSR1W t"
    using assms by (simp_all add: raster_view_def)
  have "vreg REG_DCR1 s AND m = vreg REG_DCR1 t AND m" if "0xF000 AND m = m" for m
    using arg_cong [OF v(1), of "\<lambda>x. x AND m"] that by (simp add: and.assoc)
  then show d: "ntsc_duration s = ntsc_duration t" "interlaced s = interlaced t" "clock_format s = clock_format t"
    by (simp_all add: ntsc_duration_def interlaced_def clock_format_def)
  show "standard_bit s = standard_bit t" using v(2) by (simp add: standard_bit_def)
  then show "total_raster_lines s = total_raster_lines t" "blanking_lines s = blanking_lines t"
    "raster_line_period_ns s = raster_line_period_ns t"
    using d by (simp_all add: total_raster_lines_def blanking_lines_def raster_line_period_ns_def)
qed (use assms in \<open>simp_all add: raster_view_def\<close>)

lemma schedule_frame:
  "vdsc (cdi_input_schedule_advance f s) = vdsc s" "g_frame_count (cdi_input_schedule_advance f s) = g_frame_count s"
  "m_nvram (cdi_input_schedule_advance f s) = m_nvram s"
  by (induction f s rule: cdi_input_schedule_advance.induct; subst cdi_input_schedule_advance.simps; simp)+

lemma view_begin: "raster_view (begin_active_line s) = raster_view s"
  by (simp add: begin_active_line_def Let_def raster_view_def upd_vdsc_def vreg_def)

lemma finish_frame_done:
  assumes "finish_frame c s = (Done (), t)"
  shows "raster_line (vdsc t) = 0" "g_frame_count t = g_frame_count s + 1" "line_phase_ns (vdsc t) = line_phase_ns (vdsc s)"
    "vdsc_register (vdsc t) = vdsc_register (vdsc s)" "m_nvram t = m_nvram s"
  using assms by (auto simp: finish_frame_def Let_def schedule_frame upd_vdsc_def split: if_splits)

definition timing_view :: "'v machine \<Rightarrow> u16 \<times> u16 \<times> rat \<times> PhantomClock" where
  "timing_view s = (vreg REG_DCR1 s AND 0xF000, vreg REG_CSR1W s, line_phase_ns (vdsc s), m_nvram s)"

lemma keeps_done_state: "keeps f m \<Longrightarrow> m s = (r, t) \<Longrightarrow> f t = f s"
  using keepsD [of f m s] by simp

lemma thenx_cases:
  assumes "thenx m n s = (Done x, t)"
  obtains y s' where "m s = (Done y, s')" "n s' = (Done x, t)"
  using assms by (auto simp: thenx_def bindx_cases)

lemma advance_line:
  assumes "advance_one_raster_line c s = (Done (), t)" and "raster_line (vdsc s) < total_raster_lines s"
  shows "timing_view t = timing_view s"
    and "raster_line (vdsc t) = (if raster_line (vdsc s) + 1 = total_raster_lines s then 0 else raster_line (vdsc s) + 1)"
    and "g_frame_count t = g_frame_count s + (if raster_line (vdsc s) + 1 = total_raster_lines s then 1 else 0)"
proof -
  let ?s = "upd_vdsc (\<lambda>d. d\<lparr>raster_line := raster_line d + 1\<rparr>) s"
  have v: "timing_view ?s = timing_view s" "raster_line (vdsc ?s) = raster_line (vdsc s) + 1" "g_frame_count ?s = g_frame_count s"
    "total_raster_lines ?s = total_raster_lines s" "blanking_lines ?s = blanking_lines s"
    by (simp_all add: timing_view_def upd_vdsc_def vreg_def total_raster_lines_def blanking_lines_def ntsc_duration_def standard_bit_def)
  have tv: "raster_view a = raster_view b \<Longrightarrow> timing_view a = timing_view b" for a b :: "'v machine"
    by (simp add: raster_view_def timing_view_def)
  have u: "unat (raster_line (vdsc s) + 1) = unat (raster_line (vdsc s)) + 1" "unat (raster_line (vdsc s)) < unat (total_raster_lines s)"
    using assms(2) by (auto simp: word_less_nat_alt unat_word_ariths total_raster_lines_def split: if_splits)
  have bt: "unat (blanking_lines s) < unat (total_raster_lines s)" by (simp add: blanking_lines_def total_raster_lines_def)
  have ne: "raster_line (vdsc s) + 1 = total_raster_lines s \<longleftrightarrow> unat (raster_line (vdsc s)) + 1 = unat (total_raster_lines s)"
    using u(1) by (metis word_unat_eq_iff)
  have "timing_view t = timing_view s \<and>
     raster_line (vdsc t) = (if raster_line (vdsc s) + 1 = total_raster_lines s then 0 else raster_line (vdsc s) + 1) \<and>
     g_frame_count t = g_frame_count s + (if raster_line (vdsc s) + 1 = total_raster_lines s then 1 else 0)"
  proof (cases "raster_line (vdsc ?s) \<le> blanking_lines ?s")
    case True
    then have n: "raster_line (vdsc s) + 1 \<noteq> total_raster_lines s"
      using bt u unfolding ne v by (simp add: word_le_nat_alt)
    have rt: "raster_view t = raster_view ?s"
      using assms(1) True keeps_done_state [OF keeps_initial_areas] by (auto simp: advance_one_raster_line_def Let_def split: if_splits)
    show ?thesis using n v tv [OF rt] view_timing(8,10) [OF rt] by simp
  next
    case False
    define step where "step = (\<lambda>s :: board. (Done (), upd_vdsc (\<lambda>d. d\<lparr>image_line := image_line d + (if interlaced s then 2 else 1)\<rparr>) s))"
    from False assms(1) obtain a b where
      a: "draw_active_line c (begin_active_line ?s) = (Done (), a)" and b: "step a = (Done (), b)"
      and e: "(if raster_line (vdsc b) \<ge> total_raster_lines b then finish_frame c b else (Done (), b)) = (Done (), t)"
      by (auto simp: advance_one_raster_line_def Let_def step_def [symmetric] elim!: thenx_cases)
    have "raster_view b = raster_view a" using b by (auto simp: step_def raster_view_def upd_vdsc_def vreg_def)
    with keeps_done_state [OF keeps_draw a] have rb: "raster_view b = raster_view ?s" by (simp add: view_begin)
    note vb = view_timing [OF rb]
    show ?thesis
    proof (cases "raster_line (vdsc b) \<ge> total_raster_lines b")
      case True
      then have last: "raster_line (vdsc s) + 1 = total_raster_lines s"
        using u unfolding ne by (simp add: vb v word_le_nat_alt)
      from True e have f: "finish_frame c b = (Done (), t)" by simp
      have "timing_view t = timing_view b" using finish_frame_done [OF f] by (simp add: timing_view_def vreg_def)
      then show ?thesis using finish_frame_done [OF f] last tv [OF rb] vb(10) v by simp
    next
      case False
      then have "raster_line (vdsc s) + 1 \<noteq> total_raster_lines s"
        using u unfolding ne by (simp add: vb v word_le_nat_alt)
      moreover have "t = b" using False e by simp
      ultimately show ?thesis using tv [OF rb] vb(8,10) v by simp
    qed
  qed
  then show "timing_view t = timing_view s"
    and "raster_line (vdsc t) = (if raster_line (vdsc s) + 1 = total_raster_lines s then 0 else raster_line (vdsc s) + 1)"
    and "g_frame_count t = g_frame_count s + (if raster_line (vdsc s) + 1 = total_raster_lines s then 1 else 0)"
    by blast+
qed

section \<open>The line clock\<close>

text \<open>Where the raster stands after \<open>n\<close> more lines of a frame of \<open>total\<close>.\<close>

definition after_lines :: "nat \<Rightarrow> 'v machine \<Rightarrow> 'v machine \<Rightarrow> bool" where
  "after_lines n s t \<longleftrightarrow>
     (let total = unat (total_raster_lines s); position = unat (raster_line (vdsc s)) + n
      in unat (raster_line (vdsc t)) = position mod total \<and> g_frame_count t = g_frame_count s + of_nat (position div total))"

lemma timing_same:
  assumes "timing_view s = timing_view t"
  shows "total_raster_lines s = total_raster_lines t" "raster_line_period_ns s = raster_line_period_ns t"
    "line_phase_ns (vdsc s) = line_phase_ns (vdsc t)" "m_nvram s = m_nvram t"
proof -
  define u where "u = s\<lparr>g_frame_count := g_frame_count t, vdsc := (vdsc s)\<lparr>raster_line := raster_line (vdsc t)\<rparr>\<rparr>"
  have "raster_view u = raster_view t"
    using assms by (simp add: timing_view_def raster_view_def u_def vreg_def)
  note v = view_timing [OF this]
  have "total_raster_lines u = total_raster_lines s" "raster_line_period_ns u = raster_line_period_ns s"
    by (simp_all add: u_def total_raster_lines_def raster_line_period_ns_def ntsc_duration_def clock_format_def vreg_def)
  then show "total_raster_lines s = total_raster_lines t" "raster_line_period_ns s = raster_line_period_ns t" using v by simp_all
qed (use assms in \<open>simp_all add: timing_view_def\<close>)

lemma after_line:
  assumes "advance_one_raster_line c s = (Done (), t)" and "raster_line (vdsc s) < total_raster_lines s"
    and "after_lines n t u"
  shows "after_lines (Suc n) s u"
proof -
  note a = advance_line [OF assms(1,2)]
  let ?r = "unat (raster_line (vdsc s))" and ?t = "unat (total_raster_lines s)"
  have lt: "?r < ?t" using assms(2) by (simp add: word_less_nat_alt)
  have u: "unat (raster_line (vdsc s) + 1) = ?r + 1"
    using lt by (simp add: unat_word_ariths total_raster_lines_def split: if_splits)
  have e: "raster_line (vdsc s) + 1 = total_raster_lines s \<longleftrightarrow> ?r + 1 = ?t" using u by (metis word_unat_eq_iff)
  have "(?r + Suc n) mod ?t = n mod ?t \<and> (?r + Suc n) div ?t = Suc (n div ?t)" if "?r + 1 = ?t"
  proof -
    have "?r + Suc n = n + ?t" using that by simp
    then show ?thesis using lt by (simp only: mod_add_self2 div_add_self2) simp
  qed
  then show ?thesis
    using assms(3) a(2,3) timing_same(1) [OF a(1)] u e by (auto simp: after_lines_def Let_def split: if_splits)
qed

lemma raster_line_kept:
  assumes "advance_one_raster_line c s = (Done (), t)" and "raster_line (vdsc s) < total_raster_lines s"
  shows "raster_line (vdsc t) < total_raster_lines t"
proof -
  have "total_raster_lines t = total_raster_lines s" using timing_same(1) [OF advance_line(1) [OF assms]] .
  moreover have "raster_line (vdsc s) + 1 \<noteq> total_raster_lines s \<Longrightarrow> raster_line (vdsc s) + 1 < total_raster_lines s"
    using assms(2) by (metis inc_le order_le_neq_trans)
  moreover have "0 < total_raster_lines s" by (simp add: total_raster_lines_def)
  ultimately show ?thesis using advance_line(2) [OF assms] by simp
qed

lemma period_cases: "raster_line_period_ns s = 63560 \<or> raster_line_period_ns s = 64000"
  by (simp add: raster_line_period_ns_def)

lemma dsub_period:
  assumes "is_double x" and "x < 2 ^ 53" and "raster_line_period_ns s \<le> x"
  shows "dsub x (raster_line_period_ns s) = x - raster_line_period_ns s"
  using assms period_cases [of s] dsub_exact [of x 0 "raster_line_period_ns s" "\<lfloor>raster_line_period_ns s\<rfloor>"] by auto

lemma raster_loop_runs:
  assumes "is_double (line_phase_ns (vdsc s))" and "0 \<le> line_phase_ns (vdsc s)" and "line_phase_ns (vdsc s) < 2 ^ 53"
    and "raster_line (vdsc s) < total_raster_lines s"
  shows "\<exists>r t. raster_loop c s = Some (r, t) \<and> (r = Done () \<longrightarrow>
    (let n = nat \<lfloor>line_phase_ns (vdsc s) / raster_line_period_ns s\<rfloor>
     in line_phase_ns (vdsc t) = line_phase_ns (vdsc s) - of_nat n * raster_line_period_ns s \<and> after_lines n s t \<and>
        raster_line (vdsc t) < total_raster_lines t \<and> raster_line_period_ns t = raster_line_period_ns s \<and> m_nvram t = m_nvram s))"
  using assms
proof (induction "nat \<lfloor>line_phase_ns (vdsc s) / raster_line_period_ns s\<rfloor>" arbitrary: s)
  case 0
  have p: "0 < raster_line_period_ns s" using period_cases [of s] by auto
  from 0 p have "line_phase_ns (vdsc s) < raster_line_period_ns s" by (simp add: floor_less_iff zero_le_divide_iff le_less_linear)
  then have "raster_loop c s = Some (Done (), s)" by (subst raster_loop.simps) simp
  then show ?case using 0 by (simp add: after_lines_def word_less_nat_alt)
next
  case (Suc n)
  let ?p = "raster_line_period_ns s" and ?x = "line_phase_ns (vdsc s)"
  let ?s = "upd_vdsc (\<lambda>d. d\<lparr>line_phase_ns := dsub (line_phase_ns d) ?p\<rparr>) s"
  have p: "0 < ?p" using period_cases [of s] by auto
  have "1 \<le> \<lfloor>?x / ?p\<rfloor>" using Suc.hyps(2) by linarith
  then have ge: "?p \<le> ?x" using p by (simp add: le_floor_iff le_divide_eq)
  have d: "dsub ?x ?p = ?x - ?p" using Suc.prems ge by (intro dsub_period)
  have same: "raster_line (vdsc ?s) = raster_line (vdsc s)" "total_raster_lines ?s = total_raster_lines s"
    "raster_line_period_ns ?s = ?p" "m_nvram ?s = m_nvram s" "g_frame_count ?s = g_frame_count s"
    by (simp_all add: upd_vdsc_def total_raster_lines_def raster_line_period_ns_def ntsc_duration_def clock_format_def vreg_def)
  have phase: "line_phase_ns (vdsc ?s) = ?x - ?p" by (simp add: upd_vdsc_def d)
  obtain r t where a: "advance_one_raster_line c ?s = (r, t)" by fastforce
  have l: "raster_loop c s = (if r = Done () then raster_loop c t else Some (r, t))"
    using ge a by (subst raster_loop.simps) simp
  show ?case
  proof (cases "r = Done ()")
    case True
    then have a': "advance_one_raster_line c ?s = (Done (), t)" using a by simp
    have lt: "raster_line (vdsc ?s) < total_raster_lines ?s" using Suc.prems same by simp
    note ts = timing_same [OF advance_line(1) [OF a' lt]]
    have ph: "line_phase_ns (vdsc t) = ?x - ?p" "raster_line_period_ns t = ?p" "m_nvram t = m_nvram s" using ts same phase by simp_all
    have n: "n = nat \<lfloor>line_phase_ns (vdsc t) / raster_line_period_ns t\<rfloor>"
      using Suc.hyps(2) p by (simp add: ph diff_divide_distrib)
    have "is_double (line_phase_ns (vdsc t))" using ts(3) d phase by (metis is_double_ops(2))
    moreover have "?x - ?p < 2 ^ 53" using p Suc.prems(3) by linarith
    ultimately have "0 \<le> line_phase_ns (vdsc t)" "line_phase_ns (vdsc t) < 2 ^ 53" "is_double (line_phase_ns (vdsc t))"
      using ph ge by simp_all
    from Suc.hyps(1) [OF n this(3,1,2), unfolded n [symmetric] Let_def] ph ge Suc.prems raster_line_kept [OF a' lt] obtain r' u where
      u: "raster_loop c t = Some (r', u)" and w: "r' = Done () \<Longrightarrow>
        line_phase_ns (vdsc u) = ?x - ?p - of_nat n * ?p \<and> after_lines n t u \<and>
        raster_line (vdsc u) < total_raster_lines u \<and> raster_line_period_ns u = ?p \<and> m_nvram u = m_nvram s"
      by auto
    have "after_lines (Suc n) s u" if "r' = Done ()"
      using after_line [OF a' lt, of n u] w [OF that] same by (simp add: after_lines_def Let_def)
    then show ?thesis using l True u w by (simp add: Let_def Suc.hyps(2) [symmetric] algebra_simps)
  next
    case False
    then show ?thesis using l by simp
  qed
qed

section \<open>A clock quantum returns\<close>

lemma elapsed_bounds:
  assumes "0 \<le> x" and "x < 10000000"
  shows "0 \<le> dadd x (dmul (of_nat (unat (cycles :: u32))) cycle_ns)"
    and "dadd x (dmul (of_nat (unat cycles)) cycle_ns) < 2 ^ 53"
proof -
  let ?k = "of_nat (unat cycles) :: rat"
  let ?y = "dmul ?k cycle_ns"
  have "(of_nat (unat cycles) :: rat) < of_nat (2 ^ 32)" using u32_less [of cycles] by (subst of_nat_less_iff) simp
  moreover have "0 \<le> ?k" by (rule of_nat_0_le_iff)
  ultimately have k: "?k < 2 ^ 32" "0 \<le> ?k" by simp_all
  have c: "0 < cycle_ns" "cycle_ns \<le> 67" using cycle_ns_bounds by simp_all
  have "?k * cycle_ns \<le> 2 ^ 32 * 67" using k c by (intro mult_mono) linarith+
  moreover have "0 \<le> ?k * cycle_ns" using k c by simp
  ultimately have y: "0 \<le> ?y" "?y \<le> 2 ^ 32 * 67 + 2 ^ 32 * 67"
    using round64_crude [of "?k * cycle_ns"] unfolding dmul_def by linarith+
  then have "0 \<le> x + ?y" "x + ?y \<le> 10000000 + 2 ^ 40" using assms by simp_all
  with round64_crude [of "x + ?y"] show "0 \<le> dadd x ?y" "dadd x ?y < 2 ^ 53" by (simp_all add: dadd_def)
qed

lemma increment_clock_returns:
  assumes "0 \<le> sub_hundredth_ns r" and "sub_hundredth_ns r < hundredth_ns"
  shows "\<exists>r'. nvram_increment_clock (dmul (of_nat (unat (cycles :: u32))) cycle_ns) r = Some r' \<and>
    0 \<le> sub_hundredth_ns r' \<and> sub_hundredth_ns r' < hundredth_ns"
proof (cases "oscillator_off r")
  case True
  then show ?thesis using assms by (simp add: nvram_increment_clock_def)
next
  case False
  define x where "x = dadd (sub_hundredth_ns r) (dmul (of_nat (unat cycles)) cycle_ns)"
  have x: "0 \<le> x" "x < 2 ^ 60" "is_double x"
    using elapsed_bounds [of "sub_hundredth_ns r" cycles] assms by (auto simp: x_def intro: order_less_trans)
  define k where "k = nat \<lfloor>x / hundredth_ns\<rfloor>"
  have k: "int k = \<lfloor>x / hundredth_ns\<rfloor>" using x by (simp add: k_def)
  have "of_int (int k) \<le> x / hundredth_ns" "x / hundredth_ns < of_int (int k) + 1" unfolding k by linarith+
  then have "0 \<le> x - of_nat k * hundredth_ns" "x - of_nat k * hundredth_ns < hundredth_ns" by (simp_all add: field_simps)
  then show ?thesis
    using False x drain_hundredths_eq [of "r\<lparr>sub_hundredth_ns := x\<rparr>"]
    unfolding nvram_increment_clock_def x_def [symmetric] by (simp add: Let_def flip: k_def)
qed

lemma pace_frame:
  "vdsc (runtime_pace_cycles n s) = vdsc s" "g_frame_count (runtime_pace_cycles n s) = g_frame_count s"
  "m_nvram (runtime_pace_cycles n s) = m_nvram s" "total_raster_lines (runtime_pace_cycles n s) = total_raster_lines s"
  "raster_line_period_ns (runtime_pace_cycles n s) = raster_line_period_ns s"
  by (simp_all add: runtime_pace_cycles_def Let_def total_raster_lines_def raster_line_period_ns_def ntsc_duration_def
      clock_format_def vreg_def)

text \<open>
C4: A clock quantum of any number of cycles returns, from every state whose line phase is below a line, whose clock phase
is below a hundredth of a second and whose raster position is inside the frame, whatever the control programs, sectors and
pixels are. Unless the program ends in it (a control program or plane outside display memory, the stop frame), it advances
the raster by exactly the whole line periods in the accumulated phase: the raster position and the frame counter move by that many
lines of 262 or 312, the remainder is the new phase, and the three conditions hold again.
\<close>
theorem tick_returns:
  assumes "0 \<le> line_phase_ns (vdsc s)" and "line_phase_ns (vdsc s) < 64000"
    and "0 \<le> sub_hundredth_ns (m_nvram s)" and "sub_hundredth_ns (m_nvram s) < hundredth_ns"
    and "raster_line (vdsc s) < total_raster_lines s"
  shows "\<exists>r t. mcd212_tick c cycles s = Some (r, t) \<and> (r = Done () \<longrightarrow>
    (let x = dadd (line_phase_ns (vdsc s)) (dmul (of_nat (unat cycles)) cycle_ns); n = nat \<lfloor>x / raster_line_period_ns s\<rfloor>
     in line_phase_ns (vdsc t) = x - of_nat n * raster_line_period_ns s \<and> after_lines n s t \<and>
        0 \<le> line_phase_ns (vdsc t) \<and> line_phase_ns (vdsc t) < raster_line_period_ns t \<and>
        0 \<le> sub_hundredth_ns (m_nvram t) \<and> sub_hundredth_ns (m_nvram t) < hundredth_ns \<and>
        raster_line (vdsc t) < total_raster_lines t))"
proof -
  define e where "e = dmul (of_nat (unat cycles)) cycle_ns"
  let ?x = "dadd (line_phase_ns (vdsc s)) e" and ?p = "raster_line_period_ns s"
  obtain r' where r': "nvram_increment_clock e (m_nvram s) = Some r'" "0 \<le> sub_hundredth_ns r'" "sub_hundredth_ns r' < hundredth_ns"
    using increment_clock_returns [OF assms(3,4)] unfolding e_def by blast
  then obtain s1 where s1: "board_devices cycles e s = Some s1" using board_devices_return [of cycles e s] by auto
  note f = board_devices_frame [OF s1]
  let ?s2 = "upd_vdsc (\<lambda>d. d\<lparr>line_phase_ns := dadd (line_phase_ns d) e\<rparr>) s1"
  have same: "line_phase_ns (vdsc ?s2) = ?x" "raster_line (vdsc ?s2) = raster_line (vdsc s)" "g_frame_count ?s2 = g_frame_count s"
    "total_raster_lines ?s2 = total_raster_lines s" "raster_line_period_ns ?s2 = ?p" "m_nvram ?s2 = r'"
    using f r'(1) by (simp_all add: upd_vdsc_def total_raster_lines_def raster_line_period_ns_def ntsc_duration_def clock_format_def vreg_def)
  have x: "0 \<le> ?x" "?x < 2 ^ 53" using elapsed_bounds [of "line_phase_ns (vdsc s)" cycles] assms(1,2) unfolding e_def by linarith+
  from raster_loop_runs [of ?s2 c] same x assms(5) obtain r t where loop: "raster_loop c ?s2 = Some (r, t)"
    and t: "r = Done () \<Longrightarrow> line_phase_ns (vdsc t) = ?x - of_nat (nat \<lfloor>?x / ?p\<rfloor>) * ?p \<and> after_lines (nat \<lfloor>?x / ?p\<rfloor>) ?s2 t \<and>
        raster_line (vdsc t) < total_raster_lines t \<and> raster_line_period_ns t = ?p \<and> m_nvram t = r'"
    by (auto simp: Let_def)
  have p: "0 < ?p" using period_cases [of s] by auto
  then have "of_int \<lfloor>?x / ?p\<rfloor> * ?p \<le> ?x" "?x < of_int \<lfloor>?x / ?p\<rfloor> * ?p + ?p"
    using floor_divide_lower [OF p, of ?x] floor_divide_upper [OF p, of ?x] by (simp_all add: algebra_simps)
  moreover have "of_nat (nat \<lfloor>?x / ?p\<rfloor>) = (of_int \<lfloor>?x / ?p\<rfloor> :: rat)" using x(1) p by simp
  ultimately have b: "0 \<le> ?x - of_nat (nat \<lfloor>?x / ?p\<rfloor>) * ?p" "?x - of_nat (nat \<lfloor>?x / ?p\<rfloor>) * ?p < ?p" by simp_all
  have "mcd212_tick c cycles s = Some (r, if r = Done () then runtime_pace_cycles cycles t else t)"
    by (simp only: mcd212_tick_def Let_def e_def [symmetric] s1 Option.bind.simps loop option.map prod.case)
  moreover have "after_lines n ?s2 u = after_lines n s u" for n u by (simp only: after_lines_def same)
  ultimately show ?thesis using t b r'(2,3) unfolding e_def [symmetric] by (auto simp: Let_def pace_frame after_lines_def)
qed

theorem tick_returns_witness:
  "\<exists>r t. mcd212_tick \<lparr>video_hle = True, g_stop_frame = 0\<rparr> 1000000 stopped_board = Some (r, t)"
proof -
  have "raster_line (vdsc stopped_board) < total_raster_lines stopped_board"
    by (simp add: stopped_board_def drive_board.defs machine.defs total_raster_lines_def)
  then show ?thesis
    using tick_returns [of stopped_board "\<lparr>video_hle = True, g_stop_frame = 0\<rparr>" 1000000] reset_locked(6)
    by (auto simp: stopped_board_fields)
qed

section \<open>Geometry and pointers\<close>

text \<open>
C38: Whatever the display registers hold, the frame the engine opens fits the pixel pipeline: opening it never ends the
program, the frame is at most 768 by 560 pixels, and neither plane is ever asked for more than 768 source pixels per line.
\<close>
theorem frame_geometry_fits:
  "\<exists>v. video_begin_frame c s = (Done (), s\<lparr>m_video := v\<rparr>) \<and> width v \<le> 768 \<and> height v \<le> 560 \<and>
     ucast (width v) = 2 * raster_width s \<and> plane_width p (raster_width s) s \<le> 768"
proof -
  have w: "raster_width s = 360 \<or> raster_width s = 384" and h: "raster_height s = 240 \<or> raster_height s = 280"
    by (simp_all add: raster_width_def raster_height_def)
  obtain v where v: "mcd212_video_begin_frame (video_hle c) (ucast (raster_width s)) (ucast (raster_height s)) (interlaced s) (m_video s) = Done v"
    "width v \<le> 768" "height v \<le> 560" "ucast (width v) = 2 * raster_width s"
    using w h by (cases "interlaced s") (auto simp: mcd212_video_begin_frame_def Let_def)
  moreover have "plane_width p (raster_width s) s \<le> 768" using w by (auto simp: plane_width_def)
  ultimately show ?thesis by (intro exI [of _ v]) (simp add: video_begin_frame_def videox_def)
qed

text \<open>
The live pointers are independent 22-bit registers: setting the video start of a plane gives exactly the low 22 bits
back, leaves the other plane's and both control pointers alone, and keeps display enable, clock format, frame duration and
scan mode; likewise for a control pointer.
\<close>
theorem live_pointers_roundtrip:
  assumes "p < 2" and "q < 2"
  shows "video_start q (set_video_start p a s) = (if q = p then a AND 0x3FFFFF else video_start q s)"
    and "dynamic_control_pointer q (set_video_start p a s) = dynamic_control_pointer q s"
    and "dynamic_control_pointer q (set_dynamic_control_pointer p a s) = (if q = p then a AND 0x3FFFFF else dynamic_control_pointer q s)"
    and "video_start q (set_dynamic_control_pointer p a s) = video_start q s"
    and "vreg REG_DCR1 (set_video_start p a s) AND 0xF000 = vreg REG_DCR1 s AND 0xF000"
proof -
  have j: "push_bit 16 (ucast (ucast (drop_bit 16 a AND 0x3F) :: u16)) OR ucast (ucast a :: u16) = a AND 0x3FFFFF"
  proof -
    have m: "(0x3F :: u32) = mask 6" "(0x3FFFFF :: u32) = mask 22" by (simp_all add: mask_eq_exp_minus_1)
    show ?thesis unfolding m by (rule bit_word_eqI) (auto simp: bit_simps)
  qed
  show "video_start q (set_video_start p a s) = (if q = p then a AND 0x3FFFFF else video_start q s)"
    "dynamic_control_pointer q (set_video_start p a s) = dynamic_control_pointer q s"
    "dynamic_control_pointer q (set_dynamic_control_pointer p a s) = (if q = p then a AND 0x3FFFFF else dynamic_control_pointer q s)"
    "video_start q (set_dynamic_control_pointer p a s) = video_start q s"
    "vreg REG_DCR1 (set_video_start p a s) AND 0xF000 = vreg REG_DCR1 s AND 0xF000"
    using assms j
    by (auto simp: video_start_def dynamic_control_pointer_def read_pointer_def set_video_start_def set_dynamic_control_pointer_def
        vreg_set plane_dcr_def plane_vsr_def plane_ddr_def plane_dcp_def mask_simps unsigned_or_eq push_bit_or Let_def less_2_cases_iff)
qed

theorem live_pointers_roundtrip_witness:
  "video_start 1 (set_video_start 1 0xFF212345 stopped_board) = 0x212345 \<and>
   dynamic_control_pointer 0 (set_dynamic_control_pointer 0 0x404 stopped_board) = 0x404"
  using live_pointers_roundtrip(1) [of 1 1 "0xFF212345" stopped_board] live_pointers_roundtrip(3) [of 0 0 "0x404" stopped_board] by simp

text \<open>
  With 312 lines and the 64 us line clock the lines the raster displays and the height of the frame differ, whatever
  CSR1W says: the two functions read its bit 1 with opposite meaning.
\<close>

lemma pal_height_mismatch:
  "\<not> ntsc_duration s \<Longrightarrow> \<not> clock_format s \<Longrightarrow> total_raster_lines s - blanking_lines s \<noteq> raster_height s"
  by (simp add: total_raster_lines_def blanking_lines_def raster_height_def)

end
