(* ===== verification/Board_Job.thy ===== *)
theory Board_Job
  imports Board_Frame Scc_Timer_Laws Ciap_Laws Ikat_Time Phantom_Clock_Laws
begin

unbundle bit_operations_syntax

text \<open>
  The idle batch of a stopped processor (\<open>cdi_board_idle_quanta\<close> of \<^verbatim>\<open>runner/src/mcd212.c\<close> with its header
  \<^verbatim>\<open>cdi_board_jobs.h\<close>): up to 64 clock quanta in which no device has an observable event are applied at once.
  The laws show that the batch leaves the machine that single clock quanta leave, with the front end's pumps at
  their original places; they rest on the quiet-device contracts of the four board devices.
\<close>

section \<open>The batch\<close>

record CdiBoardJobState =
  jobs :: u64
  quiet_quanta :: u64
  faithful_quanta :: u64
  observation_exits :: u64

definition runtime_pacing_quiet_quanta :: "u32 \<Rightarrow> 'v machine \<Rightarrow> u32" where
  "runtime_pacing_quiet_quanta maximum s =
     (if \<not> s_realtime_pacing s then maximum
      else if s_pace_pending_cycles s \<ge> CDI_PACE_CHUNK_CYCLES then 0
      else let quiet = (CDI_PACE_CHUNK_CYCLES - s_pace_pending_cycles s - 1) div 25
           in if quiet < ucast maximum then ucast quiet else maximum)"

text \<open>\<open>phase_count left q period phase\<close> counts the quanta, at most \<open>left\<close>, that end before the next raster line.\<close>

fun phase_count :: "nat \<Rightarrow> rat \<Rightarrow> rat \<Rightarrow> rat \<Rightarrow> nat" where
  "phase_count 0 q period phase = 0"
| "phase_count (Suc left) q period phase =
     (let next = dadd phase q in if next \<ge> period then 0 else Suc (phase_count left q period next))"

definition quantum_ns :: rat where
  "quantum_ns = dmul 25 cycle_ns"

definition integer_ns :: u64 where
  "integer_ns = to_u64 quantum_ns"

definition idle_limit :: "u32 \<Rightarrow> 'v machine \<Rightarrow> nat" where
  "idle_limit maximum s =
     (let l0 = (if maximum < 64 then maximum else 64);
          l1 = periph_quiet_quanta l0 (m_periph s);
          l2 = slave_quiet_quanta l1 integer_ns s;
          l3 = cdi_streaming_quiet_quanta l2 integer_ns 0 (b_ciap s);
          l4 = runtime_pacing_quiet_quanta l3 s;
          l5 = nvram_quiet_quanta (unat l4) quantum_ns (m_nvram s)
      in phase_count l5 quantum_ns (raster_line_period_ns s) (line_phase_ns (vdsc s)))"

text \<open>
  The host's side of the batch. \<open>job_allowed\<close> is the debugger's permission on entry, \<open>observer k\<close> whether it still admits batches, with its epoch unchanged,
  at the check before quantum \<open>k\<close>; \<open>pump\<close> is the front end's callback, where there is one: whether to go on, and
  what it does to the machine.
\<close>

record host_view =
  job_allowed :: bool
  observer :: "nat \<Rightarrow> bool"
  pump :: "(nat \<Rightarrow> board \<Rightarrow> bool \<times> board) option"

definition call_pump :: "host_view \<Rightarrow> nat \<Rightarrow> board \<Rightarrow> bool \<times> board" where
  "call_pump h completed s =
     (if completed = 0 then (True, s) else case pump h of None \<Rightarrow> (True, s) | Some f \<Rightarrow> f completed s)"

definition admitted :: "host_view \<Rightarrow> u64 \<Rightarrow> nat \<Rightarrow> board \<Rightarrow> bool" where
  "admitted h media completed s \<longleftrightarrow>
     g_halted s \<and> observer h completed \<and> media_generation (b_media s) = media \<and> recomp_pending_irq_mask (b_irq s) = 0"

text \<open>The loop over the admitted quanta: their number and phase, whether the pump quit, whether the check failed.\<close>

fun idle_loop :: "host_view \<Rightarrow> u64 \<Rightarrow> nat \<Rightarrow> nat \<Rightarrow> rat \<Rightarrow> board \<Rightarrow> nat \<times> rat \<times> bool \<times> bool \<times> board" where
  "idle_loop h media 0 completed phase s = (completed, phase, False, False, s)"
| "idle_loop h media (Suc left) completed phase s =
     (let (go, s1) = call_pump h completed s
      in if \<not> go then (completed, phase, True, False, s1)
         else if \<not> admitted h media completed s1 then (completed, phase, False, True, s1)
         else idle_loop h media left (Suc completed) (dadd phase quantum_ns) s1)"

definition apply_quiet :: "nat \<Rightarrow> rat \<Rightarrow> 'v machine \<Rightarrow> 'v machine" where
  "apply_quiet completed phase s =
     (let s1 = s\<lparr>m_periph := periph_advance_quiet (of_nat completed * 25) (m_periph s)\<rparr>;
          s2 = slave_advance_quiet (of_nat completed * integer_ns) s1;
          s3 = cdic_increment_time (to_u64 (of_nat (unat (of_nat completed * integer_ns)))) s2;
          s4 = s3\<lparr>m_nvram := nvram_advance_quiet completed quantum_ns (m_nvram s3),
                  g_total_cycles := g_total_cycles s3 + of_nat completed * 25\<rparr>;
          s5 = upd_vdsc (\<lambda>d. d\<lparr>line_phase_ns := phase\<rparr>) s4
      in runtime_pace_cycles (of_nat completed * 25) s5)"

definition cdi_board_idle_quanta ::
    "display_config \<Rightarrow> host_view \<Rightarrow> u32 \<Rightarrow> bool \<Rightarrow> board \<times> CdiBoardJobState \<Rightarrow>
     ((u32 \<times> bool) outcome \<times> board \<times> CdiBoardJobState) option" where
  "cdi_board_idle_quanta c h maximum quit = (\<lambda>(s, j).
     (if \<not> g_halted s \<or> \<not> job_allowed h \<or> recomp_pending_irq_mask (b_irq s) \<noteq> 0
      then Some (Done (0, quit), s, j\<lparr>faithful_quanta := faithful_quanta j + 1\<rparr>)
      else if idle_limit maximum s < 2
      then Some (Done (0, quit), s, j\<lparr>faithful_quanta := faithful_quanta j + 1\<rparr>)
      else
        let (completed, phase, stopped, critical, s1) =
              idle_loop h (media_generation (b_media s)) (idle_limit maximum s) 0 (line_phase_ns (vdsc s)) s;
            j1 = (if critical then j\<lparr>observation_exits := observation_exits j + 1\<rparr> else j);
            s2 = (if completed \<noteq> 0 then apply_quiet completed phase s1 else s1);
            j2 = (if completed \<noteq> 0 then j1\<lparr>jobs := jobs j1 + 1, quiet_quanta := quiet_quanta j1 + of_nat completed\<rparr> else j1);
            quit' = (quit \<or> stopped)
        in if critical \<and> completed \<noteq> 0 \<and> g_halted s2 \<and> \<not> quit'
           then map_option (\<lambda>(r, s3). case r of
                  Done _ \<Rightarrow> (Done (of_nat completed + 1, quit'), s3, j2\<lparr>faithful_quanta := faithful_quanta j2 + 1\<rparr>)
                | Bus_Error a \<Rightarrow> (Bus_Error a, s3, j2) | Aborted \<Rightarrow> (Aborted, s3, j2) | Undefined \<Rightarrow> (Undefined, s3, j2))
                (mcd212_tick c 25 s2)
           else Some (Done (of_nat completed, quit'), s2, j2)))"

section \<open>The quantum\<close>

lemma quantum_bounds: "1655 \<le> dmul 25 cycle_ns" "dmul 25 cycle_ns < 1656"
proof -
  note c = cycle_ns_bounds
  then have "\<bar>dmul 25 cycle_ns - 25 * cycle_ns\<bar> \<le> 25 * cycle_ns / 2 ^ 53"
    using round_pos_error [of "25 * cycle_ns"] by (simp add: dmul_def round64_def)
  then have "25 * cycle_ns - 25 * cycle_ns / 2 ^ 53 \<le> dmul 25 cycle_ns" "dmul 25 cycle_ns \<le> 25 * cycle_ns + 25 * cycle_ns / 2 ^ 53"
    by linarith+
  with c show "1655 \<le> dmul 25 cycle_ns" "dmul 25 cycle_ns < 1656" by (simp_all add: abs_le_iff)
qed
lemma integer_ns_eq [simp]: "integer_ns = 1655"
proof -
  have "\<lfloor>dmul 25 cycle_ns\<rfloor> = 1655" using quantum_bounds by (intro floor_unique) simp_all
  then show ?thesis by (simp add: to_u64_def integer_ns_def quantum_ns_def)
qed

section \<open>What a batch admits\<close>

abbreviation "quanta_phase n \<equiv> ((\<lambda>x. dadd x quantum_ns) ^^ n)"

lemma phase_count_iff:
  "k \<le> phase_count m q t x \<longleftrightarrow> k \<le> m \<and> (\<forall>j. 1 \<le> j \<and> j \<le> k \<longrightarrow> ((\<lambda>x. dadd x q) ^^ j) x < t)"
proof (induction m arbitrary: k x)
  case (Suc m)
  show ?case
  proof (cases k)
    case (Suc i)
    have "(\<forall>j. 1 \<le> j \<and> j \<le> Suc i \<longrightarrow> ((\<lambda>x. dadd x q) ^^ j) x < t) \<longleftrightarrow>
        dadd x q < t \<and> (\<forall>j. 1 \<le> j \<and> j \<le> i \<longrightarrow> ((\<lambda>x. dadd x q) ^^ j) (dadd x q) < t)" (is "?l \<longleftrightarrow> ?r")
    proof
      assume l: ?l
      show ?r
      proof (intro conjI allI impI)
        show "dadd x q < t" using l [rule_format, of 1] by simp
        fix j assume "1 \<le> j \<and> j \<le> i"
        then show "((\<lambda>x. dadd x q) ^^ j) (dadd x q) < t"
          using l [rule_format, of "Suc j"] by (simp add: funpow_Suc_front del: funpow.simps)
      qed
    next
      assume r: ?r
      show ?l
      proof (intro allI impI)
        fix j assume j: "1 \<le> j \<and> j \<le> Suc i"
        then obtain j' where j': "j = Suc j'" by (cases j) auto
        show "((\<lambda>x. dadd x q) ^^ j) x < t"
          using r j by (cases "j' = 0") (auto simp: j' funpow_Suc_front simp del: funpow.simps(2))
      qed
    qed
    then show ?thesis by (simp add: Suc Suc.IH not_le Let_def)
  qed simp
qed auto

lemma quiet_count_phase: "quiet_count m q x = phase_count m q hundredth_ns x"
  by (induction m arbitrary: x) (simp_all add: Let_def)

definition board_inv :: "'v machine \<Rightarrow> bool" where
  "board_inv s \<longleftrightarrow> periph_inv (m_periph s) \<and> ikat_idle_inv s \<and> ciap_inv (b_ciap s)"

definition ciap_admits :: "nat \<Rightarrow> CiapDevice \<Rightarrow> bool" where
  "ciap_admits k c \<longleftrightarrow> next_deadline c = UINT64_MAX \<or> k \<le> (unat (next_deadline c) - 1) div 1655"

definition pacing_admits :: "nat \<Rightarrow> 'v machine \<Rightarrow> bool" where
  "pacing_admits k s \<longleftrightarrow> \<not> s_realtime_pacing s \<or> k = 0 \<or> unat (s_pace_pending_cycles s) + 25 * k < 151049"

definition nvram_admits :: "nat \<Rightarrow> PhantomClock \<Rightarrow> bool" where
  "nvram_admits k r \<longleftrightarrow> oscillator_off r \<or> (\<forall>j. 1 \<le> j \<and> j \<le> k \<longrightarrow> quanta_phase j (sub_hundredth_ns r) < hundredth_ns)"

definition raster_admits :: "nat \<Rightarrow> 'v machine \<Rightarrow> bool" where
  "raster_admits k s \<longleftrightarrow>
     (\<forall>j. 1 \<le> j \<and> j \<le> k \<longrightarrow> quanta_phase j (line_phase_ns (vdsc s)) < raster_line_period_ns s)"

definition board_admits :: "nat \<Rightarrow> 'v machine \<Rightarrow> bool" where
  "board_admits k s \<longleftrightarrow>
     k \<le> (quiet_cycles (m_periph s) - 1) div 25 \<and> k \<le> (nat_limit (b_ikat s) - 1) div 1655 \<and>
     ciap_admits k (b_ciap s) \<and> pacing_admits k s \<and> nvram_admits k (m_nvram s) \<and> raster_admits k s"

lemma le_pacing_quanta: "k \<le> unat (runtime_pacing_quiet_quanta m s) \<longleftrightarrow> k \<le> unat m \<and> pacing_admits k s"
proof (cases "s_realtime_pacing s \<and> s_pace_pending_cycles s < 151049")
  case True
  let ?x = "s_pace_pending_cycles s"
  let ?n = "(151049 - ?x - 1) div 25 :: u64"
  have lt: "unat ?x < 151049" using True by (simp add: word_less_nat_alt)
  have "unat (151049 - ?x) = 151049 - unat ?x" using True by (simp add: unat_sub word_le_nat_alt word_less_nat_alt)
  moreover have "unat (151049 - ?x - 1) = unat (151049 - ?x) - 1"
    using lt calculation by (intro unat_minus_one) (auto simp: word_unat_eq_iff)
  ultimately have n: "unat ?n = (151049 - unat ?x - 1) div 25" by (simp add: unat_div)
  have down: "unat (ucast ?n :: u32) = unat ?n"
    using n by (simp add: unsigned_ucast_eq take_bit_nat_eq_self)
  have um: "unat (ucast m :: u64) = unat m" using u32_less [of m] by (simp add: unsigned_ucast_eq take_bit_nat_eq_self)
  have "unat (runtime_pacing_quiet_quanta m s) = min (unat ?n) (unat m)"
    using True down by (simp add: runtime_pacing_quiet_quanta_def Let_def word_less_nat_alt word_le_nat_alt um min_def not_le)
  moreover have "k \<le> unat ?n \<longleftrightarrow> k = 0 \<or> unat ?x + 25 * k < 151049"
    unfolding n using lt by (simp add: less_eq_div_iff_mult_less_eq) linarith
  ultimately show ?thesis using True by (auto simp: pacing_admits_def)
next
  case False
  then show ?thesis
    by (auto simp: runtime_pacing_quiet_quanta_def pacing_admits_def not_less word_le_nat_alt)
qed

lemma le_nvram_quanta: "k \<le> nvram_quiet_quanta m quantum_ns r \<longleftrightarrow> k \<le> m \<and> nvram_admits k r"
  by (auto simp: nvram_quiet_quanta_def quiet_count_phase phase_count_iff nvram_admits_def)

lemma le_streaming_quanta:
  "ciap_inv c \<Longrightarrow> k \<le> unat (cdi_streaming_quiet_quanta m 1655 0 c) \<longleftrightarrow> k \<le> unat m \<and> ciap_admits k c"
  by (auto simp: streaming_quanta_unat ciap_admits_def)

lemma le_idle_limit:
  assumes "board_inv s"
  shows "k \<le> idle_limit maximum s \<longleftrightarrow> k \<le> min (unat maximum) 64 \<and> board_admits k s"
proof -
  have m: "unat (if maximum < 64 then maximum else 64) = min (unat maximum) 64"
    by (simp add: word_less_nat_alt min_def)
  show ?thesis
    using assms unfolding idle_limit_def Let_def integer_ns_eq
    by (auto simp: board_inv_def phase_count_iff le_nvram_quanta le_pacing_quanta le_streaming_quanta quanta_unat
        quiet_quanta_unat m board_admits_def raster_admits_def)
qed

section \<open>The batch field by field\<close>

definition ikat_aged :: "u64 \<Rightarrow> IkatDevice \<Rightarrow> IkatDevice" where
  "ikat_aged n d = fold (age_channel n) [0..<4] (d\<lparr>pointer_elapsed_ns := pointer_elapsed_ns d + n\<rparr>)"

definition ciap_aged :: "nat \<Rightarrow> CiapDevice \<Rightarrow> CiapDevice" where
  "ciap_aged n c = (if n = 0 then c else quiet_ciap (of_nat n * 1655) c)"

definition quiet_board :: "nat \<Rightarrow> 'v machine \<Rightarrow> 'v machine" where
  "quiet_board n s =
     s\<lparr>m_periph := periph_advance_quiet (of_nat (25 * n)) (m_periph s), b_ikat := ikat_aged (of_nat n * 1655) (b_ikat s),
       b_ciap := ciap_aged n (b_ciap s), m_nvram := nvram_advance_quiet n quantum_ns (m_nvram s),
       g_total_cycles := g_total_cycles s + of_nat n * 25,
       vdsc := (vdsc s)\<lparr>line_phase_ns := quanta_phase n (line_phase_ns (vdsc s))\<rparr>,
       s_pace_pending_cycles := (if s_realtime_pacing s then s_pace_pending_cycles s + of_nat n * 25 else s_pace_pending_cycles s)\<rparr>"

lemma slave_advance_field: "slave_advance_quiet n s = s\<lparr>b_ikat := ikat_aged n (b_ikat s)\<rparr>"
  by (simp add: advance_quiet_age upd_ikat_def ikat_aged_def)

lemma ikat_aged_add: "ikat_aged b (ikat_aged a d) = ikat_aged (a + b) d"
proof -
  define s where "s = (undefined :: drive_board)\<lparr>b_ikat := d\<rparr>"
  have "b_ikat (slave_advance_quiet b (slave_advance_quiet a s)) = b_ikat (slave_advance_quiet (a + b) s)"
    by (simp only: slave_advance_add)
  then show ?thesis by (simp add: slave_advance_field s_def)
qed

lemma quanta_of_nat: "n \<le> 64 \<Longrightarrow> unat (of_nat n * 1655 :: u64) = n * 1655"
  by (simp add: unat_word_ariths unat_of_nat)

lemma quiet_ciap_idle:
  "\<not> ap_completion_pending c \<and> \<not> audio_active c \<and> \<not> data_running c \<Longrightarrow> quiet_ciap a c = c"
  by (simp add: quiet_ciap_def quiet_ap_def quiet_audio_def quiet_sector_def)

lemma streaming_field:
  assumes "ciap_inv (b_ciap s)" and "ciap_admits n (b_ciap s)" and "n \<le> 64"
  shows "streaming_batch 1655 n s = s\<lparr>b_ciap := ciap_aged n (b_ciap s)\<rparr>"
proof (cases "n = 0 \<or> next_deadline (b_ciap s) = UINT64_MAX")
  case True
  then show ?thesis
    using assms(1) next_deadline_quiet(2) [OF assms(1)]
    by (auto simp: streaming_batch_def ciap_aged_def increment_inv advance_0_idle quiet_ciap_idle)
next
  case False
  then have "n * 1655 \<le> unat (next_deadline (b_ciap s)) - 1" "0 < n"
    using assms(2) by (auto simp: ciap_admits_def less_eq_div_iff_mult_less_eq)
  then have "of_nat n * 1655 < next_deadline (b_ciap s)"
    unfolding word_less_nat_alt quanta_of_nat [OF assms(3)] by linarith
  then have "quiet_for (of_nat n * 1655) (b_ciap s)" using False next_deadline_quiet(1) [OF assms(1)] by blast
  then show ?thesis
    using False assms(1) by (simp add: streaming_batch_def ciap_aged_def increment_inv advance_streaming_quiet upd_ciap_def)
qed

lemma apply_quiet_fields:
  assumes "board_inv s" and "board_admits n s" and "n \<noteq> 0" and "n \<le> 64"
  shows "apply_quiet n (quanta_phase n (line_phase_ns (vdsc s))) s = quiet_board n s"
proof -
  let ?s1 = "slave_advance_quiet (of_nat n * 1655) (s\<lparr>m_periph := periph_advance_quiet (of_nat n * 25) (m_periph s)\<rparr>)"
  have b: "b_ciap ?s1 = b_ciap s" by (simp add: slave_advance_field)
  have "streaming_batch 1655 n ?s1 = ?s1\<lparr>b_ciap := ciap_aged n (b_ciap ?s1)\<rparr>"
    using assms by (intro streaming_field) (simp_all add: b board_inv_def board_admits_def)
  then have c: "cdic_increment_time (of_nat n * 1655) ?s1 = ?s1\<lparr>b_ciap := ciap_aged n (b_ciap s)\<rparr>"
    using assms(3) b by (simp add: streaming_batch_def)
  have u: "to_u64 (of_nat (unat (w :: u64))) = w" for w
    by (simp only: to_u64_def floor_of_nat) simp
  have e: "(ucast (of_nat n * 25 :: u32) :: u64) = of_nat n * 25" "unat (of_nat n * 25 :: u64) = n * 25"
    using assms(4) by (simp_all add: word_unat_eq_iff unsigned_ucast_eq unat_word_ariths unat_of_nat take_bit_nat_eq_self)
  have "pacing_admits n s" using assms(2) by (simp add: board_admits_def)
  then have "s_realtime_pacing s \<Longrightarrow> s_pace_pending_cycles s + of_nat n * 25 < 151049"
    using assms(3) e(2) by (simp add: pacing_admits_def word_less_nat_alt unat_add_no_wrap mult.commute)
  then show ?thesis
    unfolding apply_quiet_def integer_ns_eq Let_def u c
    by (simp add: slave_advance_field quiet_board_def runtime_pace_cycles_def upd_vdsc_def e(1) Let_def mult.commute cong: if_cong)
qed

section \<open>A quiet clock quantum\<close>

lemma quiet_board_reads:
  "m_periph (quiet_board n s) = periph_advance_quiet (of_nat (25 * n)) (m_periph s)"
  "b_ikat (quiet_board n s) = ikat_aged (of_nat n * 1655) (b_ikat s)"
  "b_ciap (quiet_board n s) = ciap_aged n (b_ciap s)"
  "m_nvram (quiet_board n s) = nvram_advance_quiet n quantum_ns (m_nvram s)"
  "line_phase_ns (vdsc (quiet_board n s)) = quanta_phase n (line_phase_ns (vdsc s))"
  "b_media (quiet_board n s) = b_media s" "b_irq (quiet_board n s) = b_irq s" "g_halted (quiet_board n s) = g_halted s"
  "raster_line_period_ns (quiet_board n s) = raster_line_period_ns s" "b_input (quiet_board n s) = b_input s"
  "b_audio (quiet_board n s) = b_audio s" "s_realtime_pacing (quiet_board n s) = s_realtime_pacing s"
  by (simp_all add: quiet_board_def raster_line_period_ns_def clock_format_def vreg_def)

lemma periph_batch:
  assumes "periph_inv p" and "Suc k \<le> (quiet_cycles p - 1) div 25"
  shows "periph_inv (periph_advance_quiet (of_nat (25 * k)) p)"
    and "1 \<le> (quiet_cycles (periph_advance_quiet (of_nat (25 * k)) p) - 1) div 25"
    and "periph_advance_quiet 25 (periph_advance_quiet (of_nat (25 * k)) p) = periph_advance_quiet (of_nat (25 * Suc k)) p"
proof -
  let ?q = "periph_advance_quiet (of_nat (25 * k)) p"
  define i where "i = irq_reset"
  have b: "Suc k \<le> 251659" using assms(2) quiet_cycles_bound [of p] by linarith
  then have l: "Suc k \<le> unat (periph_quiet_quanta 0xFFFFFFFF p)" using assms by (simp add: quiet_quanta_unat)
  have s: "(periph_increment_timer 25 ^^ k) (p, i) = (?q, i)"
    using periph_quiet.batch_eq_steps [of "(p, i)" k "0xFFFFFFFF"] assms(1) l by simp
  from periph_quiet.steps_inv [of "(p, i)" k "0xFFFFFFFF"] assms(1) l s
  show inv: "periph_inv ?q" by simp
  from periph_quiet.steps_inv [of "(p, i)" k "0xFFFFFFFF"] assms(1) l s
  have "1 \<le> unat (periph_quiet_quanta 0xFFFFFFFF ?q)" by simp
  then show "1 \<le> (quiet_cycles ?q - 1) div 25" using inv by (simp add: quiet_quanta_unat)
  from periph_quiet.batch_split [of "(p, i)" k 1 "0xFFFFFFFF"] assms(1) l
  show "periph_advance_quiet 25 ?q = periph_advance_quiet (of_nat (25 * Suc k)) p" by (simp add: algebra_simps)
qed

lemma ikat_batch:
  assumes "ikat_idle_inv s" and "Suc k \<le> (nat_limit (b_ikat s) - 1) div 1655"
  shows "ikat_idle_inv (s\<lparr>b_ikat := ikat_aged (of_nat k * 1655) (b_ikat s)\<rparr>)"
    and "1 \<le> (nat_limit (ikat_aged (of_nat k * 1655) (b_ikat s)) - 1) div 1655"
proof -
  let ?t = "slave_advance_quiet (of_nat k * 1655) s"
  have b: "Suc k \<le> 15107" using assms(2) limit_bound [of "b_ikat s"] by linarith
  then have l: "Suc k \<le> unat (slave_quiet_quanta 0xFFFFFFFF 1655 s)" using assms by (simp add: quanta_unat)
  have e: "(slave_increment_time 1655 ^^ k) s = ?t"
    using ikat_quiet.batch_eq_steps [of s k "0xFFFFFFFF"] assms(1) l by simp
  then have inv: "ikat_idle_inv ?t" and "1 \<le> unat (slave_quiet_quanta 0xFFFFFFFF 1655 ?t)"
    using ikat_quiet.steps_inv [of s k "0xFFFFFFFF"] assms(1) l by auto
  then have "1 \<le> (nat_limit (b_ikat ?t) - 1) div 1655" by (simp add: quanta_unat)
  with inv show "ikat_idle_inv (s\<lparr>b_ikat := ikat_aged (of_nat k * 1655) (b_ikat s)\<rparr>)"
    "1 \<le> (nat_limit (ikat_aged (of_nat k * 1655) (b_ikat s)) - 1) div 1655"
    by (simp_all add: slave_advance_field)
qed

lemma ciap_batch:
  assumes "ciap_inv c" and "ciap_admits (Suc k) c" and "Suc k \<le> 64"
  shows "ciap_inv (ciap_aged k c)" and "ciap_admits 1 (ciap_aged k c)" and "ciap_aged 1 (ciap_aged k c) = ciap_aged (Suc k) c"
proof -
  define s where "s = (undefined :: cd_board)\<lparr>b_ciap := c\<rparr>"
  have c: "b_ciap s = c" by (simp add: s_def)
  have ad: "ciap_admits k c" using assms(2) by (auto simp: ciap_admits_def)
  have l: "Suc k \<le> unat (cdi_streaming_quiet_quanta 64 1655 0 (b_ciap s))"
    using assms by (simp add: c le_streaming_quanta)
  have f: "streaming_batch 1655 k s = s\<lparr>b_ciap := ciap_aged k c\<rparr>"
    using streaming_field [of s k] assms ad by (simp add: c)
  have e: "(cdic_increment_time 1655 ^^ k) s = s\<lparr>b_ciap := ciap_aged k c\<rparr>"
    using ciap_quiet.batch_eq_steps [of s k 64] assms l f by (simp add: c)
  then show inv: "ciap_inv (ciap_aged k c)"
    using ciap_quiet.steps_inv [of s k 64] assms(1) l by (simp add: c)
  have "1 \<le> unat (cdi_streaming_quiet_quanta 64 1655 0 (ciap_aged k c))"
    using ciap_quiet.steps_inv [of s k 64] assms(1) l e by (simp add: c)
  then show ad1: "ciap_admits 1 (ciap_aged k c)" using inv by (simp add: le_streaming_quanta)
  have "streaming_batch 1655 (k + 1) s = streaming_batch 1655 1 (streaming_batch 1655 k s)"
    using assms(1) l by (intro ciap_quiet.batch_split [of s k 1 64]) (simp_all add: c)
  then show "ciap_aged 1 (ciap_aged k c) = ciap_aged (Suc k) c"
    using streaming_field [of s "k + 1"] streaming_field [of "s\<lparr>b_ciap := ciap_aged k c\<rparr>" 1] assms inv ad1
    by (simp add: c f) (metis cd_board.select_convs(3) cd_board.surjective cd_board.update_convs(3))
qed

lemma nvram_add: "nvram_advance_quiet 1 q (nvram_advance_quiet k q r) = nvram_advance_quiet (Suc k) q r"
  by (simp add: nvram_advance_quiet_def)

lemma quiet_board_0: "board_inv s \<Longrightarrow> quiet_board 0 s = s"
proof -
  assume inv: "board_inv s"
  then have "periph_advance_quiet 0 (m_periph s) = m_periph s"
    using periph_quiet.advance_0 [of "(m_periph s, irq_reset)"] by (simp add: board_inv_def)
  moreover have "ikat_aged 0 (b_ikat s) = b_ikat s"
    using ikat_quiet.advance_0 [of s] inv slave_advance_field [of 0 s]
    by (simp add: board_inv_def) (metis machine.ext_inject machine.surjective drive_board.select_convs(1) drive_board.surjective drive_board.update_convs(1))
  ultimately show ?thesis by (simp add: quiet_board_def ciap_aged_def nvram_advance_quiet_def)
qed

lemma quiet_board_Suc:
  assumes "board_inv s" and "board_admits (Suc k) s" and "Suc k \<le> 64"
  shows "quiet_board 1 (quiet_board k s) = quiet_board (Suc k) s"
proof -
  have "periph_advance_quiet 25 (periph_advance_quiet (of_nat (25 * k)) (m_periph s)) = periph_advance_quiet (of_nat (25 * Suc k)) (m_periph s)"
    "ciap_aged 1 (ciap_aged k (b_ciap s)) = ciap_aged (Suc k) (b_ciap s)"
    using assms periph_batch(3) ciap_batch(3) by (auto simp: board_inv_def board_admits_def)
  moreover have "ikat_aged 1655 (ikat_aged (of_nat k * 1655) (b_ikat s)) = ikat_aged (of_nat (Suc k) * 1655) (b_ikat s)"
    by (simp add: ikat_aged_add algebra_simps)
  moreover have "g_total_cycles s + of_nat k * 25 + 25 = g_total_cycles s + of_nat (Suc k) * 25"
    "s_pace_pending_cycles s + of_nat k * 25 + 25 = s_pace_pending_cycles s + of_nat (Suc k) * 25"
    by (simp_all add: algebra_simps)
  ultimately show ?thesis
    unfolding quiet_board_def [of 1] quiet_board_reads
    by (simp add: nvram_add [simplified])
      (simp add: quiet_board_def cong: if_cong)
qed

lemma quiet_board_keeps:
  assumes "board_inv s" and "board_admits (Suc k) s" and "Suc k \<le> 64"
  shows "board_inv (quiet_board k s)" and "board_admits 1 (quiet_board k s)"
proof -
  have "ikat_idle_inv (quiet_board k s) = ikat_idle_inv (s\<lparr>b_ikat := ikat_aged (of_nat k * 1655) (b_ikat s)\<rparr>)"
    by (simp add: ikat_idle_inv_def quiet_board_reads)
  then show "board_inv (quiet_board k s)"
    using assms periph_batch(1) ikat_batch(1) ciap_batch(1)
    by (auto simp: board_inv_def board_admits_def quiet_board_reads simp del: of_nat_mult)
  have r: "raster_admits 1 (quiet_board k s)" "nvram_admits 1 (m_nvram (quiet_board k s))"
    using assms(2) by (auto simp: board_admits_def raster_admits_def nvram_admits_def quiet_board_reads nvram_advance_quiet_def
        dest!: spec [where x = "Suc k"] intro: le_antisym)
  have "pacing_admits 1 (quiet_board k s)"
  proof (cases "s_realtime_pacing s")
    case True
    then have lt: "unat (s_pace_pending_cycles s) + 25 * Suc k < 151049"
      using assms(2) by (simp add: board_admits_def pacing_admits_def)
    have "unat (of_nat k * 25 :: u64) = k * 25" using assms(3) by (simp add: unat_word_ariths unat_of_nat)
    then have "unat (s_pace_pending_cycles s + of_nat k * 25) = unat (s_pace_pending_cycles s) + k * 25"
      using lt by (simp add: unat_add_no_wrap)
    then show ?thesis using True lt by (simp add: pacing_admits_def quiet_board_def)
  qed (simp add: pacing_admits_def quiet_board_reads)
  then show "board_admits 1 (quiet_board k s)"
    using assms r periph_batch(2) ikat_batch(2) ciap_batch(2)
    by (auto simp: board_inv_def board_admits_def quiet_board_reads simp del: of_nat_mult)
qed

lemma raster_loop_quiet: "line_phase_ns (vdsc s) < raster_line_period_ns s \<Longrightarrow> raster_loop c s = Some (Done (), s)"
  by (subst raster_loop.simps) (simp add: not_le)

lemma tick_quiet:
  assumes "board_inv s" and "board_admits 1 s"
  shows "mcd212_tick c 25 s = Some (Done (), quiet_board 1 s)"
proof -
  let ?s1 = "s\<lparr>m_periph := periph_advance_quiet 25 (m_periph s)\<rparr>"
  have e: "dmul (of_nat (unat (25 :: u32))) cycle_ns = quantum_ns" by (simp add: quantum_ns_def)
  have t: "to_u64 quantum_ns = 1655" using integer_ns_eq unfolding integer_ns_def .
  have p: "periph_increment_timer 25 (m_periph s, b_irq s) = (periph_advance_quiet 25 (m_periph s), b_irq s)"
    using assms by (intro increment_timer_quiet) (auto simp: board_inv_def board_admits_def)
  have "slave_increment_time 1655 ?s1 = slave_advance_quiet 1655 ?s1"
    using assms by (intro increment_quiet) (auto simp: board_inv_def board_admits_def ikat_idle_inv_def)
  then have k: "slave_increment_time 1655 ?s1 = ?s1\<lparr>b_ikat := ikat_aged 1655 (b_ikat s)\<rparr>" (is "_ = ?s2")
    by (simp add: slave_advance_field)
  have "streaming_batch 1655 1 ?s2 = ?s2\<lparr>b_ciap := ciap_aged 1 (b_ciap ?s2)\<rparr>"
    using assms by (intro streaming_field) (simp_all add: board_inv_def board_admits_def)
  then have c: "cdic_increment_time 1655 ?s2 = ?s2\<lparr>b_ciap := ciap_aged 1 (b_ciap s)\<rparr>"
    by (simp add: streaming_batch_def)
  have "1 \<le> nvram_quiet_quanta 1 quantum_ns (m_nvram s)"
    using assms(2) by (simp add: le_nvram_quanta board_admits_def)
  then have n: "nvram_increment_clock quantum_ns (m_nvram s) = Some (nvram_advance_quiet 1 quantum_ns (m_nvram s))"
    by (intro quiet_step [where m = 1]) simp
  have ph: "dadd (line_phase_ns (vdsc s)) quantum_ns < raster_line_period_ns s"
    using assms(2) by (auto simp: board_admits_def raster_admits_def dest!: spec [where x = 1])
  have pc: "s_realtime_pacing s \<Longrightarrow> s_pace_pending_cycles s + 25 < 151049"
    using assms(2) by (simp add: board_admits_def pacing_admits_def word_less_nat_alt unat_add_no_wrap)
  have d: "board_devices 25 quantum_ns s = Some (s\<lparr>m_periph := periph_advance_quiet 25 (m_periph s),
      b_ikat := ikat_aged 1655 (b_ikat s), b_ciap := ciap_aged 1 (b_ciap s),
      m_nvram := nvram_advance_quiet 1 quantum_ns (m_nvram s), g_total_cycles := g_total_cycles s + 25\<rparr>)"
    by (simp add: board_devices_def p t k c n)
  show ?thesis
    unfolding mcd212_tick_def e Let_def d
    using ph pc by (simp add: raster_loop_quiet upd_vdsc_def raster_line_period_ns_def clock_format_def vreg_def
        quiet_board_def runtime_pace_cycles_def Let_def cong: if_cong)
qed

lemma board_admits_mono: "board_admits n s \<Longrightarrow> k \<le> n \<Longrightarrow> board_admits k s"
  by (auto simp: board_admits_def ciap_admits_def pacing_admits_def nvram_admits_def raster_admits_def)

section \<open>Equivalence with single quanta\<close>

text \<open>
  The same loop without batching, as the processor's stop state runs it when no batch is admitted: each admitted
  quantum is a full clock quantum, made when its turn comes.
\<close>

fun faithful_loop ::
    "display_config \<Rightarrow> host_view \<Rightarrow> u64 \<Rightarrow> nat \<Rightarrow> nat \<Rightarrow> board \<Rightarrow> (nat \<times> bool \<times> bool \<times> board) option" where
  "faithful_loop c h media 0 completed s = Some (completed, False, False, s)"
| "faithful_loop c h media (Suc left) completed s =
     (let (go, s1) = call_pump h completed s
      in if \<not> go then Some (completed, True, False, s1)
         else if \<not> admitted h media completed s1 then Some (completed, False, True, s1)
         else Option.bind (mcd212_tick c 25 s1) (\<lambda>(r, s2).
           if r = Done () then faithful_loop c h media left (Suc completed) s2 else None))"

text \<open>A front end's pump sees and changes the host input and the audio ring only.\<close>

definition front_end_pump :: "(nat \<Rightarrow> host_input \<Rightarrow> CdiAudio \<Rightarrow> bool \<times> host_input \<times> CdiAudio) \<Rightarrow> nat \<Rightarrow> board \<Rightarrow> bool \<times> board" where
  "front_end_pump g k s = (let (go, i, a) = g k (b_input s) (b_audio s) in (go, s\<lparr>b_input := i, b_audio := a\<rparr>))"

definition host_pump :: "host_view \<Rightarrow> bool" where
  "host_pump h \<longleftrightarrow> pump h = None \<or> (\<exists>g. pump h = Some (front_end_pump g))"

lemma call_pump_shape:
  assumes "host_pump h"
  obtains go i a where "call_pump h k s = (go, s\<lparr>b_input := i, b_audio := a\<rparr>)"
    and "call_pump h k (quiet_board n s) = (go, quiet_board n (s\<lparr>b_input := i, b_audio := a\<rparr>))"
proof (cases "k = 0 \<or> pump h = None")
  case True
  then have "call_pump h k t = (True, t)" for t by (auto simp: call_pump_def)
  then show ?thesis using that [where go = True and i = "b_input s" and a = "b_audio s"] by simp
next
  case False
  then obtain g where g: "pump h = Some (front_end_pump g)" using assms by (auto simp: host_pump_def)
  obtain go i a where o: "g k (b_input s) (b_audio s) = (go, i, a)" by (metis prod_cases3)
  show ?thesis
  proof (rule that [where go = go and i = i and a = a])
    show "call_pump h k s = (go, s\<lparr>b_input := i, b_audio := a\<rparr>)"
      using False by (simp add: call_pump_def g front_end_pump_def o)
    show "call_pump h k (quiet_board n s) = (go, quiet_board n (s\<lparr>b_input := i, b_audio := a\<rparr>))"
      using False by (simp add: call_pump_def g front_end_pump_def o quiet_board_reads) (simp add: quiet_board_def cong: if_cong)
  qed
qed

lemma host_fields:
  "board_inv (s\<lparr>b_input := i, b_audio := a\<rparr>) = board_inv s"
  "board_admits n (s\<lparr>b_input := i, b_audio := a\<rparr>) = board_admits n s"
  by (simp_all add: board_inv_def ikat_idle_inv_def board_admits_def pacing_admits_def raster_admits_def
      raster_line_period_ns_def clock_format_def vreg_def)

lemma loops_agree:
  assumes "host_pump h" and "board_inv s" and "board_admits (k + left) s" and "k + left \<le> 64"
  shows "\<exists>n stopped critical t.
     idle_loop h media left k (quanta_phase k (line_phase_ns (vdsc s))) s =
       (n, quanta_phase n (line_phase_ns (vdsc t)), stopped, critical, t) \<and>
     faithful_loop c h media left k (quiet_board k s) = Some (n, stopped, critical, quiet_board n t) \<and>
     board_inv t \<and> board_admits n t \<and> k \<le> n \<and> n \<le> k + left"
  using assms
proof (induction left arbitrary: k s)
  case 0
  then show ?case by auto
next
  case (Suc left)
  obtain go i a where p: "call_pump h k s = (go, s\<lparr>b_input := i, b_audio := a\<rparr>)"
    "call_pump h k (quiet_board k s) = (go, quiet_board k (s\<lparr>b_input := i, b_audio := a\<rparr>))"
    using call_pump_shape [OF Suc.prems(1)] by blast
  let ?t = "s\<lparr>b_input := i, b_audio := a\<rparr>"
  have inv: "board_inv ?t" and ad: "board_admits (Suc k + left) ?t" and l: "Suc k + left \<le> 64"
    using Suc.prems by (simp_all add: host_fields)
  have adk: "board_admits (Suc k) ?t" "board_admits k ?t" and lk: "Suc k \<le> 64"
    using board_admits_mono [OF ad] l by simp_all
  have adm: "admitted h media k (quiet_board k ?t) = admitted h media k ?t"
    by (simp add: admitted_def quiet_board_reads)
  have ph: "line_phase_ns (vdsc ?t) = line_phase_ns (vdsc s)" by simp
  show ?case
  proof (cases "go \<and> admitted h media k ?t")
    case True
    have "mcd212_tick c 25 (quiet_board k ?t) = Some (Done (), quiet_board 1 (quiet_board k ?t))"
      using quiet_board_keeps [OF inv adk(1) lk] by (intro tick_quiet)
    then have tick: "mcd212_tick c 25 (quiet_board k ?t) = Some (Done (), quiet_board (Suc k) ?t)"
      using quiet_board_Suc [OF inv adk(1) lk] by simp
    from Suc.IH [OF Suc.prems(1) inv ad l] show ?thesis
      using True by (simp add: p adm tick ph) (metis Suc_leD)
  next
    case False
    then show ?thesis using inv adk(2) by (cases go) (auto simp: p adm ph)
  qed
qed


section \<open>A stopped board\<close>

lemma dadd_crude:
  assumes "0 \<le> x" and "0 < y"
  shows "0 < dadd x y" and "dadd x y \<le> (x + y) + (x + y)"
  using assms round_pos_pos [of "x + y"] round64_crude [of "x + y"] by (simp_all add: dadd_def round64_def)

lemma early_phases: "\<forall>j. 1 \<le> j \<and> j \<le> 2 \<longrightarrow> quanta_phase j 0 < 64000"
proof -
  have q: "0 < quantum_ns" "quantum_ns < 1656" using quantum_bounds by (simp_all add: quantum_ns_def)
  let ?x = "dadd 0 quantum_ns"
  have x: "0 < ?x" "?x \<le> 2 * quantum_ns" using dadd_crude [of 0 quantum_ns] q by simp_all
  have "dadd ?x quantum_ns \<le> (?x + quantum_ns) + (?x + quantum_ns)" using dadd_crude(2) [of ?x quantum_ns] x q by linarith
  also have "\<dots> \<le> 6 * quantum_ns" using x(2) by linarith
  finally have "dadd ?x quantum_ns < 64000" using q(2) by linarith
  then have y: "?x < 64000" "dadd ?x quantum_ns < 64000" using x q by linarith+
  have "j = Suc 0 \<or> j = Suc (Suc 0)" if "1 \<le> j \<and> j \<le> 2" for j using that by linarith
  with y show ?thesis by force
qed

lemma stopped_board_ok: "board_inv stopped_board" "board_admits 2 stopped_board"
proof -
  have ok: "ikat_ok (b_ikat idle_drive)" using reachable_ok [OF idle_drive_reachable] idle_drive_state(1) by simp
  show "board_inv stopped_board"
    using ok idle_drive_state streaming_board_inv
    by (simp add: board_inv_def stopped_board_fields ikat_idle_inv_def periph_inv_def periph_reset_def set_byte_def)
  have p: "quiet_cycles periph_reset = 6291456"
    by (simp add: quiet_cycles_def ticks_left_def periph_reset_def set_byte_def load_counter_def be16_def Let_def)
  have k: "nat_limit (b_ikat idle_drive) = 25000000"
    using less_fold_limit [of 24999999 "b_ikat idle_drive" "[0..<4]" 25000000] limit_bound [of "b_ikat idle_drive"]
    by (simp add: nat_limit_def idle_drive_state empty_channel_def)
      (simp add: idle_drive_def initialize_ikat_def)
  have c: "next_deadline (b_ciap streaming_board) = 13333333"
    by (simp add: next_deadline_def streaming_board_def store_word_def ciap_zero_def)
  have n: "sub_hundredth_ns nvram_reset = 0" by (simp add: nvram_reset_def latch_clock_registers_def Let_def)
  have "nvram_admits 2 nvram_reset"
    using early_phases by (auto simp: nvram_admits_def n intro: order_less_trans)
  then show "board_admits 2 stopped_board"
    using early_phases by (simp add: board_admits_def stopped_board_fields p k ciap_admits_def c pacing_admits_def raster_admits_def)
qed

definition lone_host :: host_view where
  "lone_host = \<lparr>job_allowed = True, observer = (\<lambda>_. True), pump = None\<rparr>"


end
