(* ===== verification/Input_Schedule.thy ===== *)
theory Input_Schedule
  imports Board_Frame
begin

text \<open>
  The scripted input (\<^verbatim>\<open>runner/src/slave.c\<close>): a specification \<open>frame:mask,frame:mask,...\<close> with strictly rising frames is
  parsed with the C library's number conversion and replayed as frames complete. A C string is a list of characters
  without its terminating zero; a failing allocation is not modelled.
\<close>

section \<open>Number conversion\<close>

definition is_space :: "char \<Rightarrow> bool" where
  "is_space ch \<longleftrightarrow> ch \<in> {CHR '' '', CHR 0x09, CHR 0x0A, CHR 0x0B, CHR 0x0C, CHR 0x0D}"

definition digit_value :: "char \<Rightarrow> nat" where
  "digit_value ch =
     (let k = of_char ch :: nat
      in if 48 \<le> k \<and> k \<le> 57 then k - 48
         else if 97 \<le> k \<and> k \<le> 122 then k - 87
         else if 65 \<le> k \<and> k \<le> 90 then k - 55
         else 99)"

fun take_digits :: "nat \<Rightarrow> nat \<Rightarrow> string \<Rightarrow> nat \<times> string" where
  "take_digits base acc [] = (acc, [])"
| "take_digits base acc (ch # cs) =
     (if digit_value ch < base then take_digits base (acc * base + digit_value ch) cs else (acc, ch # cs))"

text \<open>
  \<open>strtoull\<close> and \<open>strtoul\<close> with base 0 and a result of \<open>bits\<close> bits: the value, the range error and the rest, or \<open>None\<close>
  when there is no number.
\<close>

definition unsigned_digits :: "string \<Rightarrow> (nat \<times> string) option" where
  "unsigned_digits cs =
     (case cs of
        z # x # h # rest \<Rightarrow>
          if z = CHR ''0'' \<and> x \<in> {CHR ''x'', CHR ''X''} \<and> digit_value h < 16 then Some (take_digits 16 0 (h # rest))
          else if digit_value z < 10 then Some (take_digits (if z = CHR ''0'' then 8 else 10) 0 cs) else None
      | z # rest \<Rightarrow> if digit_value z < 10 then Some (take_digits (if z = CHR ''0'' then 8 else 10) 0 cs) else None
      | [] \<Rightarrow> None)"

definition strtou :: "nat \<Rightarrow> string \<Rightarrow> (nat \<times> bool \<times> string) option" where
  "strtou bits text =
     (let cs = dropWhile is_space text;
          minus = (cs \<noteq> [] \<and> hd cs = CHR ''-'');
          cs' = (if cs \<noteq> [] \<and> hd cs \<in> {CHR ''-'', CHR ''+''} then tl cs else cs)
      in map_option (\<lambda>(n, rest).
           if n \<ge> 2 ^ bits then (2 ^ bits - 1, True, rest)
           else (if minus then (2 ^ bits - n) mod 2 ^ bits else n, False, rest)) (unsigned_digits cs'))"

section \<open>The schedule\<close>

abbreviation (input) "INPUT_SCHEDULE_CAPACITY \<equiv> 64 :: nat"

definition parse_transition :: "nat \<Rightarrow> u64 option \<Rightarrow> string \<Rightarrow> ((u64 \<times> u32) \<times> string) option" where
  "parse_transition long_bits prior text =
     (if text \<noteq> [] \<and> hd text = CHR ''-'' then None
      else (case strtou 64 text of
        None \<Rightarrow> None
      | Some (number, erange, rest) \<Rightarrow>
          if erange \<or> rest = [] \<or> hd rest \<noteq> CHR '':'' then None
          else if tl rest \<noteq> [] \<and> hd (tl rest) = CHR ''-'' then None
          else (case strtou long_bits (tl rest) of
            None \<Rightarrow> None
          | Some (held, erange', rest') \<Rightarrow>
              if erange' \<or> held > 0x3F \<or> (rest' \<noteq> [] \<and> hd rest' \<noteq> CHR '','') \<or>
                 (prior \<noteq> None \<and> of_nat number \<le> the prior) then None
              else Some ((of_nat number, of_nat held), rest'))))"

text \<open>\<open>left\<close> is the room in the table; the result is \<open>None\<close> where the code discards the whole schedule.\<close>

fun parse_schedule :: "nat \<Rightarrow> nat \<Rightarrow> u64 option \<Rightarrow> string \<Rightarrow> (u64 \<times> u32) list option" where
  "parse_schedule long_bits left prior [] = Some []"
| "parse_schedule long_bits 0 prior text = None"
| "parse_schedule long_bits (Suc left) prior text =
     (case parse_transition long_bits prior text of
        None \<Rightarrow> None
      | Some (next, []) \<Rightarrow> Some [next]
      | Some (next, comma # rest) \<Rightarrow>
          if rest = [] then None else map_option ((#) next) (parse_schedule long_bits left (Some (fst next)) rest))"

definition cdi_input_schedule_configure :: "nat \<Rightarrow> string \<Rightarrow> 'v machine \<Rightarrow> bool \<times> 'v machine" where
  "cdi_input_schedule_configure long_bits specification s =
     (let table = (case parse_schedule long_bits INPUT_SCHEDULE_CAPACITY None specification of None \<Rightarrow> [] | Some ts \<Rightarrow> ts)
      in (table \<noteq> [], s\<lparr>input_schedule := table, input_schedule_position := 0\<rparr>))"

section \<open>Laws\<close>

lemma parse_transition_ok:
  assumes "parse_transition b prior cs = Some (e, rest)"
  shows "snd e \<le> 0x3F" and "prior = Some p \<Longrightarrow> p < fst e"
proof -
  have "(of_nat n :: u32) \<le> 0x3F" if "\<not> 0x3F < n" for n using that by (simp add: word_le_nat_alt unat_of_nat)
  then show "snd e \<le> 0x3F" using assms by (auto simp: parse_transition_def split: if_splits option.splits)
  show "p < fst e" if "prior = Some p"
    using assms that by (auto simp: parse_transition_def not_le split: if_splits option.splits)
qed

definition schedule_ok :: "u64 option \<Rightarrow> (u64 \<times> u32) list \<Rightarrow> bool" where
  "schedule_ok prior ts \<longleftrightarrow> sorted_wrt (<) (map fst ts) \<and> (\<forall>e \<in> set ts. snd e \<le> 0x3F) \<and>
     (\<forall>p. prior = Some p \<longrightarrow> (\<forall>e \<in> set ts. p < fst e))"

lemma parse_schedule_ok:
  "parse_schedule b left prior cs = Some ts \<Longrightarrow> schedule_ok prior ts \<and> length ts \<le> left"
proof (induction b left prior cs arbitrary: ts rule: parse_schedule.induct)
  case (3 b left prior c cs)
  then obtain e rest where e: "parse_transition b prior (c # cs) = Some (e, rest)"
    by (auto split: option.splits)
  note ok = parse_transition_ok [OF e]
  show ?case
  proof (cases rest)
    case Nil
    then show ?thesis using 3(2) e ok by (auto simp: schedule_ok_def)
  next
    case (Cons d rs)
    then obtain us where us: "parse_schedule b left (Some (fst e)) rs = Some us" "ts = e # us"
      using 3(2) e by (auto split: if_splits)
    have "rs \<noteq> []" using 3(2) e Cons by (auto split: if_splits)
    then have "schedule_ok (Some (fst e)) us \<and> length us \<le> left" using 3(1) [OF e refl Cons _ us(1)] by simp
    then show ?thesis using us(2) ok by (auto simp: schedule_ok_def intro: order_less_trans)
  qed
qed (auto simp: schedule_ok_def)

definition due :: "u64 \<Rightarrow> 'v machine \<Rightarrow> (u64 \<times> u32) list" where
  "due f s = takeWhile (\<lambda>e. fst e \<le> f) (drop (input_schedule_position s) (input_schedule s))"

lemma advance_due:
  "cdi_input_schedule_advance f s =
     s\<lparr>b_input := fold (\<lambda>e. cdi_input_set (snd e)) (due f s) (b_input s),
       input_schedule_position := input_schedule_position s + length (due f s)\<rparr>"
proof (induction f s rule: cdi_input_schedule_advance.induct)
  case (1 f s)
  let ?p = "input_schedule_position s" and ?t = "input_schedule s"
  show ?case
  proof (cases "?p < length ?t \<and> fst (?t ! ?p) \<le> f")
    case True
    then have "due f s = ?t ! ?p # takeWhile (\<lambda>e. fst e \<le> f) (drop (Suc ?p) ?t)"
      by (simp add: due_def flip: Cons_nth_drop_Suc)
    then show ?thesis using True 1 by (subst cdi_input_schedule_advance.simps) (simp add: due_def)
  next
    case False
    then have "due f s = []"
      by (cases "?p < length ?t") (auto simp: due_def simp flip: Cons_nth_drop_Suc)
    then show ?thesis using False by (subst cdi_input_schedule_advance.simps) auto
  qed
qed

lemma takeWhile_sorted:
  "sorted_wrt (<) (map fst ts) \<Longrightarrow> takeWhile (\<lambda>e. fst e \<le> (g :: u64)) ts = filter (\<lambda>e. fst e \<le> g) ts"
proof (induction ts)
  case (Cons e ts)
  have "filter (\<lambda>e. fst e \<le> g) ts = []" if "\<not> fst e \<le> g"
    using that Cons.prems by (auto simp: filter_empty_conv not_le)
  with Cons show ?case by simp
qed simp

lemma takeWhile_due:
  assumes "sorted_wrt (<) (map fst ts)" and "(f :: u64) \<le> g"
  shows "takeWhile (\<lambda>e. fst e \<le> f) ts @ takeWhile (\<lambda>e. fst e \<le> g) (drop (length (takeWhile (\<lambda>e. fst e \<le> f) ts)) ts) =
    filter (\<lambda>e. fst e \<le> g) ts"
  using assms
proof (induction ts)
  case (Cons e ts)
  then show ?case using takeWhile_sorted [of "e # ts" g] by (cases "fst e \<le> f") auto
qed simp

text \<open>
C39: A script the parser accepts has between 1 and 64 entries with strictly rising frames and masks of six bits, and is
replayed exactly: after the frames \<open>f\<close> and later \<open>g\<close> have completed, precisely the entries due by \<open>g\<close> have been applied
to the host input, each once and in the order of the script.
\<close>
theorem script_replayed:
  assumes "cdi_input_schedule_configure long_bits specification s = (True, s1)" and "f \<le> g"
  shows "input_schedule s1 \<noteq> [] \<and> length (input_schedule s1) \<le> 64 \<and> sorted_wrt (<) (map fst (input_schedule s1)) \<and>
    (\<forall>e \<in> set (input_schedule s1). snd e \<le> 0x3F) \<and>
    cdi_input_schedule_advance g (cdi_input_schedule_advance f s1) =
      s1\<lparr>b_input := fold (\<lambda>e. cdi_input_set (snd e)) (filter (\<lambda>e. fst e \<le> g) (input_schedule s1)) (b_input s1),
         input_schedule_position := length (filter (\<lambda>e. fst e \<le> g) (input_schedule s1))\<rparr>"
proof -
  let ?t = "input_schedule s1"
  have t: "parse_schedule long_bits 64 None specification = Some ?t" "?t \<noteq> []" "input_schedule_position s1 = 0"
    using assms(1) by (auto simp: cdi_input_schedule_configure_def Let_def split: option.splits)
  have ok: "schedule_ok None ?t" "length ?t \<le> 64" using parse_schedule_ok [OF t(1)] by auto
  let ?a = "takeWhile (\<lambda>e. fst e \<le> f) ?t"
  let ?b = "takeWhile (\<lambda>e. fst e \<le> g) (drop (length ?a) ?t)"
  have ab: "?a @ ?b = filter (\<lambda>e. fst e \<le> g) ?t" using ok(1) assms(2) by (intro takeWhile_due) (simp_all add: schedule_ok_def)
  have "cdi_input_schedule_advance g (cdi_input_schedule_advance f s1) =
      s1\<lparr>b_input := fold (\<lambda>e. cdi_input_set (snd e)) (?a @ ?b) (b_input s1), input_schedule_position := length (?a @ ?b)\<rparr>"
    by (simp add: advance_due [of f] advance_due [of g] due_def t(3))
  then show ?thesis using t(2) ok unfolding ab by (simp add: schedule_ok_def)
qed

theorem script_replayed_witness:
  "let s1 = snd (cdi_input_schedule_configure 64 ''3:0x10,7:0'' stopped_board)
   in input_schedule_position (cdi_input_schedule_advance 5 (cdi_input_schedule_advance 2 s1)) = 1"
proof -
  have d: "strtou 64 ''3:0x10,7:0'' = Some (3, False, '':0x10,7:0'')" "strtou 64 ''0x10,7:0'' = Some (0x10, False, '',7:0'')"
    "strtou 64 ''7:0'' = Some (7, False, '':0'')" "strtou 64 ''0'' = Some (0, False, [])"
    by (simp_all add: strtou_def unsigned_digits_def is_space_def digit_value_def Let_def)
  have t: "parse_transition 64 None ''3:0x10,7:0'' = Some ((3, 0x10), '',7:0'')"
    "parse_transition 64 (Some 3) ''7:0'' = Some ((7, 0), [])"
    by (simp_all add: parse_transition_def d)
  have p2: "parse_schedule 64 (Suc (Suc n)) None ''3:0x10,7:0'' = Some [(3, 0x10), (7, 0)]" for n by (simp add: t)
  have p: "parse_schedule 64 64 None ''3:0x10,7:0'' = Some [(3, 0x10), (7, 0)]" using p2 [of 62] by simp
  define s1 where "s1 = snd (cdi_input_schedule_configure 64 ''3:0x10,7:0'' stopped_board)"
  have c: "cdi_input_schedule_configure 64 ''3:0x10,7:0'' stopped_board = (True, s1)" "input_schedule s1 = [(3, 0x10), (7, 0)]"
    by (simp_all add: s1_def cdi_input_schedule_configure_def p)
  show ?thesis unfolding s1_def [symmetric] Let_def using script_replayed [OF c(1), of 2 5] by (simp add: c(2))
qed

text \<open>The sign test of \<open>parse_transition\<close> looks at the first character only, but the number conversion skips spaces.\<close>

lemma spaced_sign_accepted: "parse_transition 64 None '' -5:1'' = Some ((0xFFFFFFFFFFFFFFFB, 1), [])"
  by (simp add: parse_transition_def strtou_def unsigned_digits_def is_space_def digit_value_def Let_def)

end
